theory Spec2Isabelle
  imports Main "HOL-Library.Word"
begin

section \<open>Python values and the built-in operations the program uses\<close>

text \<open>
  Every value the program handles comes out of \<^verbatim>\<open>response.json()\<close> or out of the
  process environment: \<^verbatim>\<open>None\<close>, a bool, an int, a float, a str, a list or a dict with
  str keys. A dict is an association list in insertion order (a dict built by the JSON
  parser has distinct keys; a lookup takes the first entry of a key). A float is its
  binary64 bit pattern: the program never computes with one. A str is the list of its
  characters.
\<close>

datatype pyval =
    PNone
  | PBool bool
  | PInt int
  | PFloat "64 word"
  | PStr string
  | PList "pyval list"
  | PDict "(string \<times> pyval) list"

text \<open>
  The exceptions of the run, all subclasses of \<^verbatim>\<open>Exception\<close>. \<open>KeyError\<close> carries the
  missing key, \<open>TypeError\<close> and \<open>AttributeError\<close> their message, and \<open>LibraryError\<close>
  is whatever \<^verbatim>\<open>requests\<close> or the BigQuery client raises, with its message.
\<close>

datatype exn =
    KeyError string
  | TypeError string
  | AttributeError string
  | LibraryError string

definition quote :: "string \<Rightarrow> string" where
  "quote s = CHR 0x27 # s @ [CHR 0x27]"

text \<open>\<^verbatim>\<open>str(e)\<close>: a \<open>KeyError\<close> prints the repr of its key, the others their message.\<close>

fun exn_str :: "exn \<Rightarrow> string" where
  "exn_str (KeyError k) = quote k"
| "exn_str (TypeError m) = m"
| "exn_str (AttributeError m) = m"
| "exn_str (LibraryError m) = m"

fun type_name :: "pyval \<Rightarrow> string" where
  "type_name PNone = ''NoneType''"
| "type_name (PBool b) = ''bool''"
| "type_name (PInt i) = ''int''"
| "type_name (PFloat f) = ''float''"
| "type_name (PStr s) = ''str''"
| "type_name (PList xs) = ''list''"
| "type_name (PDict d) = ''dict''"

text \<open>\<^verbatim>\<open>d[k] = v\<close> on a dict: an existing key keeps its place, a new key goes last.\<close>

fun dict_set :: "(string \<times> pyval) list \<Rightarrow> string \<Rightarrow> pyval \<Rightarrow> (string \<times> pyval) list" where
  "dict_set [] k v = [(k, v)]"
| "dict_set ((k', v') # d) k v = (if k' = k then (k, v) # d else (k', v') # dict_set d k v)"

text \<open>\<^verbatim>\<open>x[k]\<close> with a str key \<open>k\<close>.\<close>

fun py_getitem :: "pyval \<Rightarrow> string \<Rightarrow> exn + pyval" where
  "py_getitem (PDict d) k = (case map_of d k of None \<Rightarrow> Inl (KeyError k) | Some v \<Rightarrow> Inr v)"
| "py_getitem (PList xs) k = Inl (TypeError ''list indices must be integers or slices, not str'')"
| "py_getitem (PStr s) k = Inl (TypeError (''string indices must be integers, not '' @ quote ''str''))"
| "py_getitem x k = Inl (TypeError (quote (type_name x) @ '' object is not subscriptable''))"

text \<open>\<^verbatim>\<open>x.get(k, default)\<close>: only a dict has the method.\<close>

fun py_get :: "pyval \<Rightarrow> string \<Rightarrow> pyval \<Rightarrow> exn + pyval" where
  "py_get (PDict d) k dflt = Inr (case map_of d k of None \<Rightarrow> dflt | Some v \<Rightarrow> v)"
| "py_get x k dflt =
     Inl (AttributeError (quote (type_name x) @ '' object has no attribute '' @ quote ''get''))"

text \<open>\<^verbatim>\<open>x[k] = v\<close> with a str key \<open>k\<close>.\<close>

fun py_setitem :: "pyval \<Rightarrow> string \<Rightarrow> pyval \<Rightarrow> exn + pyval" where
  "py_setitem (PDict d) k v = Inr (PDict (dict_set d k v))"
| "py_setitem (PList xs) k v = Inl (TypeError ''list indices must be integers or slices, not str'')"
| "py_setitem x k v =
     Inl (TypeError (quote (type_name x) @ '' object does not support item assignment''))"

text \<open>
  \<^verbatim>\<open>for x in v\<close>: a list gives its elements, a str its characters, a dict its keys;
  nothing else here is iterable.
\<close>

fun py_iter :: "pyval \<Rightarrow> exn + pyval list" where
  "py_iter (PList xs) = Inr xs"
| "py_iter (PStr s) = Inr (map (\<lambda>c. PStr [c]) s)"
| "py_iter (PDict d) = Inr (map (\<lambda>kv. PStr (fst kv)) d)"
| "py_iter x = Inl (TypeError (quote (type_name x) @ '' object is not iterable''))"

fun decimal :: "nat \<Rightarrow> string" where
  "decimal n =
     (if n < 10 then [char_of (48 + n)] else decimal (n div 10) @ [char_of (48 + n mod 10)])"

declare decimal.simps [simp del]

text \<open>
  \<^verbatim>\<open>f"{x}"\<close>. A str is itself; \<^verbatim>\<open>None\<close>, bools and ints print as Python prints them.
  How a float, a list or a dict prints is left to the parameter \<open>other\<close>.
\<close>

fun py_str :: "(pyval \<Rightarrow> string) \<Rightarrow> pyval \<Rightarrow> string" where
  "py_str other (PStr s) = s"
| "py_str other PNone = ''None''"
| "py_str other (PBool b) = (if b then ''True'' else ''False'')"
| "py_str other (PInt i) = (if i < 0 then CHR ''-'' # decimal (nat (- i)) else decimal (nat i))"
| "py_str other x = other x"

text \<open>Sequencing of steps that may raise.\<close>

definition ebind :: "exn + 'a \<Rightarrow> ('a \<Rightarrow> exn + 'b) \<Rightarrow> exn + 'b" where
  "ebind r f = (case r of Inl e \<Rightarrow> Inl e | Inr x \<Rightarrow> f x)"

section \<open>The outside world: the source API, the warehouse and the log\<close>

record table_ref =
  dataset_id :: string
  table_id :: string

record schema_field =
  field_name :: string
  field_type :: string

record bq_table =
  table_reference :: table_ref
  table_schema :: "schema_field list"

datatype write_disposition = WRITE_APPEND | WRITE_TRUNCATE | WRITE_EMPTY

record load_job_config =
  write_disposition :: "write_disposition option"

datatype level = INFO | ERROR

text \<open>
  What a run does to the outside, in order. Each call is recorded with its arguments and
  its outcome: the parsed body or the exception of \<^verbatim>\<open>requests.get(...).json()\<close>, and for
  the warehouse calls the exception raised, if any.
\<close>

datatype event =
    Log level string
  | Http_get string "(string \<times> pyval) list" "exn + pyval"
  | Create_table bq_table bool "exn option"
  | Load_table_from_json "pyval list" table_ref load_job_config "exn option"
  | Job_result "exn option"

text \<open>
  The outside answers each call as a function of everything that happened before it and of
  the call's arguments, so that the remote data may change during a run.
  \<open>str_other\<close> is how the interpreter prints floats, lists and dicts.
\<close>

record world =
  str_other :: "pyval \<Rightarrow> string"
  http :: "event list \<Rightarrow> string \<Rightarrow> (string \<times> pyval) list \<Rightarrow> exn + pyval"
  create_table :: "event list \<Rightarrow> bq_table \<Rightarrow> bool \<Rightarrow> exn option"
  load_table_from_json ::
    "event list \<Rightarrow> pyval list \<Rightarrow> table_ref \<Rightarrow> load_job_config \<Rightarrow> exn option"
  job_result :: "event list \<Rightarrow> exn option"

text \<open>A step of the run: from the events so far to a result or an exception, and the events after.\<close>

type_synonym 'a io = "event list \<Rightarrow> (exn + 'a) \<times> event list"

definition io_return :: "'a \<Rightarrow> 'a io" where
  "io_return x tr = (Inr x, tr)"

definition io_lift :: "exn + 'a \<Rightarrow> 'a io" where
  "io_lift r tr = (r, tr)"

definition io_bind :: "'a io \<Rightarrow> ('a \<Rightarrow> 'b io) \<Rightarrow> 'b io" where
  "io_bind m f tr = (case m tr of (Inl e, tr') \<Rightarrow> (Inl e, tr') | (Inr x, tr') \<Rightarrow> f x tr')"

definition io_call :: "(event list \<Rightarrow> exn option) \<Rightarrow> (exn option \<Rightarrow> event) \<Rightarrow> unit io" where
  "io_call answer ev tr =
     (let r = answer tr in ((case r of None \<Rightarrow> Inr () | Some e \<Rightarrow> Inl e), tr @ [ev r]))"

definition logger_info :: "string \<Rightarrow> unit io" where
  "logger_info msg tr = (Inr (), tr @ [Log INFO msg])"

definition logger_error :: "string \<Rightarrow> unit io" where
  "logger_error msg tr = (Inr (), tr @ [Log ERROR msg])"

section \<open>The class ClickUpToBigQuery\<close>

record clickup_to_bigquery =
  api_token :: pyval
  workspace_id :: pyval
  base_url :: string
  headers :: "(string \<times> pyval) list"

definition environ_get :: "(string \<Rightarrow> string option) \<Rightarrow> string \<Rightarrow> pyval" where
  "environ_get environ k = (case environ k of None \<Rightarrow> PNone | Some s \<Rightarrow> PStr s)"

definition init :: "(string \<Rightarrow> string option) \<Rightarrow> clickup_to_bigquery" where
  "init environ =
     \<lparr> api_token = environ_get environ ''CLICKUP_API_TOKEN'',
       workspace_id = environ_get environ ''CLICKUP_WORKSPACE_ID'',
       base_url = ''https://api.clickup.com/api/v2'',
       headers = [(''Authorization'', environ_get environ ''CLICKUP_API_TOKEN''),
                  (''Content-Type'', PStr ''application/json'')] \<rparr>"

text \<open>\<^verbatim>\<open>requests.get(url, headers=self.headers).json()\<close>\<close>

definition requests_get_json :: "world \<Rightarrow> clickup_to_bigquery \<Rightarrow> string \<Rightarrow> pyval io" where
  "requests_get_json W self url tr =
     (let r = http W tr url (headers self) in (r, tr @ [Http_get url (headers self) r]))"

definition custom_fields_url :: "world \<Rightarrow> clickup_to_bigquery \<Rightarrow> pyval \<Rightarrow> string" where
  "custom_fields_url W self wid =
     base_url self @ ''/workspace/'' @ py_str (str_other W) wid @ ''/custom_fields''"

definition custom_task_types_url :: "world \<Rightarrow> clickup_to_bigquery \<Rightarrow> pyval \<Rightarrow> string" where
  "custom_task_types_url W self wid =
     base_url self @ ''/workspace/'' @ py_str (str_other W) wid @ ''/custom_task_types''"

definition fetch_custom_fields :: "world \<Rightarrow> clickup_to_bigquery \<Rightarrow> pyval \<Rightarrow> pyval io" where
  "fetch_custom_fields W self wid =
     io_bind (requests_get_json W self (custom_fields_url W self wid))
       (\<lambda>body. io_lift (py_get body ''custom_fields'' (PList [])))"

definition fetch_custom_task_types :: "world \<Rightarrow> clickup_to_bigquery \<Rightarrow> pyval \<Rightarrow> pyval io" where
  "fetch_custom_task_types W self wid =
     io_bind (requests_get_json W self (custom_task_types_url W self wid))
       (\<lambda>body. io_lift (py_get body ''custom_task_types'' (PList [])))"

subsection \<open>fetch_tasks\<close>

text \<open>
  Lines 57-58, the loop over one task's custom fields. The right-hand side
  \<^verbatim>\<open>field.get('value')\<close> is evaluated before the key \<^verbatim>\<open>f"custom_field_{field['id']}"\<close>.
\<close>

fun flatten_fields :: "world \<Rightarrow> pyval list \<Rightarrow> pyval \<Rightarrow> exn + pyval" where
  "flatten_fields W [] task = Inr task"
| "flatten_fields W (field # rest) task =
     ebind (py_get field ''value'' PNone) (\<lambda>v.
     ebind (py_getitem field ''id'') (\<lambda>fid.
     ebind (py_setitem task (''custom_field_'' @ py_str (str_other W) fid) v) (\<lambda>task'.
     flatten_fields W rest task')))"

text \<open>Lines 55-62, the body of the loop over the tasks of a list.\<close>

definition flatten_task :: "world \<Rightarrow> pyval \<Rightarrow> pyval \<Rightarrow> pyval \<Rightarrow> exn + pyval" where
  "flatten_task W space list_obj task =
     ebind (py_get task ''custom_fields'' (PList [])) (\<lambda>custom_fields.
     ebind (py_iter custom_fields) (\<lambda>fields.
     ebind (flatten_fields W fields task) (\<lambda>task1.
     ebind (py_getitem space ''id'') (\<lambda>sid.
     ebind (py_setitem task1 ''space_id'' sid) (\<lambda>task2.
     ebind (py_getitem list_obj ''id'') (\<lambda>lid.
     py_setitem task2 ''list_id'' lid))))))"

text \<open>Lines 54-64: \<open>tasks\<close> is the list being extended.\<close>

fun tasks_loop :: "world \<Rightarrow> pyval \<Rightarrow> pyval \<Rightarrow> pyval list \<Rightarrow> pyval list \<Rightarrow> exn + pyval list" where
  "tasks_loop W space list_obj [] tasks = Inr tasks"
| "tasks_loop W space list_obj (task # rest) tasks =
     ebind (flatten_task W space list_obj task) (\<lambda>task'.
     tasks_loop W space list_obj rest (tasks @ [task']))"

definition tasks_url :: "world \<Rightarrow> clickup_to_bigquery \<Rightarrow> pyval \<Rightarrow> string" where
  "tasks_url W self lid = base_url self @ ''/list/'' @ py_str (str_other W) lid @ ''/task''"

definition lists_url :: "world \<Rightarrow> clickup_to_bigquery \<Rightarrow> pyval \<Rightarrow> string" where
  "lists_url W self sid = base_url self @ ''/space/'' @ py_str (str_other W) sid @ ''/list''"

definition spaces_url :: "world \<Rightarrow> clickup_to_bigquery \<Rightarrow> pyval \<Rightarrow> string" where
  "spaces_url W self wid = base_url self @ ''/team/'' @ py_str (str_other W) wid @ ''/space''"

text \<open>Lines 48-64, the loop over the lists of a space.\<close>

fun lists_loop ::
  "world \<Rightarrow> clickup_to_bigquery \<Rightarrow> pyval \<Rightarrow> pyval list \<Rightarrow> pyval list \<Rightarrow> pyval list io" where
  "lists_loop W self space [] tasks = io_return tasks"
| "lists_loop W self space (list_obj # rest) tasks =
     io_bind (io_lift (py_getitem list_obj ''id'')) (\<lambda>lid.
     io_bind (requests_get_json W self (tasks_url W self lid)) (\<lambda>body.
     io_bind (io_lift (py_get body ''tasks'' (PList []))) (\<lambda>list_tasks.
     io_bind (io_lift (py_iter list_tasks)) (\<lambda>ts.
     io_bind (io_lift (tasks_loop W space list_obj ts tasks)) (\<lambda>tasks'.
     lists_loop W self space rest tasks')))))"

text \<open>Lines 43-64, the loop over the spaces.\<close>

fun spaces_loop ::
  "world \<Rightarrow> clickup_to_bigquery \<Rightarrow> pyval list \<Rightarrow> pyval list \<Rightarrow> pyval list io" where
  "spaces_loop W self [] tasks = io_return tasks"
| "spaces_loop W self (space # rest) tasks =
     io_bind (io_lift (py_getitem space ''id'')) (\<lambda>sid.
     io_bind (requests_get_json W self (lists_url W self sid)) (\<lambda>body.
     io_bind (io_lift (py_get body ''lists'' (PList []))) (\<lambda>lists.
     io_bind (io_lift (py_iter lists)) (\<lambda>ls.
     io_bind (lists_loop W self space ls tasks) (\<lambda>tasks'.
     spaces_loop W self rest tasks')))))"

definition fetch_tasks :: "world \<Rightarrow> clickup_to_bigquery \<Rightarrow> pyval \<Rightarrow> pyval list io" where
  "fetch_tasks W self wid =
     io_bind (requests_get_json W self (spaces_url W self wid)) (\<lambda>body.
     io_bind (io_lift (py_get body ''spaces'' (PList []))) (\<lambda>spaces.
     io_bind (io_lift (py_iter spaces)) (\<lambda>ss.
     spaces_loop W self ss [])))"

subsection \<open>create_tables_if_not_exist\<close>

definition SchemaField :: "string \<Rightarrow> string \<Rightarrow> schema_field" where
  "SchemaField n t = \<lparr> field_name = n, field_type = t \<rparr>"

definition base_schema :: "schema_field list" where
  "base_schema =
     [SchemaField ''id'' ''STRING'',
      SchemaField ''name'' ''STRING'',
      SchemaField ''description'' ''STRING'',
      SchemaField ''status'' ''STRING'',
      SchemaField ''priority'' ''INTEGER'',
      SchemaField ''due_date'' ''TIMESTAMP'',
      SchemaField ''space_id'' ''STRING'',
      SchemaField ''list_id'' ''STRING'',
      SchemaField ''created_at'' ''TIMESTAMP'',
      SchemaField ''updated_at'' ''TIMESTAMP'']"

text \<open>Lines 87-96, the loop over the custom-field definitions.\<close>

fun schema_loop :: "world \<Rightarrow> pyval list \<Rightarrow> schema_field list \<Rightarrow> exn + schema_field list" where
  "schema_loop W [] tasks_schema = Inr tasks_schema"
| "schema_loop W (field # rest) tasks_schema =
     ebind (py_getitem field ''type'') (\<lambda>ty.
     ebind (py_getitem field ''id'') (\<lambda>fid.
     schema_loop W rest
       (tasks_schema @
          [SchemaField (''custom_field_'' @ py_str (str_other W) fid)
             (if ty = PStr ''number'' then ''FLOAT''
              else if ty = PStr ''date'' then ''TIMESTAMP''
              else ''STRING'')])))"

definition tasks_table_ref :: table_ref where
  "tasks_table_ref = \<lparr> dataset_id = ''clickup_data'', table_id = ''tasks'' \<rparr>"

definition create_tables_if_not_exist :: "world \<Rightarrow> clickup_to_bigquery \<Rightarrow> unit io" where
  "create_tables_if_not_exist W self =
     io_bind (fetch_custom_fields W self (workspace_id self)) (\<lambda>custom_fields.
     io_bind (io_lift (py_iter custom_fields)) (\<lambda>fields.
     io_bind (io_lift (schema_loop W fields base_schema)) (\<lambda>tasks_schema.
     (let t = \<lparr> table_reference = tasks_table_ref, table_schema = tasks_schema \<rparr>
      in io_call (\<lambda>tr. create_table W tr t True) (Create_table t True)))))"

subsection \<open>sync_data\<close>

text \<open>Lines 116-133, the load of a non-empty task list.\<close>

definition load_tasks :: "world \<Rightarrow> pyval list \<Rightarrow> unit io" where
  "load_tasks W tasks =
     (let job_config = \<lparr> write_disposition = Some WRITE_TRUNCATE \<rparr> in
      io_bind (io_call (\<lambda>tr. load_table_from_json W tr tasks tasks_table_ref job_config)
                 (Load_table_from_json tasks tasks_table_ref job_config)) (\<lambda>_.
      io_bind (io_call (job_result W) Job_result) (\<lambda>_.
      logger_info (''Loaded '' @ decimal (length tasks) @ '' tasks to BigQuery''))))"

text \<open>Lines 108-135, the body of the \<^verbatim>\<open>try\<close>.\<close>

definition sync_body :: "world \<Rightarrow> clickup_to_bigquery \<Rightarrow> unit io" where
  "sync_body W self =
     io_bind (logger_info ''Starting ClickUp to BigQuery sync'') (\<lambda>_.
     io_bind (create_tables_if_not_exist W self) (\<lambda>_.
     io_bind (fetch_tasks W self (workspace_id self)) (\<lambda>tasks.
     io_bind (if tasks \<noteq> [] then load_tasks W tasks else io_return ()) (\<lambda>_.
     logger_info ''Sync completed successfully''))))"

text \<open>Lines 137-139: the handler logs the exception's text and raises it again.\<close>

definition sync_data :: "world \<Rightarrow> clickup_to_bigquery \<Rightarrow> unit io" where
  "sync_data W self tr =
     (case sync_body W self tr of
        (Inr u, tr') \<Rightarrow> (Inr u, tr')
      | (Inl e, tr') \<Rightarrow> (Inl e, tr' @ [Log ERROR (''Error during sync: '' @ exn_str e)]))"

section \<open>Fixtures: scripted worlds for concrete runs\<close>

text \<open>
  A scripted world answers the n-th HTTP request of a run with the n-th entry of a list and
  fails the request once the list is used up; the warehouse accepts every call.
\<close>

definition http_calls :: "event list \<Rightarrow> nat" where
  "http_calls tr = length (filter (\<lambda>ev. case ev of Http_get u h r \<Rightarrow> True | _ \<Rightarrow> False) tr)"

definition scripted_world :: "(exn + pyval) list \<Rightarrow> world" where
  "scripted_world answers =
     \<lparr> str_other = (\<lambda>v. ''?''),
       http = (\<lambda>tr url hdrs. case drop (http_calls tr) answers of
                                  [] \<Rightarrow> Inl (LibraryError ''connection refused'')
                                | r # rest \<Rightarrow> r),
       create_table = (\<lambda>tr t exists_ok. None),
       load_table_from_json = (\<lambda>tr rows t cfg. None),
       job_result = (\<lambda>tr. None) \<rparr>"

definition demo_self :: clickup_to_bigquery where
  "demo_self = init [''CLICKUP_API_TOKEN'' \<mapsto> ''pk_1'', ''CLICKUP_WORKSPACE_ID'' \<mapsto> ''9001'']"

definition demo_definitions :: "pyval list" where
  "demo_definitions =
     [PDict [(''id'', PStr ''F1''), (''type'', PStr ''number'')],
      PDict [(''id'', PStr ''F2''), (''type'', PStr ''date'')],
      PDict [(''id'', PStr ''F3''), (''type'', PStr ''drop_down'')],
      PDict [(''id'', PStr ''F4''), (''type'', PNone)]]"

definition demo_definitions_body :: pyval where
  "demo_definitions_body = PDict [(''custom_fields'', PList demo_definitions)]"

definition kindless_body :: pyval where
  "kindless_body = PDict [(''custom_fields'', PList [PDict [(''id'', PStr ''F1'')]])]"

text \<open>
  The extractor's scenario: one space \<^verbatim>\<open>S1\<close>, one list \<^verbatim>\<open>L1\<close>, a task \<^verbatim>\<open>T1\<close> without custom
  fields and a task \<^verbatim>\<open>T2\<close> with the field \<^verbatim>\<open>F1\<close> of value 4.5 (binary64
  \<^verbatim>\<open>0x4012000000000000\<close>) and a stale \<^verbatim>\<open>space_id\<close> of its own.
\<close>

definition demo_spaces_body :: pyval where
  "demo_spaces_body = PDict [(''spaces'', PList [PDict [(''id'', PStr ''S1''), (''name'', PStr ''Space'')]])]"

definition demo_lists_body :: pyval where
  "demo_lists_body = PDict [(''lists'', PList [PDict [(''id'', PStr ''L1'')]])]"

definition demo_task1 :: pyval where
  "demo_task1 = PDict [(''id'', PStr ''T1''), (''name'', PStr ''first'')]"

definition demo_task2 :: pyval where
  "demo_task2 =
     PDict [(''id'', PStr ''T2''), (''space_id'', PStr ''stale''),
            (''custom_fields'', PList [PDict [(''id'', PStr ''F1''), (''value'', PFloat 0x4012000000000000)]])]"

definition demo_tasks_body :: pyval where
  "demo_tasks_body = PDict [(''tasks'', PList [demo_task1, demo_task2])]"

definition demo_flat1 :: pyval where
  "demo_flat1 =
     PDict [(''id'', PStr ''T1''), (''name'', PStr ''first''),
            (''space_id'', PStr ''S1''), (''list_id'', PStr ''L1'')]"

definition demo_flat2 :: pyval where
  "demo_flat2 =
     PDict [(''id'', PStr ''T2''), (''space_id'', PStr ''S1''),
            (''custom_fields'', PList [PDict [(''id'', PStr ''F1''), (''value'', PFloat 0x4012000000000000)]]),
            (''custom_field_F1'', PFloat 0x4012000000000000), (''list_id'', PStr ''L1'')]"

definition demo_extract_world :: world where
  "demo_extract_world = scripted_world [Inr demo_spaces_body, Inr demo_lists_body, Inr demo_tasks_body]"

definition demo_headers :: "(string \<times> pyval) list" where
  "demo_headers = [(''Authorization'', PStr ''pk_1''), (''Content-Type'', PStr ''application/json'')]"

definition demo_extract_trace :: "event list" where
  "demo_extract_trace =
     [Http_get ''https://api.clickup.com/api/v2/team/9001/space'' demo_headers (Inr demo_spaces_body),
      Http_get ''https://api.clickup.com/api/v2/space/S1/list'' demo_headers (Inr demo_lists_body),
      Http_get ''https://api.clickup.com/api/v2/list/L1/task'' demo_headers (Inr demo_tasks_body)]"

text \<open>A task whose custom-fields collection has two entries with the same id.\<close>

definition dup_entry1 :: pyval where
  "dup_entry1 = PDict [(''id'', PStr ''F1''), (''value'', PInt 1)]"

definition dup_entry2 :: pyval where
  "dup_entry2 = PDict [(''id'', PStr ''F1''), (''value'', PInt 2)]"

definition dup_task :: pyval where
  "dup_task = PDict [(''id'', PStr ''T3''), (''custom_fields'', PList [dup_entry1, dup_entry2])]"

definition dup_flat :: pyval where
  "dup_flat =
     PDict [(''id'', PStr ''T3''), (''custom_fields'', PList [dup_entry1, dup_entry2]),
            (''custom_field_F1'', PInt 2), (''space_id'', PStr ''S1''), (''list_id'', PStr ''L1'')]"

definition dup_world :: world where
  "dup_world =
     scripted_world [Inr demo_spaces_body, Inr demo_lists_body, Inr (PDict [(''tasks'', PList [dup_task])])]"

text \<open>
  Whole runs: the schema builder is answered with four definitions, then the extractor
  with the scenario above, or with a workspace without spaces.
\<close>

definition demo_schema :: "schema_field list" where
  "demo_schema =
     base_schema @
     [SchemaField ''custom_field_F1'' ''FLOAT'', SchemaField ''custom_field_F2'' ''TIMESTAMP'',
      SchemaField ''custom_field_F3'' ''STRING'', SchemaField ''custom_field_F4'' ''STRING'']"

definition demo_schema_trace :: "event list" where
  "demo_schema_trace =
     [Log INFO ''Starting ClickUp to BigQuery sync'',
      Http_get ''https://api.clickup.com/api/v2/workspace/9001/custom_fields'' demo_headers
        (Inr demo_definitions_body),
      Create_table \<lparr> table_reference = tasks_table_ref, table_schema = demo_schema \<rparr> True None]"

definition demo_sync_world :: world where
  "demo_sync_world =
     scripted_world [Inr demo_definitions_body, Inr demo_spaces_body, Inr demo_lists_body,
                     Inr demo_tasks_body]"

definition no_spaces_body :: pyval where
  "no_spaces_body = PDict [(''spaces'', PList [])]"

definition empty_sync_world :: world where
  "empty_sync_world = scripted_world [Inr demo_definitions_body, Inr no_spaces_body]"

text \<open>A source that answers every request with the empty JSON object.\<close>

definition keyless_world :: world where
  "keyless_world = scripted_world [Inr (PDict [])]"

text \<open>
  Runs that fail: the tasks request times out; the lists response is a JSON array instead
  of an object; a custom-field definition has no kind; the warehouse rejects the load.
\<close>

definition timeout_world :: world where
  "timeout_world =
     scripted_world [Inr demo_definitions_body, Inr demo_spaces_body, Inr demo_lists_body,
                     Inl (LibraryError ''Read timed out'')]"

definition timeout_trace :: "event list" where
  "timeout_trace =
     demo_schema_trace @
     [Http_get ''https://api.clickup.com/api/v2/team/9001/space'' demo_headers (Inr demo_spaces_body),
      Http_get ''https://api.clickup.com/api/v2/space/S1/list'' demo_headers (Inr demo_lists_body),
      Http_get ''https://api.clickup.com/api/v2/list/L1/task'' demo_headers
        (Inl (LibraryError ''Read timed out'')),
      Log ERROR ''Error during sync: Read timed out'']"

definition malformed_lists_world :: world where
  "malformed_lists_world =
     scripted_world [Inr demo_definitions_body, Inr demo_spaces_body, Inr (PList [])]"

definition malformed_lists_trace :: "event list" where
  "malformed_lists_trace =
     demo_schema_trace @
     [Http_get ''https://api.clickup.com/api/v2/team/9001/space'' demo_headers (Inr demo_spaces_body),
      Http_get ''https://api.clickup.com/api/v2/space/S1/list'' demo_headers (Inr (PList []))]"

definition kindless_world :: world where
  "kindless_world = scripted_world [Inr kindless_body]"

definition rejecting_world :: world where
  "rejecting_world =
     demo_sync_world \<lparr> load_table_from_json :=
       (\<lambda>tr rows t cfg. Some (LibraryError ''schema mismatch'')) \<rparr>"

definition kindless_trace :: "event list" where
  "kindless_trace =
     [Log INFO ''Starting ClickUp to BigQuery sync'',
      Http_get ''https://api.clickup.com/api/v2/workspace/9001/custom_fields'' demo_headers
        (Inr kindless_body)]"

definition rejected_load_trace :: "event list" where
  "rejected_load_trace =
     (demo_schema_trace @ demo_extract_trace) @
     [Load_table_from_json [demo_flat1, demo_flat2] tasks_table_ref
        \<lparr> write_disposition = Some WRITE_TRUNCATE \<rparr> (Some (LibraryError ''schema mismatch''))]"

text \<open>
  A run where parsing fails inside the loops: the second task of the list has a
  custom-field entry without \<^verbatim>\<open>id\<close>.
\<close>

definition idless_entry :: pyval where
  "idless_entry = PDict [(''value'', PInt 7)]"

definition idless_task :: pyval where
  "idless_task = PDict [(''id'', PStr ''T4''), (''custom_fields'', PList [idless_entry])]"

definition idless_tasks_body :: pyval where
  "idless_tasks_body = PDict [(''tasks'', PList [demo_task1, idless_task])]"

definition idless_world :: world where
  "idless_world =
     scripted_world [Inr demo_definitions_body, Inr demo_spaces_body, Inr demo_lists_body,
                     Inr idless_tasks_body]"

definition idless_trace :: "event list" where
  "idless_trace =
     demo_schema_trace @
     [Http_get ''https://api.clickup.com/api/v2/team/9001/space'' demo_headers (Inr demo_spaces_body),
      Http_get ''https://api.clickup.com/api/v2/space/S1/list'' demo_headers (Inr demo_lists_body),
      Http_get ''https://api.clickup.com/api/v2/list/L1/task'' demo_headers (Inr idless_tasks_body)]"

section \<open>Specification vocabulary\<close>

text \<open>The column the schema builder derives from one custom-field definition.\<close>

definition column_of :: "world \<Rightarrow> pyval \<Rightarrow> schema_field \<Rightarrow> bool" where
  "column_of W field col \<longleftrightarrow>
     (\<exists>ty fid. py_getitem field ''type'' = Inr ty \<and> py_getitem field ''id'' = Inr fid \<and>
        col = SchemaField (''custom_field_'' @ py_str (str_other W) fid)
                (if ty = PStr ''number'' then ''FLOAT''
                 else if ty = PStr ''date'' then ''TIMESTAMP'' else ''STRING''))"

text \<open>
  The key and the value line 58 writes for one entry of a custom-fields collection, and
  the record after a list of such writes.
\<close>

definition custom_field_entry :: "world \<Rightarrow> pyval \<Rightarrow> string \<times> pyval \<Rightarrow> bool" where
  "custom_field_entry W f kv \<longleftrightarrow>
     py_get f ''value'' PNone = Inr (snd kv) \<and>
     (\<exists>fid. py_getitem f ''id'' = Inr fid \<and> fst kv = ''custom_field_'' @ py_str (str_other W) fid)"

fun dict_set_all :: "(string \<times> pyval) list \<Rightarrow> (string \<times> pyval) list \<Rightarrow> (string \<times> pyval) list" where
  "dict_set_all d [] = d"
| "dict_set_all d (kv # kvs) = dict_set_all (dict_set d (fst kv) (snd kv)) kvs"

text \<open>
  Where a task comes from, read off the recorded responses: a task of the tasks response
  of a list, a list of the lists response of a space, a space of the spaces response.
\<close>

definition task_of_list :: "world \<Rightarrow> clickup_to_bigquery \<Rightarrow> event list \<Rightarrow> pyval \<Rightarrow> pyval \<Rightarrow> bool" where
  "task_of_list W self tr list_obj task \<longleftrightarrow>
     (\<exists>lid body list_tasks ts.
        py_getitem list_obj ''id'' = Inr lid \<and>
        Http_get (tasks_url W self lid) (headers self) (Inr body) \<in> set tr \<and>
        py_get body ''tasks'' (PList []) = Inr list_tasks \<and> py_iter list_tasks = Inr ts \<and>
        task \<in> set ts)"

definition list_of_space :: "world \<Rightarrow> clickup_to_bigquery \<Rightarrow> event list \<Rightarrow> pyval \<Rightarrow> pyval \<Rightarrow> bool" where
  "list_of_space W self tr space list_obj \<longleftrightarrow>
     (\<exists>sid body lists ls.
        py_getitem space ''id'' = Inr sid \<and>
        Http_get (lists_url W self sid) (headers self) (Inr body) \<in> set tr \<and>
        py_get body ''lists'' (PList []) = Inr lists \<and> py_iter lists = Inr ls \<and>
        list_obj \<in> set ls)"

definition space_of_workspace :: "world \<Rightarrow> clickup_to_bigquery \<Rightarrow> event list \<Rightarrow> pyval \<Rightarrow> pyval \<Rightarrow> bool" where
  "space_of_workspace W self tr wid space \<longleftrightarrow>
     (\<exists>body spaces ss.
        Http_get (spaces_url W self wid) (headers self) (Inr body) \<in> set tr \<and>
        py_get body ''spaces'' (PList []) = Inr spaces \<and> py_iter spaces = Inr ss \<and>
        space \<in> set ss)"

text \<open>The key and the raw value of an entry, when it has them.\<close>

definition field_key :: "world \<Rightarrow> pyval \<Rightarrow> string option" where
  "field_key W f =
     (case py_getitem f ''id'' of
        Inl e \<Rightarrow> None
      | Inr fid \<Rightarrow> Some (''custom_field_'' @ py_str (str_other W) fid))"

definition field_value :: "pyval \<Rightarrow> pyval option" where
  "field_value f = (case py_get f ''value'' PNone of Inl e \<Rightarrow> None | Inr v \<Rightarrow> Some v)"

text \<open>
  The exception an event records, if the call failed, and the discipline of a step: it
  only appends events, all of them of a given kind, with no failed call before the last
  event; and when the last event is a failed call, the step raises that exception.
\<close>

fun failure :: "event \<Rightarrow> exn option" where
  "failure (Log l m) = None"
| "failure (Http_get u h r) = (case r of Inl e \<Rightarrow> Some e | Inr v \<Rightarrow> None)"
| "failure (Create_table t b r) = r"
| "failure (Load_table_from_json rows t c r) = r"
| "failure (Job_result r) = r"

definition disciplined :: "(event \<Rightarrow> bool) \<Rightarrow> 'a io \<Rightarrow> bool" where
  "disciplined P m \<longleftrightarrow>
     (\<forall>tr. \<exists>trn. snd (m tr) = tr @ trn \<and> (\<forall>ev\<in>set trn. P ev) \<and>
        (\<forall>ev\<in>set (butlast trn). failure ev = None) \<and>
        (\<forall>e. trn \<noteq> [] \<and> failure (last trn) = Some e \<longrightarrow> fst (m tr) = Inl e))"

text \<open>The events of each stage, and kinds of events.\<close>

definition extractor_request :: "world \<Rightarrow> clickup_to_bigquery \<Rightarrow> pyval \<Rightarrow> event \<Rightarrow> bool" where
  "extractor_request W self wid ev \<longleftrightarrow>
     (\<exists>r. ev = Http_get (spaces_url W self wid) (headers self) r) \<or>
     (\<exists>sid r. ev = Http_get (lists_url W self sid) (headers self) r) \<or>
     (\<exists>lid r. ev = Http_get (tasks_url W self lid) (headers self) r)"

definition schema_event :: "world \<Rightarrow> clickup_to_bigquery \<Rightarrow> event \<Rightarrow> bool" where
  "schema_event W self ev \<longleftrightarrow>
     (\<exists>r. ev = Http_get (custom_fields_url W self (workspace_id self)) (headers self) r) \<or>
     (\<exists>t r. ev = Create_table t True r \<and> table_reference t = tasks_table_ref)"

definition loader_event :: "pyval list \<Rightarrow> event \<Rightarrow> bool" where
  "loader_event tasks ev \<longleftrightarrow>
     (\<exists>r. ev = Load_table_from_json tasks tasks_table_ref \<lparr> write_disposition = Some WRITE_TRUNCATE \<rparr> r) \<or>
     (\<exists>r. ev = Job_result r) \<or>
     ev = Log INFO (''Loaded '' @ decimal (length tasks) @ '' tasks to BigQuery'')"

fun is_load :: "event \<Rightarrow> bool" where
  "is_load (Load_table_from_json rows t c r) = True"
| "is_load (Job_result r) = True"
| "is_load ev = False"

definition sync_event :: "world \<Rightarrow> clickup_to_bigquery \<Rightarrow> event \<Rightarrow> bool" where
  "sync_event W self ev \<longleftrightarrow>
     ev = Log INFO ''Starting ClickUp to BigQuery sync'' \<or>
     schema_event W self ev \<or>
     extractor_request W self (workspace_id self) ev \<or>
     (\<exists>tasks. tasks \<noteq> [] \<and> loader_event tasks ev) \<or>
     ev = Log INFO ''Sync completed successfully''"

fun is_warehouse_call :: "event \<Rightarrow> bool" where
  "is_warehouse_call (Create_table t b r) = True"
| "is_warehouse_call (Load_table_from_json rows t c r) = True"
| "is_warehouse_call (Job_result r) = True"
| "is_warehouse_call ev = False"

fun is_log :: "event \<Rightarrow> bool" where
  "is_log (Log l m) = True"
| "is_log ev = False"

text \<open>
  Where a run can raise. A collection is read out of a response, or the custom fields out
  of a task, by \<^verbatim>\<open>.get(key, [])\<close> and then iterated by the \<^verbatim>\<open>for\<close> loop.
\<close>

definition read_collection :: "pyval \<Rightarrow> string \<Rightarrow> exn + pyval list" where
  "read_collection body key = ebind (py_get body key (PList [])) py_iter"

text \<open>
  Line 58 raises for an entry when \<^verbatim>\<open>field.get('value')\<close> raises or, after it,
  \<^verbatim>\<open>field['id']\<close> raises.
\<close>

definition entry_raises :: "pyval \<Rightarrow> exn \<Rightarrow> bool" where
  "entry_raises f e \<longleftrightarrow>
     py_get f ''value'' PNone = Inl e \<or>
     ((\<exists>v. py_get f ''value'' PNone = Inr v) \<and> py_getitem f ''id'' = Inl e)"

text \<open>
  Lines 56-58 raise for a task when its custom fields cannot be read or iterated, or when
  line 58 raises for an entry after the entries before it went through.
\<close>

definition task_raises :: "world \<Rightarrow> pyval \<Rightarrow> exn \<Rightarrow> bool" where
  "task_raises W task e \<longleftrightarrow>
     read_collection task ''custom_fields'' = Inl e \<or>
     (\<exists>pre f post task1.
        read_collection task ''custom_fields'' = Inr (pre @ f # post) \<and>
        flatten_fields W pre task = Inr task1 \<and> entry_raises f e)"

text \<open>
  Lines 50-58 raise for a list, reached with the tasks collected so far and the events so
  far: \<^verbatim>\<open>list_obj['id']\<close> raises, or the tasks request raises, or its response cannot be
  read as a collection, or lines 56-58 raise for a task after the tasks before it went
  through. The events are those up to the request of the list.
\<close>

definition list_raises ::
  "world \<Rightarrow> clickup_to_bigquery \<Rightarrow> pyval \<Rightarrow> pyval \<Rightarrow> pyval list \<Rightarrow> event list \<Rightarrow> exn \<Rightarrow> event list \<Rightarrow> bool" where
  "list_raises W self space list_obj tasks tr e tr' \<longleftrightarrow>
     (py_getitem list_obj ''id'' = Inl e \<and> tr' = tr) \<or>
     (\<exists>lid r. py_getitem list_obj ''id'' = Inr lid \<and>
        http W tr (tasks_url W self lid) (headers self) = r \<and>
        tr' = tr @ [Http_get (tasks_url W self lid) (headers self) r] \<and>
        (r = Inl e \<or>
         (\<exists>body. r = Inr body \<and>
            (read_collection body ''tasks'' = Inl e \<or>
             (\<exists>pre task post tasks1.
                read_collection body ''tasks'' = Inr (pre @ task # post) \<and>
                tasks_loop W space list_obj pre tasks = Inr tasks1 \<and> task_raises W task e)))))"

text \<open>
  Lines 45-58 raise for a space: \<^verbatim>\<open>space['id']\<close> raises, or the lists request raises, or
  its response cannot be read as a collection, or lines 50-58 raise for a list after the
  lists before it went through.
\<close>

definition space_raises ::
  "world \<Rightarrow> clickup_to_bigquery \<Rightarrow> pyval \<Rightarrow> pyval list \<Rightarrow> event list \<Rightarrow> exn \<Rightarrow> event list \<Rightarrow> bool" where
  "space_raises W self space tasks tr e tr' \<longleftrightarrow>
     (py_getitem space ''id'' = Inl e \<and> tr' = tr) \<or>
     (\<exists>sid r tr0. py_getitem space ''id'' = Inr sid \<and>
        http W tr (lists_url W self sid) (headers self) = r \<and>
        tr0 = tr @ [Http_get (lists_url W self sid) (headers self) r] \<and>
        ((r = Inl e \<and> tr' = tr0) \<or>
         (\<exists>body. r = Inr body \<and>
            ((read_collection body ''lists'' = Inl e \<and> tr' = tr0) \<or>
             (\<exists>pre list_obj post tasks1 tr1.
                read_collection body ''lists'' = Inr (pre @ list_obj # post) \<and>
                lists_loop W self space pre tasks tr0 = (Inr tasks1, tr1) \<and>
                list_raises W self space list_obj tasks1 tr1 e tr')))))"

text \<open>
  The extractor raises: the spaces request raises, or its response cannot be read as a
  collection, or lines 45-58 raise for a space after the spaces before it went through.
\<close>

definition extraction_raises ::
  "world \<Rightarrow> clickup_to_bigquery \<Rightarrow> pyval \<Rightarrow> event list \<Rightarrow> exn \<Rightarrow> event list \<Rightarrow> bool" where
  "extraction_raises W self wid tr e tr' \<longleftrightarrow>
     (\<exists>r tr0.
        http W tr (spaces_url W self wid) (headers self) = r \<and>
        tr0 = tr @ [Http_get (spaces_url W self wid) (headers self) r] \<and>
        ((r = Inl e \<and> tr' = tr0) \<or>
         (\<exists>body. r = Inr body \<and>
            ((read_collection body ''spaces'' = Inl e \<and> tr' = tr0) \<or>
             (\<exists>pre space post tasks1 tr1.
                read_collection body ''spaces'' = Inr (pre @ space # post) \<and>
                spaces_loop W self pre [] tr0 = (Inr tasks1, tr1) \<and>
                space_raises W self space tasks1 tr1 e tr')))))"

text \<open>
  Lines 89-95 raise for a custom-field definition when \<^verbatim>\<open>field['type']\<close> raises or, after
  it, \<^verbatim>\<open>field['id']\<close> raises. The schema builder raises: the custom-fields request raises,
  or its response cannot be read as a collection, or lines 89-95 raise for a definition
  after the definitions before it went through, or the table creation raises.
\<close>

definition definition_raises :: "pyval \<Rightarrow> exn \<Rightarrow> bool" where
  "definition_raises f e \<longleftrightarrow>
     py_getitem f ''type'' = Inl e \<or>
     ((\<exists>ty. py_getitem f ''type'' = Inr ty) \<and> py_getitem f ''id'' = Inl e)"

definition schema_raises ::
  "world \<Rightarrow> clickup_to_bigquery \<Rightarrow> event list \<Rightarrow> exn \<Rightarrow> event list \<Rightarrow> bool" where
  "schema_raises W self tr e tr' \<longleftrightarrow>
     (\<exists>r tr0.
        http W tr (custom_fields_url W self (workspace_id self)) (headers self) = r \<and>
        tr0 = tr @ [Http_get (custom_fields_url W self (workspace_id self)) (headers self) r] \<and>
        ((r = Inl e \<and> tr' = tr0) \<or>
         (\<exists>body. r = Inr body \<and>
            ((read_collection body ''custom_fields'' = Inl e \<and> tr' = tr0) \<or>
             (\<exists>pre f post sch.
                read_collection body ''custom_fields'' = Inr (pre @ f # post) \<and>
                schema_loop W pre base_schema = Inr sch \<and> definition_raises f e \<and> tr' = tr0) \<or>
             (\<exists>fs sch.
                read_collection body ''custom_fields'' = Inr fs \<and>
                schema_loop W fs base_schema = Inr sch \<and>
                create_table W tr0 \<lparr> table_reference = tasks_table_ref, table_schema = sch \<rparr> True = Some e \<and>
                tr' = tr0 @ [Create_table \<lparr> table_reference = tasks_table_ref, table_schema = sch \<rparr>
                               True (Some e)])))))"

text \<open>The load raises: the load call raises, or after it the wait for the job raises.\<close>

definition load_raises :: "world \<Rightarrow> pyval list \<Rightarrow> event list \<Rightarrow> exn \<Rightarrow> event list \<Rightarrow> bool" where
  "load_raises W tasks tr e tr' \<longleftrightarrow>
     (\<exists>r tr0.
        load_table_from_json W tr tasks tasks_table_ref \<lparr> write_disposition = Some WRITE_TRUNCATE \<rparr> = r \<and>
        tr0 = tr @ [Load_table_from_json tasks tasks_table_ref
                      \<lparr> write_disposition = Some WRITE_TRUNCATE \<rparr> r] \<and>
        ((r = Some e \<and> tr' = tr0) \<or>
         (r = None \<and> job_result W tr0 = Some e \<and> tr' = tr0 @ [Job_result (Some e)])))"

section \<open>Basic facts about sequencing\<close>

lemma ebind_simps [simp]:
  "ebind (Inl e) f = Inl e"
  "ebind (Inr x) f = f x"
  by (simp_all add: ebind_def)

lemma ebind_eq_Inr: "ebind r f = Inr y \<longleftrightarrow> (\<exists>x. r = Inr x \<and> f x = Inr y)"
  by (cases r) simp_all

lemma io_bind_Inr: "m tr = (Inr x, tr') \<Longrightarrow> io_bind m f tr = f x tr'"
  by (simp add: io_bind_def)

lemma io_bind_Inl: "m tr = (Inl e, tr') \<Longrightarrow> io_bind m f tr = (Inl e, tr')"
  by (simp add: io_bind_def)

lemma io_lift_bind [simp]:
  "io_bind (io_lift (Inr x)) f tr = f x tr"
  "io_bind (io_lift (Inl e)) f tr = (Inl e, tr)"
  by (simp_all add: io_bind_def io_lift_def)

lemma http_calls_Nil [simp]: "http_calls [] = 0"
  by (simp add: http_calls_def)

lemma scripted_http_first [simp]: "http (scripted_world (r # rs)) [] url hdrs = r"
  by (simp add: scripted_world_def)

lemma io_bind_eq_Inr:
  "io_bind m f tr = (Inr y, tr'') \<longleftrightarrow> (\<exists>x tr'. m tr = (Inr x, tr') \<and> f x tr' = (Inr y, tr''))"
  by (auto simp: io_bind_def split: prod.splits sum.splits)

lemma io_lift_eq: "io_lift r tr = (r', tr') \<longleftrightarrow> r = r' \<and> tr' = tr"
  by (auto simp: io_lift_def)

lemma io_return_eq: "io_return x tr = (r', tr') \<longleftrightarrow> r' = Inr x \<and> tr' = tr"
  by (auto simp: io_return_def)

lemma requests_get_json_eq_Inr:
  "requests_get_json W self url tr = (Inr body, tr') \<longleftrightarrow>
     http W tr url (headers self) = Inr body \<and> tr' = tr @ [Http_get url (headers self) (Inr body)]"
  by (auto simp: requests_get_json_def Let_def)

lemma demo_self_simps [simp]:
  "headers demo_self = demo_headers"
  "base_url demo_self = ''https://api.clickup.com/api/v2''"
  "workspace_id demo_self = PStr ''9001''"
  by (simp_all add: demo_self_def init_def environ_get_def demo_headers_def)

lemma scripted_world_simps [simp]:
  "str_other (scripted_world answers) = (\<lambda>v. ''?'')"
  "http (scripted_world answers) tr url hdrs =
     (case drop (http_calls tr) answers of [] \<Rightarrow> Inl (LibraryError ''connection refused'') | r # rest \<Rightarrow> r)"
  "create_table (scripted_world answers) tr t ok = None"
  "load_table_from_json (scripted_world answers) tr rows tref cfg = None"
  "job_result (scripted_world answers) tr = None"
  by (simp_all add: scripted_world_def)

lemma http_calls_simps [simp]:
  "http_calls (tr @ [Http_get u h r]) = Suc (http_calls tr)"
  "http_calls (Http_get u h r # tr) = Suc (http_calls tr)"
  "http_calls (Log l m # tr) = http_calls tr"
  "http_calls (tr @ [Log l m]) = http_calls tr"
  "http_calls (Create_table t b o1 # tr) = http_calls tr"
  "http_calls (tr @ [Create_table t b o1]) = http_calls tr"
  by (simp_all add: http_calls_def)

section \<open>The schema builder\<close>

lemma schema_loop_Inr:
  "schema_loop W fs acc = Inr out \<Longrightarrow> \<exists>cols. out = acc @ cols \<and> list_all2 (column_of W) fs cols"
proof (induction fs arbitrary: acc out)
  case Nil
  then show ?case by simp
next
  case (Cons f fs)
  from Cons.prems obtain ty fid where
    ty: "py_getitem f ''type'' = Inr ty" and fid: "py_getitem f ''id'' = Inr fid" and
    rest: "schema_loop W fs (acc @ [SchemaField (''custom_field_'' @ py_str (str_other W) fid)
                (if ty = PStr ''number'' then ''FLOAT''
                 else if ty = PStr ''date'' then ''TIMESTAMP'' else ''STRING'')]) = Inr out"
    by (auto simp: ebind_eq_Inr)
  define c where "c = SchemaField (''custom_field_'' @ py_str (str_other W) fid)
                (if ty = PStr ''number'' then ''FLOAT''
                 else if ty = PStr ''date'' then ''TIMESTAMP'' else ''STRING'')"
  have col: "column_of W f c"
    unfolding column_of_def c_def using ty fid by blast
  from Cons.IH[OF rest] obtain cols where
    out: "out = (acc @ [c]) @ cols" and all: "list_all2 (column_of W) fs cols"
    unfolding c_def by blast
  have "out = acc @ (c # cols)" using out by simp
  moreover have "list_all2 (column_of W) (f # fs) (c # cols)" using col all by simp
  ultimately show ?case by blast
qed

lemma schema_loop_total:
  "\<forall>f\<in>set fs. \<exists>ty fid. py_getitem f ''type'' = Inr ty \<and> py_getitem f ''id'' = Inr fid
   \<Longrightarrow> \<exists>out. schema_loop W fs acc = Inr out"
  by (induction fs arbitrary: acc) auto

lemma schema_loop_fails:
  "\<not> (\<forall>f\<in>set fs. \<exists>ty fid. py_getitem f ''type'' = Inr ty \<and> py_getitem f ''id'' = Inr fid)
   \<Longrightarrow> \<exists>e. schema_loop W fs acc = Inl e"
proof (induction fs arbitrary: acc)
  case Nil then show ?case by simp
next
  case (Cons f fs)
  show ?case
  proof (cases "py_getitem f ''type''")
    case (Inl e) then show ?thesis by simp
  next
    case ty: (Inr ty)
    show ?thesis
    proof (cases "py_getitem f ''id''")
      case (Inl e) then show ?thesis using ty by simp
    next
      case (Inr fid)
      with ty Cons.prems have "\<not> (\<forall>f\<in>set fs. \<exists>ty fid. py_getitem f ''type'' = Inr ty \<and> py_getitem f ''id'' = Inr fid)"
        by auto
      from Cons.IH[OF this] show ?thesis using ty Inr by simp
    qed
  qed
qed


lemma requests_get_json_eq:
  "requests_get_json W self url tr =
     (http W tr url (headers self), tr @ [Http_get url (headers self) (http W tr url (headers self))])"
  by (simp add: requests_get_json_def Let_def)

lemma io_call_eq:
  "io_call answer ev tr = ((case answer tr of None \<Rightarrow> Inr () | Some e \<Rightarrow> Inl e), tr @ [ev (answer tr)])"
  by (simp add: io_call_def Let_def)

lemma SchemaField_sel [simp]:
  "field_name (SchemaField n t) = n" "field_type (SchemaField n t) = t"
  by (simp_all add: SchemaField_def)

lemma list_all2_column_types:
  assumes "list_all2 (column_of W) fs cols" and "i < length fs"
  shows "\<exists>ty fid. py_getitem (fs ! i) ''type'' = Inr ty \<and> py_getitem (fs ! i) ''id'' = Inr fid \<and>
           field_name (cols ! i) = ''custom_field_'' @ py_str (str_other W) fid \<and>
           field_type (cols ! i) =
             (if ty = PStr ''number'' then ''FLOAT''
              else if ty = PStr ''date'' then ''TIMESTAMP'' else ''STRING'')"
proof -
  from assms have "column_of W (fs ! i) (cols ! i)"
    by (simp add: list_all2_conv_all_nth)
  then obtain ty fid where
    ty: "py_getitem (fs ! i) ''type'' = Inr ty" and fid: "py_getitem (fs ! i) ''id'' = Inr fid" and
    c: "cols ! i = SchemaField (''custom_field_'' @ py_str (str_other W) fid)
                (if ty = PStr ''number'' then ''FLOAT''
                 else if ty = PStr ''date'' then ''TIMESTAMP'' else ''STRING'')"
    unfolding column_of_def by blast
  have n: "field_name (cols ! i) = ''custom_field_'' @ py_str (str_other W) fid"
    by (simp only: c SchemaField_sel)
  have t: "field_type (cols ! i) =
             (if ty = PStr ''number'' then ''FLOAT''
              else if ty = PStr ''date'' then ''TIMESTAMP'' else ''STRING'')"
    by (simp only: c SchemaField_sel)
  from ty fid n t show ?thesis by blast
qed

lemma create_tables_eq:
  assumes "http W tr (custom_fields_url W self (workspace_id self)) (headers self) = Inr body"
    and "py_get body ''custom_fields'' (PList []) = Inr cf"
    and "py_iter cf = Inr fs"
  shows "create_tables_if_not_exist W self tr =
           (case schema_loop W fs base_schema of
              Inl e \<Rightarrow> (Inl e, tr @ [Http_get (custom_fields_url W self (workspace_id self)) (headers self) (Inr body)])
            | Inr sch \<Rightarrow>
                io_call (\<lambda>t. create_table W t \<lparr> table_reference = tasks_table_ref, table_schema = sch \<rparr> True)
                  (Create_table \<lparr> table_reference = tasks_table_ref, table_schema = sch \<rparr> True)
                  (tr @ [Http_get (custom_fields_url W self (workspace_id self)) (headers self) (Inr body)]))"
  using assms
  by (simp add: create_tables_if_not_exist_def fetch_custom_fields_def io_bind_def
        requests_get_json_eq io_lift_def Let_def split: sum.splits)

lemma schema_loop_append:
  "schema_loop W (xs @ ys) acc = ebind (schema_loop W xs acc) (schema_loop W ys)"
proof (induction xs arbitrary: acc)
  case Nil
  then show ?case by simp
next
  case (Cons f xs)
  show ?case
  proof (cases "py_getitem f ''type''")
    case (Inl e) then show ?thesis by simp
  next
    case ty: (Inr ty)
    show ?thesis
    proof (cases "py_getitem f ''id''")
      case (Inl e) then show ?thesis using ty by simp
    next
      case (Inr fid)
      then show ?thesis using ty Cons.IH by simp
    qed
  qed
qed

lemma schema_loop_prefix:
  assumes pre: "\<forall>g\<in>set pre. \<exists>ty fid. py_getitem g ''type'' = Inr ty \<and> py_getitem g ''id'' = Inr fid"
  shows "\<exists>sch. schema_loop W pre acc = Inr sch \<and>
           schema_loop W (pre @ rest) acc = schema_loop W rest sch"
proof -
  from schema_loop_total[OF pre] obtain sch where sch: "schema_loop W pre acc = Inr sch"
    by blast
  have "schema_loop W (pre @ rest) acc = schema_loop W rest sch"
    by (simp add: schema_loop_append sch)
  with sch show ?thesis by blast
qed

lemma py_getitem_absent: "map_of d k = None \<Longrightarrow> py_getitem (PDict d) k = Inl (KeyError k)"
  by simp

lemma py_getitem_present: "map_of d k \<noteq> None \<Longrightarrow> \<exists>v. py_getitem (PDict d) k = Inr v"
  by auto


lemma schema_columns:
  assumes "http W tr (custom_fields_url W self (workspace_id self)) (headers self) = Inr body"
    and "py_get body ''custom_fields'' (PList []) = Inr cf"
    and "py_iter cf = Inr fs"
    and wf: "\<forall>f\<in>set fs. \<exists>ty fid. py_getitem f ''type'' = Inr ty \<and> py_getitem f ''id'' = Inr fid"
  shows "\<exists>cols outcome.
             snd (create_tables_if_not_exist W self tr) =
               tr @ [Http_get (custom_fields_url W self (workspace_id self)) (headers self) (Inr body),
                     Create_table \<lparr> table_reference = tasks_table_ref,
                                    table_schema = base_schema @ cols \<rparr> True outcome] \<and>
             length cols = length fs \<and>
             (\<forall>i<length fs. \<exists>ty fid.
                py_getitem (fs ! i) ''type'' = Inr ty \<and> py_getitem (fs ! i) ''id'' = Inr fid \<and>
                field_name (cols ! i) = ''custom_field_'' @ py_str (str_other W) fid \<and>
                field_type (cols ! i) =
                  (if ty = PStr ''number'' then ''FLOAT''
                   else if ty = PStr ''date'' then ''TIMESTAMP'' else ''STRING''))"
proof -
  from schema_loop_total[OF wf] obtain out where out: "schema_loop W fs base_schema = Inr out"
    by blast
  from schema_loop_Inr[OF out] obtain cols where
    cols: "out = base_schema @ cols" and all: "list_all2 (column_of W) fs cols" by blast
  have len: "length cols = length fs" using all by (simp add: list_all2_lengthD)
  have run: "snd (create_tables_if_not_exist W self tr) =
      tr @ [Http_get (custom_fields_url W self (workspace_id self)) (headers self) (Inr body),
            Create_table \<lparr> table_reference = tasks_table_ref, table_schema = base_schema @ cols \<rparr> True
              (create_table W (tr @ [Http_get (custom_fields_url W self (workspace_id self)) (headers self) (Inr body)])
                 \<lparr> table_reference = tasks_table_ref, table_schema = base_schema @ cols \<rparr> True)]"
    using out cols by (simp add: create_tables_eq[OF assms(1-3)] io_call_eq)
  have types: "\<forall>i<length fs. \<exists>ty fid.
              py_getitem (fs ! i) ''type'' = Inr ty \<and> py_getitem (fs ! i) ''id'' = Inr fid \<and>
              field_name (cols ! i) = ''custom_field_'' @ py_str (str_other W) fid \<and>
              field_type (cols ! i) =
                (if ty = PStr ''number'' then ''FLOAT''
                 else if ty = PStr ''date'' then ''TIMESTAMP'' else ''STRING'')"
    by (intro allI impI) (rule list_all2_column_types[OF all])
  show ?thesis
    by (intro exI conjI) (rule run, rule len, rule types)
qed

lemma schema_absent_kind:
  assumes "http W tr (custom_fields_url W self (workspace_id self)) (headers self) = Inr body"
    and "py_get body ''custom_fields'' (PList []) = Inr cf"
    and "py_iter cf = Inr fs"
    and fs: "fs = pre @ f # post"
    and pre: "\<forall>g\<in>set pre. \<exists>ty fid. py_getitem g ''type'' = Inr ty \<and> py_getitem g ''id'' = Inr fid"
    and f: "f = PDict d" and d: "map_of d ''type'' = None"
  shows "create_tables_if_not_exist W self tr =
           (Inl (KeyError ''type''),
            tr @ [Http_get (custom_fields_url W self (workspace_id self)) (headers self) (Inr body)])"
proof -
  have ty: "py_getitem f ''type'' = Inl (KeyError ''type'')"
    unfolding f by (rule py_getitem_absent[OF d])
  from schema_loop_prefix[OF pre, of W base_schema "f # post"] obtain sch where
    "schema_loop W (pre @ f # post) base_schema = schema_loop W (f # post) sch" by blast
  also have "\<dots> = Inl (KeyError ''type'')" by (simp add: ty)
  finally have "schema_loop W fs base_schema = Inl (KeyError ''type'')"
    unfolding fs .
  then show ?thesis by (simp add: create_tables_eq[OF assms(1-3)])
qed

lemma dict_with_keys_well_formed:
  assumes "map_of d ''type'' \<noteq> None" and "map_of d ''id'' \<noteq> None"
  shows "\<exists>ty fid. py_getitem (PDict d) ''type'' = Inr ty \<and> py_getitem (PDict d) ''id'' = Inr fid"
proof -
  from py_getitem_present[OF assms(1)] obtain t where t: "py_getitem (PDict d) ''type'' = Inr t" ..
  from py_getitem_present[OF assms(2)] obtain i where i: "py_getitem (PDict d) ''id'' = Inr i" ..
  show ?thesis by (rule exI[of _ t], rule exI[of _ i], rule conjI[OF t i])
qed

lemma schema_some_absent_kind:
  assumes "http W tr (custom_fields_url W self (workspace_id self)) (headers self) = Inr body"
    and "py_get body ''custom_fields'' (PList []) = Inr cf"
    and "py_iter cf = Inr fs"
    and ids: "\<forall>f\<in>set fs. \<exists>d. f = PDict d \<and> map_of d ''id'' \<noteq> None"
    and ex: "\<exists>f\<in>set fs. \<exists>d. f = PDict d \<and> map_of d ''type'' = None"
  shows "create_tables_if_not_exist W self tr =
           (Inl (KeyError ''type''),
            tr @ [Http_get (custom_fields_url W self (workspace_id self)) (headers self) (Inr body)])"
proof -
  define P where "P = (\<lambda>f. \<exists>d. f = PDict d \<and> map_of d ''type'' = None)"
  define Q where "Q = (\<lambda>f. \<exists>d. f = PDict d \<and> map_of d ''id'' \<noteq> None)"
  define WF where "WF = (\<lambda>g. \<exists>ty fid. py_getitem g ''type'' = Inr ty \<and> py_getitem g ''id'' = Inr fid)"
  from ex have exP: "\<exists>f\<in>set fs. P f" unfolding P_def .
  from ids have allQ: "\<forall>f\<in>set fs. Q f" unfolding Q_def .
  from split_list_first_prop[OF exP] obtain pre f post where
    fs: "fs = pre @ f # post" and f: "P f" and first: "\<forall>g\<in>set pre. \<not> P g" by blast
  from f[unfolded P_def] obtain d where d1: "f = PDict d" and d2: "map_of d ''type'' = None"
    by (elim exE conjE)
  have step: "WF g" if q: "Q g" and np: "\<not> P g" for g
  proof -
    from q[unfolded Q_def] obtain dg where g: "g = PDict dg" and i: "map_of dg ''id'' \<noteq> None"
      by (elim exE conjE)
    have ty: "map_of dg ''type'' \<noteq> None"
    proof
      assume "map_of dg ''type'' = None"
      with g have "P g" unfolding P_def by (intro exI[of _ dg] conjI)
      with np show False ..
    qed
    show ?thesis unfolding WF_def g by (rule dict_with_keys_well_formed[OF ty i])
  qed
  have "\<forall>g\<in>set pre. WF g"
  proof
    fix g assume g: "g \<in> set pre"
    then have "g \<in> set fs" unfolding fs by simp
    with allQ have "Q g" ..
    moreover from first g have "\<not> P g" ..
    ultimately show "WF g" by (rule step)
  qed
  then have pre: "\<forall>g\<in>set pre. \<exists>ty fid. py_getitem g ''type'' = Inr ty \<and> py_getitem g ''id'' = Inr fid"
    unfolding WF_def .
  show ?thesis by (rule schema_absent_kind[OF assms(1-3) fs pre d1 d2])
qed

lemma schema_ill_formed:
  assumes "http W tr (custom_fields_url W self (workspace_id self)) (headers self) = Inr body"
    and "py_get body ''custom_fields'' (PList []) = Inr cf"
    and "py_iter cf = Inr fs"
    and nwf: "\<not> (\<forall>f\<in>set fs. \<exists>ty fid. py_getitem f ''type'' = Inr ty \<and> py_getitem f ''id'' = Inr fid)"
  shows "\<exists>e. create_tables_if_not_exist W self tr =
           (Inl e, tr @ [Http_get (custom_fields_url W self (workspace_id self)) (headers self) (Inr body)])"
proof -
  from schema_loop_fails[OF nwf] obtain e where e: "schema_loop W fs base_schema = Inl e"
    by blast
  have "create_tables_if_not_exist W self tr =
          (Inl e, tr @ [Http_get (custom_fields_url W self (workspace_id self)) (headers self) (Inr body)])"
    using e by (simp add: create_tables_eq[OF assms(1-3)])
  then show ?thesis by (rule exI)
qed

text \<open>
  C1 (as amended). Let the custom-fields response be readable. When every definition in it
  has a \<^verbatim>\<open>type\<close> and an \<^verbatim>\<open>id\<close>, the schema builder asks the warehouse to create the table
  with the base columns followed by one column per definition, in order, named
  \<^verbatim>\<open>custom_field_<id>\<close>, and the type of the column of a definition is FLOAT when its kind
  is the str \<^verbatim>\<open>number\<close>, TIMESTAMP when it is the str \<^verbatim>\<open>date\<close>, and STRING for every other
  kind, unknown ones and non-str values included. A definition with an absent kind (a dict
  without the key \<^verbatim>\<open>type\<close>) gets no column: when the definitions before it each have a
  \<^verbatim>\<open>type\<close> and an \<^verbatim>\<open>id\<close>, the schema builder raises \<^verbatim>\<open>KeyError('type')\<close> after the one
  request and asks for no table; so it does whenever every definition is a dict with an
  \<^verbatim>\<open>id\<close> and one of them has no \<^verbatim>\<open>type\<close>. And whenever some definition lacks one of the two
  keys, the schema builder raises after the one request and asks for no table at all, so
  that no definition gets a column.
\<close>

theorem custom_field_column_types:
  assumes "http W tr (custom_fields_url W self (workspace_id self)) (headers self) = Inr body"
    and "py_get body ''custom_fields'' (PList []) = Inr cf"
    and "py_iter cf = Inr fs"
  shows "((\<forall>f\<in>set fs. \<exists>ty fid. py_getitem f ''type'' = Inr ty \<and> py_getitem f ''id'' = Inr fid) \<longrightarrow>
          (\<exists>cols outcome.
             snd (create_tables_if_not_exist W self tr) =
               tr @ [Http_get (custom_fields_url W self (workspace_id self)) (headers self) (Inr body),
                     Create_table \<lparr> table_reference = tasks_table_ref,
                                    table_schema = base_schema @ cols \<rparr> True outcome] \<and>
             length cols = length fs \<and>
             (\<forall>i<length fs. \<exists>ty fid.
                py_getitem (fs ! i) ''type'' = Inr ty \<and> py_getitem (fs ! i) ''id'' = Inr fid \<and>
                field_name (cols ! i) = ''custom_field_'' @ py_str (str_other W) fid \<and>
                field_type (cols ! i) =
                  (if ty = PStr ''number'' then ''FLOAT''
                   else if ty = PStr ''date'' then ''TIMESTAMP'' else ''STRING'')))) \<and>
         (\<forall>pre f post d.
            fs = pre @ f # post \<and>
            (\<forall>g\<in>set pre. \<exists>ty fid. py_getitem g ''type'' = Inr ty \<and> py_getitem g ''id'' = Inr fid) \<and>
            f = PDict d \<and> map_of d ''type'' = None \<longrightarrow>
            create_tables_if_not_exist W self tr =
              (Inl (KeyError ''type''),
               tr @ [Http_get (custom_fields_url W self (workspace_id self)) (headers self) (Inr body)])) \<and>
         ((\<forall>f\<in>set fs. \<exists>d. f = PDict d \<and> map_of d ''id'' \<noteq> None) \<and>
          (\<exists>f\<in>set fs. \<exists>d. f = PDict d \<and> map_of d ''type'' = None) \<longrightarrow>
            create_tables_if_not_exist W self tr =
              (Inl (KeyError ''type''),
               tr @ [Http_get (custom_fields_url W self (workspace_id self)) (headers self) (Inr body)])) \<and>
         (\<not> (\<forall>f\<in>set fs. \<exists>ty fid. py_getitem f ''type'' = Inr ty \<and> py_getitem f ''id'' = Inr fid) \<longrightarrow>
            (\<exists>e. create_tables_if_not_exist W self tr =
               (Inl e, tr @ [Http_get (custom_fields_url W self (workspace_id self)) (headers self) (Inr body)])))"
proof (intro conjI impI allI)
  assume "\<forall>f\<in>set fs. \<exists>ty fid. py_getitem f ''type'' = Inr ty \<and> py_getitem f ''id'' = Inr fid"
  then show "\<exists>cols outcome.
             snd (create_tables_if_not_exist W self tr) =
               tr @ [Http_get (custom_fields_url W self (workspace_id self)) (headers self) (Inr body),
                     Create_table \<lparr> table_reference = tasks_table_ref,
                                    table_schema = base_schema @ cols \<rparr> True outcome] \<and>
             length cols = length fs \<and>
             (\<forall>i<length fs. \<exists>ty fid.
                py_getitem (fs ! i) ''type'' = Inr ty \<and> py_getitem (fs ! i) ''id'' = Inr fid \<and>
                field_name (cols ! i) = ''custom_field_'' @ py_str (str_other W) fid \<and>
                field_type (cols ! i) =
                  (if ty = PStr ''number'' then ''FLOAT''
                   else if ty = PStr ''date'' then ''TIMESTAMP'' else ''STRING''))"
    by (rule schema_columns[OF assms])
next
  fix pre f post d
  assume h: "fs = pre @ f # post \<and>
            (\<forall>g\<in>set pre. \<exists>ty fid. py_getitem g ''type'' = Inr ty \<and> py_getitem g ''id'' = Inr fid) \<and>
            f = PDict d \<and> map_of d ''type'' = None"
  show "create_tables_if_not_exist W self tr =
              (Inl (KeyError ''type''),
               tr @ [Http_get (custom_fields_url W self (workspace_id self)) (headers self) (Inr body)])"
    by (rule schema_absent_kind[OF assms h[THEN conjunct1] h[THEN conjunct2, THEN conjunct1]
          h[THEN conjunct2, THEN conjunct2, THEN conjunct1]
          h[THEN conjunct2, THEN conjunct2, THEN conjunct2]])
next
  assume h: "(\<forall>f\<in>set fs. \<exists>d. f = PDict d \<and> map_of d ''id'' \<noteq> None) \<and>
          (\<exists>f\<in>set fs. \<exists>d. f = PDict d \<and> map_of d ''type'' = None)"
  show "create_tables_if_not_exist W self tr =
              (Inl (KeyError ''type''),
               tr @ [Http_get (custom_fields_url W self (workspace_id self)) (headers self) (Inr body)])"
    by (rule schema_some_absent_kind[OF assms h[THEN conjunct1] h[THEN conjunct2]])
next
  assume "\<not> (\<forall>f\<in>set fs. \<exists>ty fid. py_getitem f ''type'' = Inr ty \<and> py_getitem f ''id'' = Inr fid)"
  then show "\<exists>e. create_tables_if_not_exist W self tr =
               (Inl e, tr @ [Http_get (custom_fields_url W self (workspace_id self)) (headers self) (Inr body)])"
    by (rule schema_ill_formed[OF assms])
qed

theorem custom_field_column_types_witness:
  "http (scripted_world [Inr demo_definitions_body]) []
      (custom_fields_url (scripted_world [Inr demo_definitions_body]) demo_self (workspace_id demo_self))
      (headers demo_self) = Inr demo_definitions_body \<and>
   py_get demo_definitions_body ''custom_fields'' (PList []) = Inr (PList demo_definitions) \<and>
   py_iter (PList demo_definitions) = Inr demo_definitions \<and>
   (\<exists>cols outcome.
       snd (create_tables_if_not_exist (scripted_world [Inr demo_definitions_body]) demo_self []) =
         [] @ [Http_get (custom_fields_url (scripted_world [Inr demo_definitions_body]) demo_self
                          (workspace_id demo_self)) (headers demo_self) (Inr demo_definitions_body),
               Create_table \<lparr> table_reference = tasks_table_ref,
                              table_schema = base_schema @ cols \<rparr> True outcome] \<and>
       length cols = length demo_definitions \<and>
       (\<forall>i<length demo_definitions. \<exists>ty fid.
          py_getitem (demo_definitions ! i) ''type'' = Inr ty \<and>
          py_getitem (demo_definitions ! i) ''id'' = Inr fid \<and>
          field_name (cols ! i) =
            ''custom_field_'' @ py_str (str_other (scripted_world [Inr demo_definitions_body])) fid \<and>
          field_type (cols ! i) =
            (if ty = PStr ''number'' then ''FLOAT''
             else if ty = PStr ''date'' then ''TIMESTAMP'' else ''STRING'')))"
proof -
  have h1: "http (scripted_world [Inr demo_definitions_body]) []
      (custom_fields_url (scripted_world [Inr demo_definitions_body]) demo_self (workspace_id demo_self))
      (headers demo_self) = Inr demo_definitions_body"
    by simp
  have h2: "py_get demo_definitions_body ''custom_fields'' (PList []) = Inr (PList demo_definitions)"
    by (simp add: demo_definitions_body_def)
  have h3: "py_iter (PList demo_definitions) = Inr demo_definitions"
    by simp
  have wf: "\<forall>f\<in>set demo_definitions.
              \<exists>ty fid. py_getitem f ''type'' = Inr ty \<and> py_getitem f ''id'' = Inr fid"
    by (simp add: demo_definitions_def)
  note T = custom_field_column_types[OF h1 h2 h3, THEN conjunct1, THEN mp, OF wf]
  show ?thesis
    by (rule conjI[OF h1 conjI[OF h2 conjI[OF h3 T]]])
qed

text \<open>
  C1 as stated fails for an absent kind: a definition \<^verbatim>\<open>{"id": "F1"}\<close> gets no string
  column, line 89 raises \<^verbatim>\<open>KeyError('type')\<close> and no table is created.
\<close>

theorem absent_kind_counterexample:
  "create_tables_if_not_exist (scripted_world [Inr kindless_body]) demo_self [] =
     (Inl (KeyError ''type''),
      [Http_get (custom_fields_url (scripted_world [Inr kindless_body]) demo_self (workspace_id demo_self))
         (headers demo_self) (Inr kindless_body)])"
proof -
  have h1: "http (scripted_world [Inr kindless_body]) []
      (custom_fields_url (scripted_world [Inr kindless_body]) demo_self (workspace_id demo_self))
      (headers demo_self) = Inr kindless_body"
    by simp
  have h2: "py_get kindless_body ''custom_fields'' (PList []) = Inr (PList [PDict [(''id'', PStr ''F1'')]])"
    by (simp add: kindless_body_def)
  have h3: "py_iter (PList [PDict [(''id'', PStr ''F1'')]]) = Inr [PDict [(''id'', PStr ''F1'')]]"
    by simp
  show ?thesis
    by (simp add: create_tables_eq[OF h1 h2 h3])
qed

section \<open>The extractor\<close>

lemma map_of_dict_set: "map_of (dict_set d k v) = (map_of d)(k \<mapsto> v)"
  by (induction d) (auto simp: fun_eq_iff)

lemma map_of_dict_set_all: "map_of (dict_set_all d kvs) = map_of d ++ map_of (rev kvs)"
proof (induction kvs arbitrary: d)
  case Nil
  then show ?case by simp
next
  case (Cons kv kvs)
  have "map_of (dict_set_all d (kv # kvs)) = (map_of d)(fst kv \<mapsto> snd kv) ++ map_of (rev kvs)"
    by (simp only: dict_set_all.simps Cons.IH map_of_dict_set)
  also have "\<dots> = map_of d ++ map_of (rev (kv # kvs))"
    by (cases kv) (simp add: fun_eq_iff map_add_def split: option.splits)
  finally show ?case .
qed

lemma flatten_fields_Inr:
  "flatten_fields W fs (PDict d) = Inr t \<Longrightarrow>
   \<exists>kvs. list_all2 (custom_field_entry W) fs kvs \<and> t = PDict (dict_set_all d kvs)"
proof (induction fs arbitrary: d)
  case Nil
  then show ?case by simp
next
  case (Cons f fs)
  from Cons.prems obtain v fid where
    v: "py_get f ''value'' PNone = Inr v" and fid: "py_getitem f ''id'' = Inr fid" and
    rest: "flatten_fields W fs (PDict (dict_set d (''custom_field_'' @ py_str (str_other W) fid) v)) = Inr t"
    by (auto simp: ebind_eq_Inr)
  define kv where "kv = (''custom_field_'' @ py_str (str_other W) fid, v)"
  have e: "custom_field_entry W f kv"
    unfolding custom_field_entry_def kv_def using v fid by simp
  from Cons.IH[OF rest] obtain kvs where
    all: "list_all2 (custom_field_entry W) fs kvs" and
    t: "t = PDict (dict_set_all (dict_set d (''custom_field_'' @ py_str (str_other W) fid) v) kvs)"
    by blast
  have "list_all2 (custom_field_entry W) (f # fs) (kv # kvs)" using e all by simp
  moreover have "t = PDict (dict_set_all d (kv # kvs))" using t by (simp add: kv_def)
  ultimately show ?case by blast
qed

lemma py_get_Inr_dict: "py_get x k dflt = Inr y \<Longrightarrow> \<exists>d. x = PDict d"
  by (cases x) simp_all

lemma py_setitem_Inr_dict: "py_setitem x k v = Inr y \<Longrightarrow> \<exists>d. x = PDict d \<and> y = PDict (dict_set d k v)"
  by (cases x) simp_all

lemma flatten_task_Inr:
  assumes "flatten_task W space list_obj task = Inr t"
  shows "\<exists>d cf fs kvs sid lid.
           task = PDict d \<and> py_get task ''custom_fields'' (PList []) = Inr cf \<and> py_iter cf = Inr fs \<and>
           list_all2 (custom_field_entry W) fs kvs \<and>
           py_getitem space ''id'' = Inr sid \<and> py_getitem list_obj ''id'' = Inr lid \<and>
           t = PDict (dict_set (dict_set (dict_set_all d kvs) ''space_id'' sid) ''list_id'' lid)"
proof -
  from assms obtain cf fs task1 sid task2 lid where
    cf: "py_get task ''custom_fields'' (PList []) = Inr cf" and fs: "py_iter cf = Inr fs" and
    t1: "flatten_fields W fs task = Inr task1" and sid: "py_getitem space ''id'' = Inr sid" and
    t2: "py_setitem task1 ''space_id'' sid = Inr task2" and lid: "py_getitem list_obj ''id'' = Inr lid" and
    t3: "py_setitem task2 ''list_id'' lid = Inr t"
    unfolding flatten_task_def ebind_eq_Inr by blast
  from py_get_Inr_dict[OF cf] obtain d where d: "task = PDict d" by blast
  from flatten_fields_Inr[OF t1[unfolded d]] obtain kvs where
    all: "list_all2 (custom_field_entry W) fs kvs" and task1: "task1 = PDict (dict_set_all d kvs)"
    by blast
  from t2 task1 have task2: "task2 = PDict (dict_set (dict_set_all d kvs) ''space_id'' sid)" by simp
  from t3 task2 have "t = PDict (dict_set (dict_set (dict_set_all d kvs) ''space_id'' sid) ''list_id'' lid)"
    by simp
  with d cf fs all sid lid show ?thesis by blast
qed

lemma task_of_list_mono:
  "task_of_list W self tr list_obj task \<Longrightarrow> set tr \<subseteq> set tr' \<Longrightarrow> task_of_list W self tr' list_obj task"
  unfolding task_of_list_def by blast

lemma list_of_space_mono:
  "list_of_space W self tr space list_obj \<Longrightarrow> set tr \<subseteq> set tr' \<Longrightarrow> list_of_space W self tr' space list_obj"
  unfolding list_of_space_def by blast

lemma tasks_loop_Inr:
  "tasks_loop W space list_obj ts acc = Inr out \<Longrightarrow>
   \<exists>new. out = acc @ new \<and> list_all2 (\<lambda>src t. flatten_task W space list_obj src = Inr t) ts new"
proof (induction ts arbitrary: acc)
  case Nil
  then show ?case by simp
next
  case (Cons src ts)
  from Cons.prems obtain t where
    t: "flatten_task W space list_obj src = Inr t" and
    rest: "tasks_loop W space list_obj ts (acc @ [t]) = Inr out"
    by (auto simp: ebind_eq_Inr)
  from Cons.IH[OF rest] obtain new where
    out: "out = (acc @ [t]) @ new" and
    all: "list_all2 (\<lambda>src t. flatten_task W space list_obj src = Inr t) ts new" by blast
  have "out = acc @ (t # new)" using out by simp
  moreover have "list_all2 (\<lambda>src t. flatten_task W space list_obj src = Inr t) (src # ts) (t # new)"
    using t all by simp
  ultimately show ?case by blast
qed

lemma tasks_loop_sources:
  assumes "tasks_loop W space list_obj ts acc = Inr out"
  shows "\<exists>new. out = acc @ new \<and> (\<forall>t\<in>set new. \<exists>src\<in>set ts. flatten_task W space list_obj src = Inr t)"
proof -
  from tasks_loop_Inr[OF assms] obtain new where
    out: "out = acc @ new" and
    all: "list_all2 (\<lambda>src t. flatten_task W space list_obj src = Inr t) ts new" by blast
  have "\<forall>t\<in>set new. \<exists>src\<in>set ts. flatten_task W space list_obj src = Inr t"
  proof
    fix t assume "t \<in> set new"
    then obtain i where i: "i < length new" "new ! i = t" by (auto simp: in_set_conv_nth)
    with all have "flatten_task W space list_obj (ts ! i) = Inr t" "i < length ts"
      by (auto simp: list_all2_conv_all_nth)
    then show "\<exists>src\<in>set ts. flatten_task W space list_obj src = Inr t"
      using nth_mem by blast
  qed
  with out show ?thesis by blast
qed

lemma lists_loop_Inr:
  "lists_loop W self space ls acc tr = (Inr out, tr') \<Longrightarrow>
   \<exists>new trn. out = acc @ new \<and> tr' = tr @ trn \<and>
     (\<forall>t\<in>set new. \<exists>list_obj\<in>set ls. \<exists>src.
         task_of_list W self trn list_obj src \<and> flatten_task W space list_obj src = Inr t)"
proof (induction ls arbitrary: acc tr)
  case Nil
  then have "out = acc @ []" "tr' = tr @ []" by (simp_all add: io_return_eq)
  then show ?case by (metis empty_iff list.set(1))
next
  case (Cons list_obj ls)
  from Cons.prems obtain lid body list_tasks ts tasks' where
    lid: "py_getitem list_obj ''id'' = Inr lid" and
    body: "http W tr (tasks_url W self lid) (headers self) = Inr body" and
    lt: "py_get body ''tasks'' (PList []) = Inr list_tasks" and
    ts: "py_iter list_tasks = Inr ts" and
    loop: "tasks_loop W space list_obj ts acc = Inr tasks'" and
    rest: "lists_loop W self space ls tasks'
             (tr @ [Http_get (tasks_url W self lid) (headers self) (Inr body)]) = (Inr out, tr')"
    by (auto simp: io_bind_eq_Inr io_lift_eq requests_get_json_eq_Inr)
  define ev where "ev = Http_get (tasks_url W self lid) (headers self) (Inr body)"
  from tasks_loop_sources[OF loop] obtain new1 where
    t1: "tasks' = acc @ new1" and
    s1: "\<forall>t\<in>set new1. \<exists>src\<in>set ts. flatten_task W space list_obj src = Inr t" by blast
  from Cons.IH[OF rest] obtain new2 trn2 where
    o2: "out = tasks' @ new2" and tr2: "tr' = (tr @ [ev]) @ trn2" and
    s2: "\<forall>t\<in>set new2. \<exists>list_obj\<in>set ls. \<exists>src.
           task_of_list W self trn2 list_obj src \<and> flatten_task W space list_obj src = Inr t"
    unfolding ev_def by blast
  have out: "out = acc @ (new1 @ new2)" using t1 o2 by simp
  have tr: "tr' = tr @ (ev # trn2)" using tr2 by simp
  have "\<exists>list_obj'\<in>set (list_obj # ls). \<exists>src.
           task_of_list W self (ev # trn2) list_obj' src \<and> flatten_task W space list_obj' src = Inr t"
    if t: "t \<in> set (new1 @ new2)" for t
  proof (cases "t \<in> set new1")
    case True
    with s1 obtain src where src: "src \<in> set ts" "flatten_task W space list_obj src = Inr t" by blast
    have "task_of_list W self (ev # trn2) list_obj src"
      unfolding task_of_list_def using lid lt ts src(1) by (intro exI[of _ lid] exI[of _ body] exI[of _ list_tasks] exI[of _ ts]) (simp add: ev_def)
    with src(2) show ?thesis by (intro bexI[of _ list_obj] exI[of _ src]) simp_all
  next
    case False
    with t have "t \<in> set new2" by simp
    with s2 obtain l src where l: "l \<in> set ls" "task_of_list W self trn2 l src"
        "flatten_task W space l src = Inr t" by blast
    have "task_of_list W self (ev # trn2) l src"
      by (rule task_of_list_mono[OF l(2)]) auto
    with l show ?thesis by (intro bexI[of _ l] exI[of _ src]) simp_all
  qed
  with out tr show ?case by blast
qed


lemma spaces_loop_Inr:
  "spaces_loop W self ss acc tr = (Inr out, tr') \<Longrightarrow>
   \<exists>new trn. out = acc @ new \<and> tr' = tr @ trn \<and>
     (\<forall>t\<in>set new. \<exists>space\<in>set ss. \<exists>list_obj src.
         list_of_space W self trn space list_obj \<and> task_of_list W self trn list_obj src \<and>
         flatten_task W space list_obj src = Inr t)"
proof (induction ss arbitrary: acc tr)
  case Nil
  then have "out = acc @ []" "tr' = tr @ []" by (simp_all add: io_return_eq)
  then show ?case by (metis empty_iff list.set(1))
next
  case (Cons space ss)
  from Cons.prems obtain sid body lists ls tasks' tr1 where
    sid: "py_getitem space ''id'' = Inr sid" and
    body: "http W tr (lists_url W self sid) (headers self) = Inr body" and
    lists: "py_get body ''lists'' (PList []) = Inr lists" and
    ls: "py_iter lists = Inr ls" and
    loop: "lists_loop W self space ls acc
             (tr @ [Http_get (lists_url W self sid) (headers self) (Inr body)]) = (Inr tasks', tr1)" and
    rest: "spaces_loop W self ss tasks' tr1 = (Inr out, tr')"
    by (auto simp: io_bind_eq_Inr io_lift_eq requests_get_json_eq_Inr)
  define ev where "ev = Http_get (lists_url W self sid) (headers self) (Inr body)"
  from lists_loop_Inr[OF loop] obtain new1 trn1 where
    t1: "tasks' = acc @ new1" and tr1: "tr1 = (tr @ [ev]) @ trn1" and
    s1: "\<forall>t\<in>set new1. \<exists>list_obj\<in>set ls. \<exists>src.
           task_of_list W self trn1 list_obj src \<and> flatten_task W space list_obj src = Inr t"
    unfolding ev_def by blast
  from Cons.IH[OF rest] obtain new2 trn2 where
    o2: "out = tasks' @ new2" and tr2: "tr' = tr1 @ trn2" and
    s2: "\<forall>t\<in>set new2. \<exists>space\<in>set ss. \<exists>list_obj src.
         list_of_space W self trn2 space list_obj \<and> task_of_list W self trn2 list_obj src \<and>
         flatten_task W space list_obj src = Inr t"
    by blast
  define trn where "trn = ev # trn1 @ trn2"
  have out: "out = acc @ (new1 @ new2)" using t1 o2 by simp
  have tr: "tr' = tr @ trn" using tr1 tr2 by (simp add: trn_def)
  have sub1: "set trn1 \<subseteq> set trn" and sub2: "set trn2 \<subseteq> set trn" and ev: "ev \<in> set trn"
    by (auto simp: trn_def)
  have "\<exists>space'\<in>set (space # ss). \<exists>list_obj src.
         list_of_space W self trn space' list_obj \<and> task_of_list W self trn list_obj src \<and>
         flatten_task W space' list_obj src = Inr t"
    if t: "t \<in> set (new1 @ new2)" for t
  proof (cases "t \<in> set new1")
    case True
    with s1 obtain l src where l: "l \<in> set ls" "task_of_list W self trn1 l src"
      "flatten_task W space l src = Inr t" by blast
    have a: "list_of_space W self trn space l"
      unfolding list_of_space_def using sid lists ls l(1) ev
      by (intro exI[of _ sid] exI[of _ body] exI[of _ lists] exI[of _ ls]) (simp add: ev_def)
    have b: "task_of_list W self trn l src"
      by (rule task_of_list_mono[OF l(2) sub1])
    from a b l(3) show ?thesis by (intro bexI[of _ space] exI[of _ l] exI[of _ src]) simp_all
  next
    case False
    with t have "t \<in> set new2" by simp
    with s2 obtain sp l src where l: "sp \<in> set ss" "list_of_space W self trn2 sp l"
        "task_of_list W self trn2 l src" "flatten_task W sp l src = Inr t" by blast
    have a: "list_of_space W self trn sp l" by (rule list_of_space_mono[OF l(2) sub2])
    have b: "task_of_list W self trn l src" by (rule task_of_list_mono[OF l(3) sub2])
    from a b l(1,4) show ?thesis by (intro bexI[of _ sp] exI[of _ l] exI[of _ src]) simp_all
  qed
  with out tr show ?case by blast
qed

lemma fetch_tasks_provenance:
  assumes "fetch_tasks W self wid tr = (Inr tasks, tr')" and "t \<in> set tasks"
  shows "\<exists>space list_obj src.
           space_of_workspace W self tr' wid space \<and> list_of_space W self tr' space list_obj \<and>
           task_of_list W self tr' list_obj src \<and> flatten_task W space list_obj src = Inr t"
proof -
  from assms(1) obtain body spaces ss where
    body: "http W tr (spaces_url W self wid) (headers self) = Inr body" and
    spaces: "py_get body ''spaces'' (PList []) = Inr spaces" and
    ss: "py_iter spaces = Inr ss" and
    loop: "spaces_loop W self ss [] (tr @ [Http_get (spaces_url W self wid) (headers self) (Inr body)])
             = (Inr tasks, tr')"
    unfolding fetch_tasks_def
    by (auto simp: io_bind_eq_Inr io_lift_eq requests_get_json_eq_Inr)
  define ev where "ev = Http_get (spaces_url W self wid) (headers self) (Inr body)"
  from spaces_loop_Inr[OF loop] obtain new trn where
    new: "tasks = [] @ new" and tr': "tr' = (tr @ [ev]) @ trn" and
    s: "\<forall>t\<in>set new. \<exists>space\<in>set ss. \<exists>list_obj src.
         list_of_space W self trn space list_obj \<and> task_of_list W self trn list_obj src \<and>
         flatten_task W space list_obj src = Inr t"
    unfolding ev_def by blast
  from assms(2) new s obtain space l src where
    l: "space \<in> set ss" "list_of_space W self trn space l" "task_of_list W self trn l src"
       "flatten_task W space l src = Inr t" by auto
  have sub: "set trn \<subseteq> set tr'" and ev: "ev \<in> set tr'" using tr' by auto
  have a: "space_of_workspace W self tr' wid space"
    unfolding space_of_workspace_def using spaces ss l(1) ev
    by (intro exI[of _ body] exI[of _ spaces] exI[of _ ss]) (simp add: ev_def)
  have b: "list_of_space W self tr' space l" by (rule list_of_space_mono[OF l(2) sub])
  have c: "task_of_list W self tr' l src" by (rule task_of_list_mono[OF l(3) sub])
  from a b c l(4) show ?thesis by blast
qed

lemma flatten_task_lookup:
  assumes "flatten_task W space list_obj src = Inr t"
  shows "\<exists>d d' cf fs kvs sid lid.
           src = PDict d \<and> t = PDict d' \<and>
           py_get src ''custom_fields'' (PList []) = Inr cf \<and> py_iter cf = Inr fs \<and>
           list_all2 (custom_field_entry W) fs kvs \<and>
           py_getitem space ''id'' = Inr sid \<and> py_getitem list_obj ''id'' = Inr lid \<and>
           (\<forall>k. map_of d' k =
              (if k = ''list_id'' then Some lid
               else if k = ''space_id'' then Some sid
               else (map_of d ++ map_of (rev kvs)) k))"
proof -
  from flatten_task_Inr[OF assms] obtain d cf fs kvs sid lid where
    f: "src = PDict d" "py_get src ''custom_fields'' (PList []) = Inr cf" "py_iter cf = Inr fs"
       "list_all2 (custom_field_entry W) fs kvs"
       "py_getitem space ''id'' = Inr sid" "py_getitem list_obj ''id'' = Inr lid" and
    t: "t = PDict (dict_set (dict_set (dict_set_all d kvs) ''space_id'' sid) ''list_id'' lid)"
    by blast
  define d' where "d' = dict_set (dict_set (dict_set_all d kvs) ''space_id'' sid) ''list_id'' lid"
  have "map_of d' k =
              (if k = ''list_id'' then Some lid
               else if k = ''space_id'' then Some sid
               else (map_of d ++ map_of (rev kvs)) k)" for k
    unfolding d'_def by (simp only: map_of_dict_set map_of_dict_set_all fun_upd_apply)
  with f t[folded d'_def] show ?thesis by blast
qed

lemma map_of_rev_last:
  "i < length kvs \<Longrightarrow>
   \<exists>j<length kvs. i \<le> j \<and> fst (kvs ! j) = fst (kvs ! i) \<and>
      map_of (rev kvs) (fst (kvs ! i)) = Some (snd (kvs ! j)) \<and>
      (\<forall>m. j < m \<and> m < length kvs \<longrightarrow> fst (kvs ! m) \<noteq> fst (kvs ! i))"
proof (induction kvs rule: rev_induct)
  case Nil
  then show ?case by simp
next
  case (snoc x xs)
  show ?case
  proof (cases "fst x = fst ((xs @ [x]) ! i)")
    case True
    have "length xs < length (xs @ [x])" by simp
    moreover have "i \<le> length xs" using snoc.prems by simp
    moreover have "fst ((xs @ [x]) ! length xs) = fst ((xs @ [x]) ! i)" using True by simp
    moreover have "map_of (rev (xs @ [x])) (fst ((xs @ [x]) ! i)) = Some (snd ((xs @ [x]) ! length xs))"
      using True by (cases x) simp
    moreover have "\<forall>m. length xs < m \<and> m < length (xs @ [x]) \<longrightarrow> fst ((xs @ [x]) ! m) \<noteq> fst ((xs @ [x]) ! i)"
      by auto
    ultimately show ?thesis by blast
  next
    case False
    then have i: "i < length xs" using snoc.prems by (cases "i = length xs") auto
    then have nth: "(xs @ [x]) ! i = xs ! i" by (simp add: nth_append)
    from snoc.IH[OF i] obtain j where
      j: "j < length xs" "i \<le> j" "fst (xs ! j) = fst (xs ! i)"
         "map_of (rev xs) (fst (xs ! i)) = Some (snd (xs ! j))"
         "\<forall>m. j < m \<and> m < length xs \<longrightarrow> fst (xs ! m) \<noteq> fst (xs ! i)" by blast
    have a: "j < length (xs @ [x])" using j(1) by simp
    have b: "fst ((xs @ [x]) ! j) = fst ((xs @ [x]) ! i)" using j(1,3) i by (simp add: nth_append)
    have c: "map_of (rev (xs @ [x])) (fst ((xs @ [x]) ! i)) = Some (snd ((xs @ [x]) ! j))"
      using False j(1,4) i by (cases x) (simp add: nth_append)
    have d: "\<forall>m. j < m \<and> m < length (xs @ [x]) \<longrightarrow> fst ((xs @ [x]) ! m) \<noteq> fst ((xs @ [x]) ! i)"
    proof (intro allI impI)
      fix m assume m: "j < m \<and> m < length (xs @ [x])"
      show "fst ((xs @ [x]) ! m) \<noteq> fst ((xs @ [x]) ! i)"
      proof (cases "m = length xs")
        case True
        then show ?thesis using False by simp
      next
        case F: False
        with m have "m < length xs" by simp
        with j(5) m i show ?thesis by (simp add: nth_append)
      qed
    qed
    from a j(2) b c d show ?thesis by blast
  qed
qed

lemma custom_field_key_neq [simp]:
  "''custom_field_'' @ s \<noteq> ''space_id''" "''custom_field_'' @ s \<noteq> ''list_id''"
  by simp_all

lemma demo_fetch_tasks:
  "fetch_tasks demo_extract_world demo_self (workspace_id demo_self) [] =
     (Inr [demo_flat1, demo_flat2], demo_extract_trace)"
  by (simp add: fetch_tasks_def demo_extract_world_def io_bind_def requests_get_json_def
        io_lift_def io_return_def spaces_url_def lists_url_def tasks_url_def
        demo_spaces_body_def demo_lists_body_def demo_tasks_body_def demo_task1_def demo_task2_def
        flatten_task_def demo_flat1_def demo_flat2_def demo_extract_trace_def Let_def)

lemma custom_field_entry_key_value:
  "custom_field_entry W f kv \<Longrightarrow> field_key W f = Some (fst kv) \<and> field_value f = Some (snd kv)"
  unfolding custom_field_entry_def field_key_def field_value_def by auto

lemma custom_field_entry_prefix:
  "custom_field_entry W f kv \<Longrightarrow> \<exists>s. fst kv = ''custom_field_'' @ s"
  unfolding custom_field_entry_def by blast

lemma flattened_field_lookup:
  assumes look: "\<forall>k. map_of d' k =
              (if k = ''list_id'' then Some lid
               else if k = ''space_id'' then Some sid
               else (map_of d ++ map_of (rev kvs)) k)"
    and all: "list_all2 (custom_field_entry W) fs kvs"
    and i: "i < length fs"
  shows "\<exists>k v. field_key W (fs ! i) = Some k \<and> field_value (fs ! i) = Some v \<and>
           (\<exists>j. i \<le> j \<and> j < length fs \<and> field_key W (fs ! j) = Some k \<and>
                (\<forall>m. j < m \<and> m < length fs \<longrightarrow> field_key W (fs ! m) \<noteq> Some k) \<and>
                (\<exists>v'. field_value (fs ! j) = Some v' \<and> map_of d' k = Some v')) \<and>
           ((\<forall>m. i < m \<and> m < length fs \<longrightarrow> field_key W (fs ! m) \<noteq> Some k) \<longrightarrow>
              map_of d' k = Some v)"
proof -
  have len: "length kvs = length fs" using all by (simp add: list_all2_lengthD)
  have ent: "custom_field_entry W (fs ! n) (kvs ! n)" if "n < length fs" for n
    using all that by (simp add: list_all2_conv_all_nth)
  have kv: "field_key W (fs ! n) = Some (fst (kvs ! n))" "field_value (fs ! n) = Some (snd (kvs ! n))"
    if "n < length fs" for n
    using custom_field_entry_key_value[OF ent[OF that]] by simp_all
  define k where "k = fst (kvs ! i)"
  define v where "v = snd (kvs ! i)"
  from custom_field_entry_prefix[OF ent[OF i]] obtain s where s: "k = ''custom_field_'' @ s"
    unfolding k_def by blast
  have neq: "k \<noteq> ''list_id''" "k \<noteq> ''space_id''" unfolding s by simp_all
  from i len have "i < length kvs" by simp
  from map_of_rev_last[OF this] obtain j where
    j: "j < length kvs" "i \<le> j" "fst (kvs ! j) = k"
       "map_of (rev kvs) k = Some (snd (kvs ! j))"
       "\<forall>m. j < m \<and> m < length kvs \<longrightarrow> fst (kvs ! m) \<noteq> k"
    unfolding k_def by blast
  have jl: "j < length fs" using j(1) len by simp
  have val: "map_of d' k = Some (snd (kvs ! j))"
    using look[rule_format, of k] neq j(4) by (simp add: map_add_def)
  have later: "\<forall>m. j < m \<and> m < length fs \<longrightarrow> field_key W (fs ! m) \<noteq> Some k"
  proof (intro allI impI)
    fix m assume m: "j < m \<and> m < length fs"
    then have "fst (kvs ! m) \<noteq> k" using j(5) len by simp
    then show "field_key W (fs ! m) \<noteq> Some k" using kv(1)[of m] m by simp
  qed
  have a: "\<exists>j. i \<le> j \<and> j < length fs \<and> field_key W (fs ! j) = Some k \<and>
                (\<forall>m. j < m \<and> m < length fs \<longrightarrow> field_key W (fs ! m) \<noteq> Some k) \<and>
                (\<exists>v'. field_value (fs ! j) = Some v' \<and> map_of d' k = Some v')"
    using j(2) jl kv(1)[OF jl] j(3) later kv(2)[OF jl] val by blast
  have b: "map_of d' k = Some v" if nodup: "\<forall>m. i < m \<and> m < length fs \<longrightarrow> field_key W (fs ! m) \<noteq> Some k"
  proof -
    have "j = i"
    proof (rule ccontr)
      assume "j \<noteq> i"
      with j(2) have "i < j" by simp
      with nodup jl have "field_key W (fs ! j) \<noteq> Some k" by blast
      with kv(1)[OF jl] j(3) show False by simp
    qed
    with val show ?thesis by (simp add: v_def)
  qed
  from kv(1)[OF i] kv(2)[OF i] a b show ?thesis unfolding k_def[symmetric] v_def[symmetric] by blast
qed

lemma field_key_str:
  "py_getitem f ''id'' = Inr (PStr s) \<Longrightarrow> field_key W f = Some (''custom_field_'' @ s)"
  by (simp add: field_key_def)

lemma str_ids_keys_differ:
  assumes "py_getitem f ''id'' = Inr (PStr s)" and "py_getitem g ''id'' = Inr (PStr s')"
    and "py_getitem g ''id'' \<noteq> py_getitem f ''id''"
  shows "field_key W g \<noteq> field_key W f"
proof -
  from assms have "s' \<noteq> s" by auto
  then show ?thesis
    unfolding field_key_str[OF assms(1)] field_key_str[OF assms(2)] by simp
qed

text \<open>
  Entries yield the same key when their ids print the same in the f-string of line 58: a
  repeated id does, and so do the int \<^verbatim>\<open>1\<close> and the str \<^verbatim>\<open>"1"\<close>, which are different ids.
\<close>

lemma int_and_str_id_same_key:
  "field_key W (PDict [(''id'', PInt 1)]) = field_key W (PDict [(''id'', PStr ''1'')])"
proof -
  have "decimal 1 = ''1''" by code_simp
  then show ?thesis by (simp add: field_key_def)
qed

text \<open>
  C2 (as amended). Every task the extractor returns is the flattened form of a task of a
  tasks response, and for each entry of that task's custom-fields collection the flattened
  record has the key \<^verbatim>\<open>custom_field_<id>\<close>, the entry's id as line 58 prints it. The value
  under that key is the raw value, as supplied (\<^verbatim>\<open>None\<close> when the entry has no \<^verbatim>\<open>value\<close>), of
  the last entry of the collection that yields the same key; so it is the entry's own raw
  value whenever no later entry yields the same key, and in particular whenever the id of
  the entry and the ids of the later entries are strs and none of the later ones is equal
  to the entry's.
\<close>

theorem custom_field_values_flattened:
  assumes "fetch_tasks W self wid tr = (Inr tasks, tr')" and "t \<in> set tasks"
  shows "\<exists>space list_obj src cf fs.
           space_of_workspace W self tr' wid space \<and> list_of_space W self tr' space list_obj \<and>
           task_of_list W self tr' list_obj src \<and> flatten_task W space list_obj src = Inr t \<and>
           py_get src ''custom_fields'' (PList []) = Inr cf \<and> py_iter cf = Inr fs \<and>
           (\<forall>i<length fs. \<exists>k v.
              field_key W (fs ! i) = Some k \<and> field_value (fs ! i) = Some v \<and>
              (\<exists>j. i \<le> j \<and> j < length fs \<and> field_key W (fs ! j) = Some k \<and>
                   (\<forall>m. j < m \<and> m < length fs \<longrightarrow> field_key W (fs ! m) \<noteq> Some k) \<and>
                   (\<exists>v'. field_value (fs ! j) = Some v' \<and> py_getitem t k = Inr v')) \<and>
              ((\<forall>m. i < m \<and> m < length fs \<longrightarrow> field_key W (fs ! m) \<noteq> Some k) \<longrightarrow>
                 py_getitem t k = Inr v) \<and>
              ((\<exists>s. py_getitem (fs ! i) ''id'' = Inr (PStr s)) \<and>
               (\<forall>m. i < m \<and> m < length fs \<longrightarrow>
                  (\<exists>s'. py_getitem (fs ! m) ''id'' = Inr (PStr s')) \<and>
                  py_getitem (fs ! m) ''id'' \<noteq> py_getitem (fs ! i) ''id'') \<longrightarrow>
                 py_getitem t k = Inr v))"
proof -
  from fetch_tasks_provenance[OF assms] obtain space list_obj src where
    p: "space_of_workspace W self tr' wid space" "list_of_space W self tr' space list_obj"
       "task_of_list W self tr' list_obj src" and
    f: "flatten_task W space list_obj src = Inr t" by blast
  from flatten_task_lookup[OF f] obtain d d' cf fs kvs sid lid where
    t: "t = PDict d'" and cf: "py_get src ''custom_fields'' (PList []) = Inr cf" "py_iter cf = Inr fs" and
    all: "list_all2 (custom_field_entry W) fs kvs" and
    look: "\<forall>k. map_of d' k =
              (if k = ''list_id'' then Some lid
               else if k = ''space_id'' then Some sid
               else (map_of d ++ map_of (rev kvs)) k)"
    by blast
  have get: "py_getitem t k = Inr v" if "map_of d' k = Some v" for k v
    using that t by simp
  define own where "own = (\<lambda>i. \<exists>s. py_getitem (fs ! i) ''id'' = Inr (PStr s))"
  define later_differ where "later_differ = (\<lambda>i.
       \<forall>m. i < m \<and> m < length fs \<longrightarrow>
                  (\<exists>s'. py_getitem (fs ! m) ''id'' = Inr (PStr s')) \<and>
                  py_getitem (fs ! m) ''id'' \<noteq> py_getitem (fs ! i) ''id'')"
  have "\<forall>i<length fs. \<exists>k v.
              field_key W (fs ! i) = Some k \<and> field_value (fs ! i) = Some v \<and>
              (\<exists>j. i \<le> j \<and> j < length fs \<and> field_key W (fs ! j) = Some k \<and>
                   (\<forall>m. j < m \<and> m < length fs \<longrightarrow> field_key W (fs ! m) \<noteq> Some k) \<and>
                   (\<exists>v'. field_value (fs ! j) = Some v' \<and> py_getitem t k = Inr v')) \<and>
              ((\<forall>m. i < m \<and> m < length fs \<longrightarrow> field_key W (fs ! m) \<noteq> Some k) \<longrightarrow>
                 py_getitem t k = Inr v) \<and>
              (own i \<and> later_differ i \<longrightarrow> py_getitem t k = Inr v)"
  proof (intro allI impI)
    fix i assume "i < length fs"
    from flattened_field_lookup[OF look all this] obtain k v j v' where
      r: "field_key W (fs ! i) = Some k" "field_value (fs ! i) = Some v"
         "i \<le> j" "j < length fs" "field_key W (fs ! j) = Some k"
         "\<forall>m. j < m \<and> m < length fs \<longrightarrow> field_key W (fs ! m) \<noteq> Some k"
         "field_value (fs ! j) = Some v'" "map_of d' k = Some v'"
         "(\<forall>m. i < m \<and> m < length fs \<longrightarrow> field_key W (fs ! m) \<noteq> Some k) \<longrightarrow> map_of d' k = Some v"
      by blast
    have x: "py_getitem t k = Inr v'" by (rule get[OF r(8)])
    have y: "(\<forall>m. i < m \<and> m < length fs \<longrightarrow> field_key W (fs ! m) \<noteq> Some k) \<longrightarrow> py_getitem t k = Inr v"
      using r(9) get by blast
    have z: "own i \<and> later_differ i \<longrightarrow> py_getitem t k = Inr v"
    proof
      assume h: "own i \<and> later_differ i"
      then obtain s where s: "py_getitem (fs ! i) ''id'' = Inr (PStr s)" unfolding own_def by blast
      have "\<forall>m. i < m \<and> m < length fs \<longrightarrow> field_key W (fs ! m) \<noteq> Some k"
      proof (intro allI impI)
        fix m assume m: "i < m \<and> m < length fs"
        with h obtain s' where s': "py_getitem (fs ! m) ''id'' = Inr (PStr s')"
          and ne: "py_getitem (fs ! m) ''id'' \<noteq> py_getitem (fs ! i) ''id''"
          unfolding later_differ_def by blast
        from str_ids_keys_differ[OF s s' ne, of W] show "field_key W (fs ! m) \<noteq> Some k"
          unfolding r(1) .
      qed
      with y show "py_getitem t k = Inr v" by blast
    qed
    from r(1-7) x y z
    show "\<exists>k v.
              field_key W (fs ! i) = Some k \<and> field_value (fs ! i) = Some v \<and>
              (\<exists>j. i \<le> j \<and> j < length fs \<and> field_key W (fs ! j) = Some k \<and>
                   (\<forall>m. j < m \<and> m < length fs \<longrightarrow> field_key W (fs ! m) \<noteq> Some k) \<and>
                   (\<exists>v'. field_value (fs ! j) = Some v' \<and> py_getitem t k = Inr v')) \<and>
              ((\<forall>m. i < m \<and> m < length fs \<longrightarrow> field_key W (fs ! m) \<noteq> Some k) \<longrightarrow>
                 py_getitem t k = Inr v) \<and>
              (own i \<and> later_differ i \<longrightarrow> py_getitem t k = Inr v)"
      by blast
  qed
  with p f cf show ?thesis unfolding own_def later_differ_def by blast
qed

theorem custom_field_values_flattened_witness:
  "fetch_tasks demo_extract_world demo_self (workspace_id demo_self) [] =
     (Inr [demo_flat1, demo_flat2], demo_extract_trace) \<and>
   demo_flat2 \<in> set [demo_flat1, demo_flat2] \<and>
   (\<exists>space list_obj src cf fs.
           space_of_workspace demo_extract_world demo_self demo_extract_trace (workspace_id demo_self) space \<and> list_of_space demo_extract_world demo_self demo_extract_trace space list_obj \<and>
           task_of_list demo_extract_world demo_self demo_extract_trace list_obj src \<and> flatten_task demo_extract_world space list_obj src = Inr demo_flat2 \<and>
           py_get src ''custom_fields'' (PList []) = Inr cf \<and> py_iter cf = Inr fs \<and>
           (\<forall>i<length fs. \<exists>k v.
              field_key demo_extract_world (fs ! i) = Some k \<and> field_value (fs ! i) = Some v \<and>
              (\<exists>j. i \<le> j \<and> j < length fs \<and> field_key demo_extract_world (fs ! j) = Some k \<and>
                   (\<forall>m. j < m \<and> m < length fs \<longrightarrow> field_key demo_extract_world (fs ! m) \<noteq> Some k) \<and>
                   (\<exists>v'. field_value (fs ! j) = Some v' \<and> py_getitem demo_flat2 k = Inr v')) \<and>
              ((\<forall>m. i < m \<and> m < length fs \<longrightarrow> field_key demo_extract_world (fs ! m) \<noteq> Some k) \<longrightarrow>
                 py_getitem demo_flat2 k = Inr v) \<and>
              ((\<exists>s. py_getitem (fs ! i) ''id'' = Inr (PStr s)) \<and>
               (\<forall>m. i < m \<and> m < length fs \<longrightarrow>
                  (\<exists>s'. py_getitem (fs ! m) ''id'' = Inr (PStr s')) \<and>
                  py_getitem (fs ! m) ''id'' \<noteq> py_getitem (fs ! i) ''id'') \<longrightarrow>
                 py_getitem demo_flat2 k = Inr v)))"
proof -
  have m: "demo_flat2 \<in> set [demo_flat1, demo_flat2]" by simp
  from custom_field_values_flattened[OF demo_fetch_tasks m] demo_fetch_tasks m show ?thesis
    by (intro conjI)
qed

text \<open>
  C2 as stated fails when a collection repeats an id: of the entries
  \<^verbatim>\<open>{"id": "F1", "value": 1}\<close> and \<^verbatim>\<open>{"id": "F1", "value": 2}\<close> the flattened record keeps
  2 under \<^verbatim>\<open>custom_field_F1\<close>, not the first entry's 1.
\<close>

theorem repeated_field_id_counterexample:
  "fst (fetch_tasks dup_world demo_self (workspace_id demo_self) []) = Inr [dup_flat] \<and>
   py_get dup_task ''custom_fields'' (PList []) = Inr (PList [dup_entry1, dup_entry2]) \<and>
   py_getitem dup_entry1 ''id'' = Inr (PStr ''F1'') \<and>
   py_get dup_entry1 ''value'' PNone = Inr (PInt 1) \<and>
   py_getitem dup_flat ''custom_field_F1'' = Inr (PInt 2)"
  by (simp add: fetch_tasks_def dup_world_def io_bind_def requests_get_json_def
        io_lift_def io_return_def spaces_url_def lists_url_def tasks_url_def
        demo_spaces_body_def demo_lists_body_def dup_task_def dup_entry1_def dup_entry2_def
        flatten_task_def dup_flat_def Let_def)

text \<open>
  C3. Every task the extractor returns is the flattened form of a task of the tasks
  response of some list, itself an entry of the lists response of some space of the spaces
  response, and its \<^verbatim>\<open>space_id\<close> and \<^verbatim>\<open>list_id\<close> are the ids of that space and that list.
\<close>

theorem task_context_ids:
  assumes "fetch_tasks W self wid tr = (Inr tasks, tr')" and "t \<in> set tasks"
  shows "\<exists>space list_obj src sid lid.
           space_of_workspace W self tr' wid space \<and> list_of_space W self tr' space list_obj \<and>
           task_of_list W self tr' list_obj src \<and> flatten_task W space list_obj src = Inr t \<and>
           py_getitem space ''id'' = Inr sid \<and> py_getitem list_obj ''id'' = Inr lid \<and>
           py_getitem t ''space_id'' = Inr sid \<and> py_getitem t ''list_id'' = Inr lid"
proof -
  from fetch_tasks_provenance[OF assms] obtain space list_obj src where
    p: "space_of_workspace W self tr' wid space" "list_of_space W self tr' space list_obj"
       "task_of_list W self tr' list_obj src" and
    f: "flatten_task W space list_obj src = Inr t" by blast
  from flatten_task_lookup[OF f] obtain d d' kvs sid lid where
    t: "t = PDict d'" and ids: "py_getitem space ''id'' = Inr sid" "py_getitem list_obj ''id'' = Inr lid" and
    look: "\<forall>k. map_of d' k =
              (if k = ''list_id'' then Some lid
               else if k = ''space_id'' then Some sid
               else (map_of d ++ map_of (rev kvs)) k)"
    by blast
  have "map_of d' ''space_id'' = Some sid"
    using look[rule_format, of "''space_id''"] by simp
  moreover have "map_of d' ''list_id'' = Some lid"
    using look[rule_format, of "''list_id''"] by simp
  ultimately have "py_getitem t ''space_id'' = Inr sid" "py_getitem t ''list_id'' = Inr lid"
    using t by simp_all
  with p f ids show ?thesis by blast
qed

theorem task_context_ids_witness:
  "fetch_tasks demo_extract_world demo_self (workspace_id demo_self) [] =
     (Inr [demo_flat1, demo_flat2], demo_extract_trace) \<and>
   demo_flat2 \<in> set [demo_flat1, demo_flat2] \<and>
   (\<exists>space list_obj src sid lid.
           space_of_workspace demo_extract_world demo_self demo_extract_trace (workspace_id demo_self) space \<and> list_of_space demo_extract_world demo_self demo_extract_trace space list_obj \<and>
           task_of_list demo_extract_world demo_self demo_extract_trace list_obj src \<and> flatten_task demo_extract_world space list_obj src = Inr demo_flat2 \<and>
           py_getitem space ''id'' = Inr sid \<and> py_getitem list_obj ''id'' = Inr lid \<and>
           py_getitem demo_flat2 ''space_id'' = Inr sid \<and> py_getitem demo_flat2 ''list_id'' = Inr lid)"
proof -
  have m: "demo_flat2 \<in> set [demo_flat1, demo_flat2]" by simp
  from task_context_ids[OF demo_fetch_tasks m] demo_fetch_tasks m show ?thesis
    by (intro conjI)
qed

text \<open>
  C10. The flattened record is the source record written over: \<^verbatim>\<open>space_id\<close> and
  \<^verbatim>\<open>list_id\<close> hold the ids of the space and the list, and each \<^verbatim>\<open>custom_field_<id>\<close> holds
  the value of an entry of the collection with that id, whatever the source had under
  these names; every other attribute is the source's.
\<close>

theorem flattening_overwrites_source:
  assumes "fetch_tasks W self wid tr = (Inr tasks, tr')" and "t \<in> set tasks"
  shows "\<exists>space list_obj src d d' sid lid cf fs.
           space_of_workspace W self tr' wid space \<and> list_of_space W self tr' space list_obj \<and>
           task_of_list W self tr' list_obj src \<and> flatten_task W space list_obj src = Inr t \<and>
           src = PDict d \<and> t = PDict d' \<and>
           py_getitem space ''id'' = Inr sid \<and> py_getitem list_obj ''id'' = Inr lid \<and>
           py_get src ''custom_fields'' (PList []) = Inr cf \<and> py_iter cf = Inr fs \<and>
           map_of d' ''space_id'' = Some sid \<and> map_of d' ''list_id'' = Some lid \<and>
           (\<forall>i<length fs. \<exists>k j v'.
              field_key W (fs ! i) = Some k \<and> j < length fs \<and> field_key W (fs ! j) = Some k \<and>
              field_value (fs ! j) = Some v' \<and> map_of d' k = Some v') \<and>
           (\<forall>k. k \<noteq> ''space_id'' \<and> k \<noteq> ''list_id'' \<and> (\<forall>i<length fs. field_key W (fs ! i) \<noteq> Some k)
                 \<longrightarrow> map_of d' k = map_of d k)"
proof -
  from fetch_tasks_provenance[OF assms] obtain space list_obj src where
    p: "space_of_workspace W self tr' wid space" "list_of_space W self tr' space list_obj"
       "task_of_list W self tr' list_obj src" and
    f: "flatten_task W space list_obj src = Inr t" by blast
  from flatten_task_lookup[OF f] obtain d d' cf fs kvs sid lid where
    src: "src = PDict d" and t: "t = PDict d'" and
    cf: "py_get src ''custom_fields'' (PList []) = Inr cf" "py_iter cf = Inr fs" and
    all: "list_all2 (custom_field_entry W) fs kvs" and
    ids: "py_getitem space ''id'' = Inr sid" "py_getitem list_obj ''id'' = Inr lid" and
    look: "\<forall>k. map_of d' k =
              (if k = ''list_id'' then Some lid
               else if k = ''space_id'' then Some sid
               else (map_of d ++ map_of (rev kvs)) k)"
    by blast
  have len: "length kvs = length fs" using all by (simp add: list_all2_lengthD)
  have kv: "field_key W (fs ! n) = Some (fst (kvs ! n))" if "n < length fs" for n
    using all that custom_field_entry_key_value[of W "fs ! n" "kvs ! n"]
    by (simp add: list_all2_conv_all_nth)
  have s: "map_of d' ''space_id'' = Some sid"
    using look[rule_format, of "''space_id''"] by simp
  have l: "map_of d' ''list_id'' = Some lid"
    using look[rule_format, of "''list_id''"] by simp
  have fields: "\<forall>i<length fs. \<exists>k j v'.
              field_key W (fs ! i) = Some k \<and> j < length fs \<and> field_key W (fs ! j) = Some k \<and>
              field_value (fs ! j) = Some v' \<and> map_of d' k = Some v'"
  proof (intro allI impI)
    fix i assume "i < length fs"
    from flattened_field_lookup[OF look all this]
    show "\<exists>k j v'.
              field_key W (fs ! i) = Some k \<and> j < length fs \<and> field_key W (fs ! j) = Some k \<and>
              field_value (fs ! j) = Some v' \<and> map_of d' k = Some v'"
      by blast
  qed
  have frame: "\<forall>k. k \<noteq> ''space_id'' \<and> k \<noteq> ''list_id'' \<and> (\<forall>i<length fs. field_key W (fs ! i) \<noteq> Some k)
                 \<longrightarrow> map_of d' k = map_of d k"
  proof (intro allI impI)
    fix k assume k: "k \<noteq> ''space_id'' \<and> k \<noteq> ''list_id'' \<and> (\<forall>i<length fs. field_key W (fs ! i) \<noteq> Some k)"
    have "k \<notin> fst ` set kvs"
    proof
      assume "k \<in> fst ` set kvs"
      then obtain n where n: "n < length kvs" "fst (kvs ! n) = k"
        by (auto simp: in_set_conv_nth)
      with kv[of n] len have "field_key W (fs ! n) = Some k" by simp
      with k n(1) len show False by simp
    qed
    then have "map_of (rev kvs) k = None" by (simp add: map_of_eq_None_iff)
    then show "map_of d' k = map_of d k"
      using look[rule_format, of k] k by (simp add: map_add_def)
  qed
  from p f src t ids cf s l fields frame show ?thesis by blast
qed

theorem flattening_overwrites_source_witness:
  "fetch_tasks demo_extract_world demo_self (workspace_id demo_self) [] =
     (Inr [demo_flat1, demo_flat2], demo_extract_trace) \<and>
   demo_flat2 \<in> set [demo_flat1, demo_flat2] \<and>
   (\<exists>space list_obj src d d' sid lid cf fs.
           space_of_workspace demo_extract_world demo_self demo_extract_trace (workspace_id demo_self) space \<and> list_of_space demo_extract_world demo_self demo_extract_trace space list_obj \<and>
           task_of_list demo_extract_world demo_self demo_extract_trace list_obj src \<and> flatten_task demo_extract_world space list_obj src = Inr demo_flat2 \<and>
           src = PDict d \<and> demo_flat2 = PDict d' \<and>
           py_getitem space ''id'' = Inr sid \<and> py_getitem list_obj ''id'' = Inr lid \<and>
           py_get src ''custom_fields'' (PList []) = Inr cf \<and> py_iter cf = Inr fs \<and>
           map_of d' ''space_id'' = Some sid \<and> map_of d' ''list_id'' = Some lid \<and>
           (\<forall>i<length fs. \<exists>k j v'.
              field_key demo_extract_world (fs ! i) = Some k \<and> j < length fs \<and> field_key demo_extract_world (fs ! j) = Some k \<and>
              field_value (fs ! j) = Some v' \<and> map_of d' k = Some v') \<and>
           (\<forall>k. k \<noteq> ''space_id'' \<and> k \<noteq> ''list_id'' \<and> (\<forall>i<length fs. field_key demo_extract_world (fs ! i) \<noteq> Some k)
                 \<longrightarrow> map_of d' k = map_of d k))"
proof -
  have m: "demo_flat2 \<in> set [demo_flat1, demo_flat2]" by simp
  from flattening_overwrites_source[OF demo_fetch_tasks m] demo_fetch_tasks m show ?thesis
    by (intro conjI)
qed

section \<open>The events of a run\<close>

lemma disciplinedI:
  assumes "\<And>tr. \<exists>trn. snd (m tr) = tr @ trn \<and> (\<forall>ev\<in>set trn. P ev) \<and>
        (\<forall>ev\<in>set (butlast trn). failure ev = None) \<and>
        (\<forall>e. trn \<noteq> [] \<and> failure (last trn) = Some e \<longrightarrow> fst (m tr) = Inl e)"
  shows "disciplined P m"
  unfolding disciplined_def using assms by blast

lemma disciplinedD:
  assumes "disciplined P m"
  shows "\<exists>trn. snd (m tr) = tr @ trn \<and> (\<forall>ev\<in>set trn. P ev) \<and>
    (\<forall>ev\<in>set (butlast trn). failure ev = None) \<and>
    (\<forall>e. trn \<noteq> [] \<and> failure (last trn) = Some e \<longrightarrow> fst (m tr) = Inl e)"
  using assms unfolding disciplined_def by blast

lemma disciplined_mono:
  assumes "disciplined P m" and "\<And>ev. P ev \<Longrightarrow> Q ev"
  shows "disciplined Q m"
proof (rule disciplinedI)
  fix tr
  from disciplinedD[OF assms(1), of tr] obtain trn where
    d: "snd (m tr) = tr @ trn" "\<forall>ev\<in>set trn. P ev"
    "\<forall>ev\<in>set (butlast trn). failure ev = None"
    "\<forall>e. trn \<noteq> [] \<and> failure (last trn) = Some e \<longrightarrow> fst (m tr) = Inl e" by blast
  from d(2) assms(2) have "\<forall>ev\<in>set trn. Q ev" by blast
  with d(1,3,4) show "\<exists>trn. snd (m tr) = tr @ trn \<and> (\<forall>ev\<in>set trn. Q ev) \<and>
        (\<forall>ev\<in>set (butlast trn). failure ev = None) \<and>
        (\<forall>e. trn \<noteq> [] \<and> failure (last trn) = Some e \<longrightarrow> fst (m tr) = Inl e)" by blast
qed

lemma disciplined_silent:
  assumes "\<And>tr. snd (m tr) = tr"
  shows "disciplined P m"
proof (rule disciplinedI)
  fix tr
  have "snd (m tr) = tr @ []" using assms by simp
  then show "\<exists>trn. snd (m tr) = tr @ trn \<and> (\<forall>ev\<in>set trn. P ev) \<and>
        (\<forall>ev\<in>set (butlast trn). failure ev = None) \<and>
        (\<forall>e. trn \<noteq> [] \<and> failure (last trn) = Some e \<longrightarrow> fst (m tr) = Inl e)"
    by (intro exI[of _ "[]"]) simp
qed

lemma disciplined_return: "disciplined P (io_return x)"
  by (rule disciplined_silent) (simp add: io_return_def)

lemma disciplined_lift: "disciplined P (io_lift r)"
  by (rule disciplined_silent) (simp add: io_lift_def)

lemma disciplined_single:
  assumes "\<And>tr. \<exists>ev. snd (m tr) = tr @ [ev] \<and> P ev \<and> (\<forall>e. failure ev = Some e \<longrightarrow> fst (m tr) = Inl e)"
  shows "disciplined P m"
proof (rule disciplinedI)
  fix tr
  from assms[of tr] obtain ev where
    ev: "snd (m tr) = tr @ [ev]" "P ev" "\<forall>e. failure ev = Some e \<longrightarrow> fst (m tr) = Inl e" by blast
  then show "\<exists>trn. snd (m tr) = tr @ trn \<and> (\<forall>ev\<in>set trn. P ev) \<and>
        (\<forall>ev\<in>set (butlast trn). failure ev = None) \<and>
        (\<forall>e. trn \<noteq> [] \<and> failure (last trn) = Some e \<longrightarrow> fst (m tr) = Inl e)"
    by (intro exI[of _ "[ev]"]) simp
qed

lemma disciplined_requests_get_json:
  assumes "\<And>r. P (Http_get url (headers self) r)"
  shows "disciplined P (requests_get_json W self url)"
proof (rule disciplined_single)
  fix tr
  show "\<exists>ev. snd (requests_get_json W self url tr) = tr @ [ev] \<and> P ev \<and>
          (\<forall>e. failure ev = Some e \<longrightarrow> fst (requests_get_json W self url tr) = Inl e)"
    by (intro exI[of _ "Http_get url (headers self) (http W tr url (headers self))"])
       (simp add: requests_get_json_eq assms split: sum.splits)
qed

lemma disciplined_io_call:
  assumes "\<And>r. P (ev r)" and "\<And>r. failure (ev r) = r"
  shows "disciplined P (io_call answer ev)"
proof (rule disciplined_single)
  fix tr
  show "\<exists>ev'. snd (io_call answer ev tr) = tr @ [ev'] \<and> P ev' \<and>
          (\<forall>e. failure ev' = Some e \<longrightarrow> fst (io_call answer ev tr) = Inl e)"
    by (intro exI[of _ "ev (answer tr)"]) (simp add: io_call_eq assms)
qed

lemma disciplined_logger_info:
  assumes "P (Log INFO msg)"
  shows "disciplined P (logger_info msg)"
proof (rule disciplined_single)
  fix tr
  show "\<exists>ev. snd (logger_info msg tr) = tr @ [ev] \<and> P ev \<and>
          (\<forall>e. failure ev = Some e \<longrightarrow> fst (logger_info msg tr) = Inl e)"
    by (intro exI[of _ "Log INFO msg"]) (simp add: logger_info_def assms)
qed

lemma clean_when_last_clean:
  assumes "\<forall>ev\<in>set (butlast trn). failure ev = None"
    and "trn \<noteq> [] \<Longrightarrow> failure (last trn) = None"
  shows "\<forall>ev\<in>set trn. failure ev = None"
proof (cases trn rule: rev_cases)
  case Nil
  then show ?thesis by simp
next
  case (snoc ys y)
  with assms show ?thesis by simp
qed

lemma disciplined_bind:
  assumes m: "disciplined P m" and f: "\<And>x. disciplined P (f x)"
  shows "disciplined P (io_bind m f)"
proof (rule disciplinedI)
  fix tr
  from disciplinedD[OF m, of tr] obtain trn1 where
    d1: "snd (m tr) = tr @ trn1" "\<forall>ev\<in>set trn1. P ev"
    "\<forall>ev\<in>set (butlast trn1). failure ev = None"
    "\<forall>e. trn1 \<noteq> [] \<and> failure (last trn1) = Some e \<longrightarrow> fst (m tr) = Inl e" by blast
  show "\<exists>trn. snd (io_bind m f tr) = tr @ trn \<and> (\<forall>ev\<in>set trn. P ev) \<and>
        (\<forall>ev\<in>set (butlast trn). failure ev = None) \<and>
        (\<forall>e. trn \<noteq> [] \<and> failure (last trn) = Some e \<longrightarrow> fst (io_bind m f tr) = Inl e)"
  proof (cases "fst (m tr)")
    case (Inl e)
    then have eq: "io_bind m f tr = (Inl e, tr @ trn1)"
      using d1(1) by (cases "m tr") (simp add: io_bind_def)
    show ?thesis
      using d1 Inl unfolding eq by (intro exI[of _ trn1]) simp
  next
    case (Inr x)
    then have eq: "io_bind m f tr = f x (tr @ trn1)"
      using d1(1) by (cases "m tr") (simp add: io_bind_def)
    from disciplinedD[OF f[of x], of "tr @ trn1"] obtain trn2 where
      d2: "snd (f x (tr @ trn1)) = (tr @ trn1) @ trn2" "\<forall>ev\<in>set trn2. P ev"
      "\<forall>ev\<in>set (butlast trn2). failure ev = None"
      "\<forall>e. trn2 \<noteq> [] \<and> failure (last trn2) = Some e \<longrightarrow> fst (f x (tr @ trn1)) = Inl e" by blast
    have last1: "failure (last trn1) = None" if "trn1 \<noteq> []"
    proof (cases "failure (last trn1)")
      case None then show ?thesis .
    next
      case (Some e)
      with d1(4) that have "fst (m tr) = Inl e" by blast
      with Inr show ?thesis by simp
    qed
    have clean1: "\<forall>ev\<in>set trn1. failure ev = None"
      by (rule clean_when_last_clean[OF d1(3) last1])
    have a: "snd (io_bind m f tr) = tr @ (trn1 @ trn2)" using eq d2(1) by simp
    have b: "\<forall>ev\<in>set (trn1 @ trn2). P ev" using d1(2) d2(2) by auto
    have c: "\<forall>ev\<in>set (butlast (trn1 @ trn2)). failure ev = None"
    proof (cases "trn2 = []")
      case True
      then show ?thesis using d1(3) by simp
    next
      case False
      then have "butlast (trn1 @ trn2) = trn1 @ butlast trn2" by (simp add: butlast_append)
      then show ?thesis using clean1 d2(3) by auto
    qed
    have d: "\<forall>e. trn1 @ trn2 \<noteq> [] \<and> failure (last (trn1 @ trn2)) = Some e \<longrightarrow> fst (io_bind m f tr) = Inl e"
    proof (cases "trn2 = []")
      case True
      then show ?thesis using last1 by auto
    next
      case False
      then show ?thesis using d2(4) eq by simp
    qed
    from a b c d show ?thesis by blast
  qed
qed

lemma disciplined_lists_loop:
  "disciplined (extractor_request W self wid) (lists_loop W self space ls acc)"
proof (induction ls arbitrary: acc)
  case Nil
  show ?case by (simp add: disciplined_return)
next
  case (Cons l ls)
  have req: "\<And>lid r. extractor_request W self wid (Http_get (tasks_url W self lid) (headers self) r)"
    unfolding extractor_request_def by blast
  show ?case unfolding lists_loop.simps
    by (intro disciplined_bind disciplined_lift disciplined_requests_get_json req Cons.IH)
qed

lemma disciplined_spaces_loop:
  "disciplined (extractor_request W self wid) (spaces_loop W self ss acc)"
proof (induction ss arbitrary: acc)
  case Nil
  show ?case by (simp add: disciplined_return)
next
  case (Cons s ss)
  have req: "\<And>sid r. extractor_request W self wid (Http_get (lists_url W self sid) (headers self) r)"
    unfolding extractor_request_def by blast
  show ?case unfolding spaces_loop.simps
    by (intro disciplined_bind disciplined_lift disciplined_requests_get_json req
          disciplined_lists_loop Cons.IH)
qed

lemma disciplined_fetch_tasks:
  "disciplined (extractor_request W self wid) (fetch_tasks W self wid)"
proof -
  have req: "\<And>r. extractor_request W self wid (Http_get (spaces_url W self wid) (headers self) r)"
    unfolding extractor_request_def by blast
  show ?thesis unfolding fetch_tasks_def
    by (intro disciplined_bind disciplined_lift disciplined_requests_get_json req
          disciplined_spaces_loop)
qed

lemma disciplined_create_tables:
  "disciplined (schema_event W self) (create_tables_if_not_exist W self)"
proof -
  have req: "\<And>r. schema_event W self (Http_get (custom_fields_url W self (workspace_id self)) (headers self) r)"
    unfolding schema_event_def by blast
  have cr: "\<And>sch r. schema_event W self
              (Create_table \<lparr> table_reference = tasks_table_ref, table_schema = sch \<rparr> True r)"
    unfolding schema_event_def by simp
  have fl: "\<And>t b r. failure (Create_table t b r) = r" by simp
  show ?thesis unfolding create_tables_if_not_exist_def fetch_custom_fields_def Let_def
    by (intro disciplined_bind disciplined_lift disciplined_requests_get_json req
          disciplined_io_call cr fl)
qed

lemma disciplined_load_tasks:
  "disciplined (loader_event tasks) (load_tasks W tasks)"
proof -
  have a: "\<And>r. loader_event tasks
             (Load_table_from_json tasks tasks_table_ref \<lparr> write_disposition = Some WRITE_TRUNCATE \<rparr> r)"
    unfolding loader_event_def by blast
  have b: "\<And>r. loader_event tasks (Job_result r)"
    unfolding loader_event_def by blast
  have c: "loader_event tasks (Log INFO (''Loaded '' @ decimal (length tasks) @ '' tasks to BigQuery''))"
    unfolding loader_event_def by blast
  have fl: "\<And>rows t c r. failure (Load_table_from_json rows t c r) = r" "\<And>r. failure (Job_result r) = r"
    by simp_all
  show ?thesis unfolding load_tasks_def Let_def
    by (intro disciplined_bind disciplined_io_call disciplined_logger_info a b c fl)
qed

lemma disciplined_if:
  "disciplined P a \<Longrightarrow> disciplined P b \<Longrightarrow> disciplined P (if c then a else b)"
  by simp

lemma disciplined_sync_body: "disciplined (sync_event W self) (sync_body W self)"
proof -
  have a: "sync_event W self (Log INFO ''Starting ClickUp to BigQuery sync'')"
    unfolding sync_event_def by blast
  have b: "disciplined (sync_event W self) (create_tables_if_not_exist W self)"
    by (rule disciplined_mono[OF disciplined_create_tables]) (simp add: sync_event_def)
  have c: "disciplined (sync_event W self) (fetch_tasks W self (workspace_id self))"
    by (rule disciplined_mono[OF disciplined_fetch_tasks]) (simp add: sync_event_def)
  have d: "disciplined (sync_event W self) (if tasks \<noteq> [] then load_tasks W tasks else io_return ())"
    for tasks
  proof (cases "tasks \<noteq> []")
    case True
    have "disciplined (sync_event W self) (load_tasks W tasks)"
      by (rule disciplined_mono[OF disciplined_load_tasks]) (use True in \<open>auto simp: sync_event_def\<close>)
    with True show ?thesis by simp
  next
    case False
    then show ?thesis by (simp add: disciplined_return)
  qed
  have e: "sync_event W self (Log INFO ''Sync completed successfully'')"
    unfolding sync_event_def by blast
  show ?thesis unfolding sync_body_def
    by (intro disciplined_bind disciplined_logger_info a b c d e)
qed

lemma sync_data_eq:
  "sync_data W self tr =
     (case fst (sync_body W self tr) of
        Inr u \<Rightarrow> (Inr u, snd (sync_body W self tr))
      | Inl e \<Rightarrow> (Inl e, snd (sync_body W self tr) @ [Log ERROR (''Error during sync: '' @ exn_str e)]))"
  by (simp add: sync_data_def split: prod.splits sum.splits)

lemma sync_data_failures:
  "\<exists>trn. snd (sync_data W self tr) = tr @ trn \<and>
     (\<forall>ev\<in>set (butlast trn). sync_event W self ev) \<and>
     (\<forall>i e. i < length trn \<and> failure (trn ! i) = Some e \<longrightarrow>
        fst (sync_data W self tr) = Inl e \<and> Suc (Suc i) = length trn \<and>
        trn ! Suc i = Log ERROR (''Error during sync: '' @ exn_str e)) \<and>
     (\<forall>e. fst (sync_data W self tr) = Inl e \<longrightarrow>
        trn \<noteq> [] \<and> last trn = Log ERROR (''Error during sync: '' @ exn_str e)) \<and>
     (\<forall>u. fst (sync_data W self tr) = Inr u \<longrightarrow> (\<forall>ev\<in>set trn. failure ev = None \<and> sync_event W self ev))"
proof -
  from disciplinedD[OF disciplined_sync_body, of W self tr] obtain trb where
    d: "snd (sync_body W self tr) = tr @ trb" "\<forall>ev\<in>set trb. sync_event W self ev"
       "\<forall>ev\<in>set (butlast trb). failure ev = None"
       "\<forall>e. trb \<noteq> [] \<and> failure (last trb) = Some e \<longrightarrow> fst (sync_body W self tr) = Inl e"
    by blast
  show ?thesis
  proof (cases "fst (sync_body W self tr)")
    case (Inr u)
    then have eq: "sync_data W self tr = (Inr u, tr @ trb)"
      using d(1) by (simp add: sync_data_eq)
    have last1: "failure (last trb) = None" if "trb \<noteq> []"
    proof (cases "failure (last trb)")
      case None then show ?thesis .
    next
      case (Some e)
      with d(4) that have "fst (sync_body W self tr) = Inl e" by blast
      with Inr show ?thesis by simp
    qed
    have clean: "\<forall>ev\<in>set trb. failure ev = None"
      by (rule clean_when_last_clean[OF d(3) last1])
    have a: "snd (sync_data W self tr) = tr @ trb" using eq by simp
    have b: "\<forall>ev\<in>set (butlast trb). sync_event W self ev"
      using d(2) by (meson in_set_butlastD)
    have c: "\<forall>i e. i < length trb \<and> failure (trb ! i) = Some e \<longrightarrow>
        fst (sync_data W self tr) = Inl e \<and> Suc (Suc i) = length trb \<and>
        trb ! Suc i = Log ERROR (''Error during sync: '' @ exn_str e)"
      using clean by (metis nth_mem option.distinct(1))
    have e: "\<forall>e. fst (sync_data W self tr) = Inl e \<longrightarrow>
        trb \<noteq> [] \<and> last trb = Log ERROR (''Error during sync: '' @ exn_str e)"
      using eq by simp
    have f: "\<forall>u. fst (sync_data W self tr) = Inr u \<longrightarrow> (\<forall>ev\<in>set trb. failure ev = None \<and> sync_event W self ev)"
      using clean d(2) by blast
    from a b c e f show ?thesis by blast
  next
    case (Inl e)
    define lg where "lg = Log ERROR (''Error during sync: '' @ exn_str e)"
    have eq: "sync_data W self tr = (Inl e, tr @ (trb @ [lg]))"
      using Inl d(1) by (simp add: sync_data_eq lg_def)
    have a: "snd (sync_data W self tr) = tr @ (trb @ [lg])" using eq by simp
    have b: "\<forall>ev\<in>set (butlast (trb @ [lg])). sync_event W self ev"
      using d(2) by simp
    have c: "\<forall>i e'. i < length (trb @ [lg]) \<and> failure ((trb @ [lg]) ! i) = Some e' \<longrightarrow>
        fst (sync_data W self tr) = Inl e' \<and> Suc (Suc i) = length (trb @ [lg]) \<and>
        (trb @ [lg]) ! Suc i = Log ERROR (''Error during sync: '' @ exn_str e')"
    proof (intro allI impI)
      fix i e' assume h: "i < length (trb @ [lg]) \<and> failure ((trb @ [lg]) ! i) = Some e'"
      have "i \<noteq> length trb"
      proof
        assume "i = length trb"
        then have "(trb @ [lg]) ! i = lg" by simp
        with h show False by (simp add: lg_def)
      qed
      with h have i: "i < length trb" by simp
      then have nth: "(trb @ [lg]) ! i = trb ! i" by (simp add: nth_append)
      with h have fi: "failure (trb ! i) = Some e'" by simp
      have ne: "trb \<noteq> []" using i by auto
      have il: "Suc i = length trb"
      proof (rule ccontr)
        assume "Suc i \<noteq> length trb"
        with i have "i < length (butlast trb)" by simp
        then have "trb ! i \<in> set (butlast trb)"
          by (metis nth_butlast nth_mem)
        with d(3) fi show False by simp
      qed
      then have "i = length trb - 1" by simp
      then have "last trb = trb ! i" using last_conv_nth[OF ne] by simp
      with fi d(4) ne have "fst (sync_body W self tr) = Inl e'" by simp
      with Inl have ee: "e' = e" by simp
      show "fst (sync_data W self tr) = Inl e' \<and> Suc (Suc i) = length (trb @ [lg]) \<and>
        (trb @ [lg]) ! Suc i = Log ERROR (''Error during sync: '' @ exn_str e')"
        using eq ee il by (simp add: lg_def)
    qed
    have e: "\<forall>e'. fst (sync_data W self tr) = Inl e' \<longrightarrow>
        trb @ [lg] \<noteq> [] \<and> last (trb @ [lg]) = Log ERROR (''Error during sync: '' @ exn_str e')"
      using eq by (simp add: lg_def)
    have f: "\<forall>u. fst (sync_data W self tr) = Inr u \<longrightarrow>
        (\<forall>ev\<in>set (trb @ [lg]). failure ev = None \<and> sync_event W self ev)"
      using eq by simp
    from a b c e f show ?thesis by blast
  qed
qed

lemma sync_data_create_fails:
  assumes "create_tables_if_not_exist W self (tr @ [Log INFO ''Starting ClickUp to BigQuery sync'']) = (Inl e, tr1)"
  shows "sync_data W self tr = (Inl e, tr1 @ [Log ERROR (''Error during sync: '' @ exn_str e)])"
  using assms by (simp add: sync_data_def sync_body_def io_bind_def logger_info_def)

lemma sync_data_fetch_fails:
  assumes "create_tables_if_not_exist W self (tr @ [Log INFO ''Starting ClickUp to BigQuery sync'']) = (Inr (), tr1)"
    and "fetch_tasks W self (workspace_id self) tr1 = (Inl e, tr2)"
  shows "sync_data W self tr = (Inl e, tr2 @ [Log ERROR (''Error during sync: '' @ exn_str e)])"
  using assms by (simp add: sync_data_def sync_body_def io_bind_def logger_info_def)

lemma sync_data_no_tasks:
  assumes "create_tables_if_not_exist W self (tr @ [Log INFO ''Starting ClickUp to BigQuery sync'']) = (Inr (), tr1)"
    and "fetch_tasks W self (workspace_id self) tr1 = (Inr [], tr2)"
  shows "sync_data W self tr = (Inr (), tr2 @ [Log INFO ''Sync completed successfully''])"
  using assms by (simp add: sync_data_def sync_body_def io_bind_def logger_info_def io_return_def)

lemma sync_data_with_tasks:
  assumes "create_tables_if_not_exist W self (tr @ [Log INFO ''Starting ClickUp to BigQuery sync'']) = (Inr (), tr1)"
    and "fetch_tasks W self (workspace_id self) tr1 = (Inr tasks, tr2)"
    and "tasks \<noteq> []"
  shows "sync_data W self tr =
          (case fst (load_tasks W tasks tr2) of
             Inl e \<Rightarrow> (Inl e, snd (load_tasks W tasks tr2) @ [Log ERROR (''Error during sync: '' @ exn_str e)])
           | Inr u \<Rightarrow> (Inr (), snd (load_tasks W tasks tr2) @ [Log INFO ''Sync completed successfully'']))"
  using assms
  by (simp add: sync_data_def sync_body_def io_bind_def logger_info_def split: prod.splits sum.splits)

lemma load_tasks_eq:
  "load_tasks W tasks tr =
     (case load_table_from_json W tr tasks tasks_table_ref \<lparr> write_disposition = Some WRITE_TRUNCATE \<rparr> of
        Some e \<Rightarrow>
          (Inl e, tr @ [Load_table_from_json tasks tasks_table_ref
                          \<lparr> write_disposition = Some WRITE_TRUNCATE \<rparr> (Some e)])
      | None \<Rightarrow>
          (case job_result W (tr @ [Load_table_from_json tasks tasks_table_ref
                                      \<lparr> write_disposition = Some WRITE_TRUNCATE \<rparr> None]) of
             Some e \<Rightarrow>
               (Inl e, tr @ [Load_table_from_json tasks tasks_table_ref
                               \<lparr> write_disposition = Some WRITE_TRUNCATE \<rparr> None,
                             Job_result (Some e)])
           | None \<Rightarrow>
               (Inr (), tr @ [Load_table_from_json tasks tasks_table_ref
                               \<lparr> write_disposition = Some WRITE_TRUNCATE \<rparr> None,
                             Job_result None,
                             Log INFO (''Loaded '' @ decimal (length tasks) @ '' tasks to BigQuery'')])))"
  by (simp add: load_tasks_def Let_def io_bind_def io_call_eq logger_info_def split: option.splits)

lemma create_tables_Inr:
  assumes "create_tables_if_not_exist W self tr = (Inr u, tr1)"
  shows "\<exists>body t. tr1 = tr @ [Http_get (custom_fields_url W self (workspace_id self)) (headers self) (Inr body),
                              Create_table t True None] \<and>
                  table_reference t = tasks_table_ref"
proof -
  from assms obtain body cf fs sch where
    body: "http W tr (custom_fields_url W self (workspace_id self)) (headers self) = Inr body" and
    call: "io_call (\<lambda>t. create_table W t \<lparr> table_reference = tasks_table_ref, table_schema = sch \<rparr> True)
             (Create_table \<lparr> table_reference = tasks_table_ref, table_schema = sch \<rparr> True)
             (tr @ [Http_get (custom_fields_url W self (workspace_id self)) (headers self) (Inr body)])
           = (Inr u, tr1)"
    unfolding create_tables_if_not_exist_def fetch_custom_fields_def Let_def
    by (auto simp: io_bind_eq_Inr io_lift_eq requests_get_json_eq_Inr)
  define t where "t = \<lparr> table_reference = tasks_table_ref, table_schema = sch \<rparr>"
  from call have "tr1 = tr @ [Http_get (custom_fields_url W self (workspace_id self)) (headers self) (Inr body),
                              Create_table t True None]"
    unfolding t_def[symmetric] by (simp add: io_call_eq split: option.splits)
  moreover have "table_reference t = tasks_table_ref" by (simp add: t_def)
  ultimately show ?thesis by blast
qed

lemma extractor_request_kinds:
  "extractor_request W self wid ev \<Longrightarrow> \<not> is_load ev \<and> \<not> is_warehouse_call ev \<and> \<not> is_log ev"
  unfolding extractor_request_def by auto

lemma fetch_tasks_events:
  "\<exists>reqs. snd (fetch_tasks W self wid tr) = tr @ reqs \<and> (\<forall>ev\<in>set reqs. extractor_request W self wid ev)"
  using disciplinedD[OF disciplined_fetch_tasks, of W self wid tr] by blast

lemma demo_create_tables:
  "create_tables_if_not_exist (scripted_world (Inr demo_definitions_body # rest)) demo_self
     ([] @ [Log INFO ''Starting ClickUp to BigQuery sync'']) = (Inr (), demo_schema_trace)"
  by (simp add: create_tables_if_not_exist_def fetch_custom_fields_def custom_fields_url_def
        io_bind_def requests_get_json_def Let_def io_lift_def demo_definitions_body_def
        demo_definitions_def io_call_def demo_schema_trace_def demo_schema_def)

lemma http_calls_demo_schema_trace [simp]: "http_calls demo_schema_trace = 1"
  by (simp add: demo_schema_trace_def)

lemma http_calls_append [simp]: "http_calls (tr @ tr') = http_calls tr + http_calls tr'"
  by (simp add: http_calls_def)

lemma demo_sync_fetch_tasks:
  "fetch_tasks demo_sync_world demo_self (workspace_id demo_self) demo_schema_trace =
     (Inr [demo_flat1, demo_flat2], demo_schema_trace @ demo_extract_trace)"
  by (simp add: fetch_tasks_def demo_sync_world_def io_bind_def requests_get_json_def
        io_lift_def io_return_def spaces_url_def lists_url_def tasks_url_def
        demo_spaces_body_def demo_lists_body_def demo_tasks_body_def demo_task1_def demo_task2_def
        flatten_task_def demo_flat1_def demo_flat2_def demo_extract_trace_def Let_def)

lemma empty_sync_fetch_tasks:
  "fetch_tasks empty_sync_world demo_self (workspace_id demo_self) demo_schema_trace =
     (Inr [], demo_schema_trace @
        [Http_get ''https://api.clickup.com/api/v2/team/9001/space'' demo_headers (Inr no_spaces_body)])"
  by (simp add: fetch_tasks_def empty_sync_world_def io_bind_def requests_get_json_def
        io_lift_def io_return_def spaces_url_def no_spaces_body_def Let_def)

section \<open>Where the stages raise\<close>

lemma read_collection_eq_Inr:
  "read_collection body key = Inr xs \<longleftrightarrow>
     (\<exists>c. py_get body key (PList []) = Inr c \<and> py_iter c = Inr xs)"
  by (simp add: read_collection_def ebind_eq_Inr)

lemma read_collection_Inr_dict: "read_collection body key = Inr xs \<Longrightarrow> \<exists>d. body = PDict d"
  unfolding read_collection_eq_Inr using py_get_Inr_dict by blast

lemma flatten_fields_append:
  "flatten_fields W (xs @ ys) t = ebind (flatten_fields W xs t) (flatten_fields W ys)"
proof (induction xs arbitrary: t)
  case Nil
  then show ?case by simp
next
  case (Cons f xs)
  show ?case
  proof (cases "py_get f ''value'' PNone")
    case (Inl e) then show ?thesis by simp
  next
    case v: (Inr v)
    show ?thesis
    proof (cases "py_getitem f ''id''")
      case (Inl e) then show ?thesis using v by simp
    next
      case fid: (Inr fid)
      show ?thesis
      proof (cases "py_setitem t (''custom_field_'' @ py_str (str_other W) fid) v")
        case (Inl e) then show ?thesis using v fid by simp
      next
        case (Inr t') then show ?thesis using v fid Cons.IH by simp
      qed
    qed
  qed
qed

lemma entry_raises_flatten_fields:
  assumes "entry_raises f e"
  shows "flatten_fields W (f # post) t = Inl e"
proof -
  from assms consider (a) "py_get f ''value'' PNone = Inl e"
    | (b) v where "py_get f ''value'' PNone = Inr v" "py_getitem f ''id'' = Inl e"
    unfolding entry_raises_def by (elim disjE conjE exE)
  then show ?thesis
  proof cases
    case a then show ?thesis by simp
  next
    case b then show ?thesis by simp
  qed
qed

lemma flatten_fields_raises:
  assumes "flatten_fields W pre t = Inr t1" and "entry_raises f e"
  shows "flatten_fields W (pre @ f # post) t = Inl e"
  unfolding flatten_fields_append assms(1) ebind_simps
  by (rule entry_raises_flatten_fields[OF assms(2)])

lemma flatten_fields_Inl:
  "flatten_fields W fs (PDict d) = Inl e \<Longrightarrow>
   \<exists>pre f post t1. fs = pre @ f # post \<and> flatten_fields W pre (PDict d) = Inr t1 \<and> entry_raises f e"
proof (induction fs arbitrary: d)
  case Nil
  then show ?case by simp
next
  case (Cons f fs)
  show ?case
  proof (cases "py_get f ''value'' PNone")
    case (Inl e')
    with Cons.prems have "e' = e" by simp
    with Inl have r: "entry_raises f e" unfolding entry_raises_def by simp
    have "f # fs = [] @ f # fs \<and> flatten_fields W [] (PDict d) = Inr (PDict d) \<and> entry_raises f e"
      using r by simp
    then show ?thesis by (intro exI)
  next
    case v: (Inr v)
    show ?thesis
    proof (cases "py_getitem f ''id''")
      case (Inl e')
      with Cons.prems v have "e' = e" by simp
      with Inl v have r: "entry_raises f e" unfolding entry_raises_def by simp
      have "f # fs = [] @ f # fs \<and> flatten_fields W [] (PDict d) = Inr (PDict d) \<and> entry_raises f e"
        using r by simp
      then show ?thesis by (intro exI)
    next
      case fid: (Inr fid)
      define d' where "d' = dict_set d (''custom_field_'' @ py_str (str_other W) fid) v"
      have step: "flatten_fields W (f # xs) (PDict d) = flatten_fields W xs (PDict d')" for xs
        using v fid by (simp add: d'_def)
      from Cons.prems have "flatten_fields W fs (PDict d') = Inl e" unfolding step .
      from Cons.IH[OF this] obtain pre g post t1 where
        fs: "fs = pre @ g # post" and p: "flatten_fields W pre (PDict d') = Inr t1" and
        r: "entry_raises g e" by (elim exE conjE)
      have "f # fs = (f # pre) @ g # post \<and> flatten_fields W (f # pre) (PDict d) = Inr t1 \<and>
            entry_raises g e"
        unfolding step using fs p r by simp
      then show ?thesis by (intro exI)
    qed
  qed
qed

lemma task_raises_flatten_task:
  assumes "task_raises W task e"
  shows "flatten_task W space list_obj task = Inl e"
proof -
  from assms consider (a) "read_collection task ''custom_fields'' = Inl e"
    | (b) pre f post task1 where "read_collection task ''custom_fields'' = Inr (pre @ f # post)"
        "flatten_fields W pre task = Inr task1" "entry_raises f e"
    unfolding task_raises_def by (elim disjE conjE exE)
  then show ?thesis
  proof cases
    case a
    then show ?thesis
      unfolding flatten_task_def read_collection_def
      by (cases "py_get task ''custom_fields'' (PList [])") simp_all
  next
    case b
    from b(1) obtain cf where cf: "py_get task ''custom_fields'' (PList []) = Inr cf"
      "py_iter cf = Inr (pre @ f # post)" unfolding read_collection_eq_Inr by (elim exE conjE)
    show ?thesis
      unfolding flatten_task_def by (simp add: cf flatten_fields_raises[OF b(2,3)])
  qed
qed

lemma flatten_task_Inl:
  assumes "flatten_task W space list_obj task = Inl e"
    and sid: "py_getitem space ''id'' = Inr sid" and lid: "py_getitem list_obj ''id'' = Inr lid"
  shows "task_raises W task e"
proof (cases "read_collection task ''custom_fields''")
  case (Inl e')
  then have "flatten_task W space list_obj task = Inl e'"
    unfolding flatten_task_def read_collection_def
    by (cases "py_get task ''custom_fields'' (PList [])") simp_all
  with assms(1) have "e' = e" by simp
  with Inl show ?thesis unfolding task_raises_def by simp
next
  case (Inr fs)
  then obtain cf where cf: "py_get task ''custom_fields'' (PList []) = Inr cf" "py_iter cf = Inr fs"
    unfolding read_collection_eq_Inr by (elim exE conjE)
  from py_get_Inr_dict[OF cf(1)] obtain d where d: "task = PDict d" ..
  show ?thesis
  proof (cases "flatten_fields W fs task")
    case (Inl e')
    then have "flatten_task W space list_obj task = Inl e'"
      unfolding flatten_task_def by (simp add: cf)
    with assms(1) have "e' = e" by simp
    with Inl have "flatten_fields W fs (PDict d) = Inl e" unfolding d by simp
    from flatten_fields_Inl[OF this] obtain pre f post t1 where
      fs: "fs = pre @ f # post" and p: "flatten_fields W pre task = Inr t1" and r: "entry_raises f e"
      unfolding d by (elim exE conjE)
    have "read_collection task ''custom_fields'' = Inr (pre @ f # post) \<and>
          flatten_fields W pre task = Inr t1 \<and> entry_raises f e"
      using Inr fs p r by simp
    then show ?thesis unfolding task_raises_def by (intro disjI2 exI)
  next
    case t1: (Inr task1)
    from flatten_fields_Inr[OF t1[unfolded d]] obtain kvs where
      "task1 = PDict (dict_set_all d kvs)" by (elim exE conjE)
    then have "\<exists>t. flatten_task W space list_obj task = Inr t"
      unfolding flatten_task_def using t1 by (simp add: cf sid lid)
    with assms(1) show ?thesis by simp
  qed
qed

lemma tasks_loop_append:
  "tasks_loop W space list_obj (xs @ ys) acc =
     ebind (tasks_loop W space list_obj xs acc) (tasks_loop W space list_obj ys)"
proof (induction xs arbitrary: acc)
  case Nil
  then show ?case by simp
next
  case (Cons t xs)
  show ?case
    by (cases "flatten_task W space list_obj t") (simp_all add: Cons.IH)
qed

lemma tasks_loop_raises:
  assumes "tasks_loop W space list_obj pre acc = Inr acc1" and "task_raises W task e"
  shows "tasks_loop W space list_obj (pre @ task # post) acc = Inl e"
  by (simp add: tasks_loop_append assms(1) task_raises_flatten_task[OF assms(2)])

lemma tasks_loop_Inl:
  assumes sid: "py_getitem space ''id'' = Inr sid" and lid: "py_getitem list_obj ''id'' = Inr lid"
  shows "tasks_loop W space list_obj ts acc = Inl e \<Longrightarrow>
         \<exists>pre task post acc1. ts = pre @ task # post \<and>
            tasks_loop W space list_obj pre acc = Inr acc1 \<and> task_raises W task e"
proof (induction ts arbitrary: acc)
  case Nil
  then show ?case by simp
next
  case (Cons t ts)
  show ?case
  proof (cases "flatten_task W space list_obj t")
    case (Inl e')
    with Cons.prems have "e' = e" by simp
    with Inl have "task_raises W t e" using flatten_task_Inl[OF _ sid lid] by simp
    then have "t # ts = [] @ t # ts \<and> tasks_loop W space list_obj [] acc = Inr acc \<and> task_raises W t e"
      by simp
    then show ?thesis by (intro exI)
  next
    case (Inr t')
    then have step: "tasks_loop W space list_obj (t # xs) acc = tasks_loop W space list_obj xs (acc @ [t'])" for xs
      by simp
    from Cons.prems have "tasks_loop W space list_obj ts (acc @ [t']) = Inl e" unfolding step .
    from Cons.IH[OF this] obtain pre task post acc1 where
      ts: "ts = pre @ task # post" and p: "tasks_loop W space list_obj pre (acc @ [t']) = Inr acc1"
      and r: "task_raises W task e" by (elim exE conjE)
    have "t # ts = (t # pre) @ task # post \<and> tasks_loop W space list_obj (t # pre) acc = Inr acc1 \<and>
          task_raises W task e"
      unfolding step using ts p r by simp
    then show ?thesis by (intro exI)
  qed
qed

lemma lists_loop_Cons:
  "lists_loop W self space (l # rest) acc tr =
    (case py_getitem l ''id'' of
       Inl e \<Rightarrow> (Inl e, tr)
     | Inr lid \<Rightarrow>
        (case http W tr (tasks_url W self lid) (headers self) of
           Inl e \<Rightarrow> (Inl e, tr @ [Http_get (tasks_url W self lid) (headers self) (Inl e)])
         | Inr body \<Rightarrow>
            (case read_collection body ''tasks'' of
               Inl e \<Rightarrow> (Inl e, tr @ [Http_get (tasks_url W self lid) (headers self) (Inr body)])
             | Inr ts \<Rightarrow>
                (case tasks_loop W space l ts acc of
                   Inl e \<Rightarrow> (Inl e, tr @ [Http_get (tasks_url W self lid) (headers self) (Inr body)])
                 | Inr acc' \<Rightarrow>
                     lists_loop W self space rest acc'
                       (tr @ [Http_get (tasks_url W self lid) (headers self) (Inr body)])))))"
  by (simp add: io_bind_def io_lift_def requests_get_json_eq read_collection_def ebind_def
        split: sum.splits)

lemma lists_loop_Nil: "lists_loop W self space [] acc tr = (Inr acc, tr)"
  by (simp add: io_return_def)

lemma lists_loop_append:
  "lists_loop W self space (xs @ ys) acc tr =
     (case lists_loop W self space xs acc tr of
        (Inl e, tr1) \<Rightarrow> (Inl e, tr1)
      | (Inr acc1, tr1) \<Rightarrow> lists_loop W self space ys acc1 tr1)"
proof (induction xs arbitrary: acc tr)
  case Nil
  show ?case by (simp add: io_return_def)
next
  case (Cons l xs)
  show ?case
    unfolding append_Cons lists_loop_Cons
    by (simp add: Cons.IH split: sum.splits)
qed

lemma list_raises_lists_loop:
  assumes "list_raises W self space l acc tr e tr'"
  shows "lists_loop W self space (l # rest) acc tr = (Inl e, tr')"
proof -
  from assms consider
      (a) "py_getitem l ''id'' = Inl e" "tr' = tr"
    | (b) lid where "py_getitem l ''id'' = Inr lid"
        "http W tr (tasks_url W self lid) (headers self) = Inl e"
        "tr' = tr @ [Http_get (tasks_url W self lid) (headers self) (Inl e)]"
    | (c) lid body where "py_getitem l ''id'' = Inr lid"
        "http W tr (tasks_url W self lid) (headers self) = Inr body"
        "tr' = tr @ [Http_get (tasks_url W self lid) (headers self) (Inr body)]"
        "read_collection body ''tasks'' = Inl e"
    | (d) lid body pre task post tasks1 where "py_getitem l ''id'' = Inr lid"
        "http W tr (tasks_url W self lid) (headers self) = Inr body"
        "tr' = tr @ [Http_get (tasks_url W self lid) (headers self) (Inr body)]"
        "read_collection body ''tasks'' = Inr (pre @ task # post)"
        "tasks_loop W space l pre acc = Inr tasks1" "task_raises W task e"
    unfolding list_raises_def by (elim disjE conjE exE) simp_all
  then show ?thesis
  proof cases
    case a then show ?thesis unfolding lists_loop_Cons by simp
  next
    case b then show ?thesis unfolding lists_loop_Cons by simp
  next
    case c then show ?thesis unfolding lists_loop_Cons by simp
  next
    case d
    note t = tasks_loop_raises[OF d(5,6), of post]
    show ?thesis unfolding lists_loop_Cons by (simp add: d(1-4) t)
  qed
qed

lemma lists_loop_raises:
  assumes "lists_loop W self space pre acc tr = (Inr acc1, tr1)"
    and "list_raises W self space l acc1 tr1 e tr'"
  shows "lists_loop W self space (pre @ l # post) acc tr = (Inl e, tr')"
  unfolding lists_loop_append assms(1) using list_raises_lists_loop[OF assms(2)] by simp

lemma lists_loop_Cons_Inl:
  assumes sid: "py_getitem space ''id'' = Inr sid"
    and run: "lists_loop W self space (l # rest) acc tr = (Inl e, tr')"
  shows "list_raises W self space l acc tr e tr' \<or>
         (\<exists>acc1 tr1. lists_loop W self space [l] acc tr = (Inr acc1, tr1) \<and>
            lists_loop W self space rest acc1 tr1 = (Inl e, tr'))"
proof (cases "py_getitem l ''id''")
  case (Inl e')
  with run have "e' = e" "tr' = tr" unfolding lists_loop_Cons by auto
  with Inl show ?thesis unfolding list_raises_def by simp
next
  case lid: (Inr lid)
  show ?thesis
  proof (cases "http W tr (tasks_url W self lid) (headers self)")
    case (Inl e')
    with run lid have "e' = e" "tr' = tr @ [Http_get (tasks_url W self lid) (headers self) (Inl e')]"
      unfolding lists_loop_Cons by auto
    with Inl lid show ?thesis unfolding list_raises_def by simp
  next
    case body: (Inr body)
    define tr0 where "tr0 = tr @ [Http_get (tasks_url W self lid) (headers self) (Inr body)]"
    show ?thesis
    proof (cases "read_collection body ''tasks''")
      case (Inl e')
      with run lid body have "e' = e" "tr' = tr0"
        unfolding lists_loop_Cons tr0_def by auto
      with Inl lid body show ?thesis unfolding list_raises_def tr0_def by simp
    next
      case ts: (Inr ts)
      show ?thesis
      proof (cases "tasks_loop W space l ts acc")
        case (Inl e')
        with run lid body ts have e: "e' = e" and tr': "tr' = tr0"
          unfolding lists_loop_Cons tr0_def by auto
        from tasks_loop_Inl[OF sid lid Inl[unfolded e]] obtain pre task post acc1 where
          p: "ts = pre @ task # post" "tasks_loop W space l pre acc = Inr acc1" "task_raises W task e"
          by (elim exE conjE)
        have "\<exists>pre task post tasks1.
                read_collection body ''tasks'' = Inr (pre @ task # post) \<and>
                tasks_loop W space l pre acc = Inr tasks1 \<and> task_raises W task e"
          using ts p by (intro exI[of _ pre] exI[of _ task] exI[of _ post] exI[of _ acc1]) simp
        then show ?thesis unfolding list_raises_def using lid body tr' tr0_def by simp
      next
        case acc': (Inr acc')
        have one: "lists_loop W self space [l] acc tr = (Inr acc', tr0)"
          unfolding lists_loop_Cons tr0_def by (simp add: lid body ts acc' io_return_def)
        have "lists_loop W self space rest acc' tr0 = (Inl e, tr')"
          using run unfolding lists_loop_Cons tr0_def by (simp add: lid body ts acc')
        with one show ?thesis by blast
      qed
    qed
  qed
qed

lemma lists_loop_Inl:
  assumes sid: "py_getitem space ''id'' = Inr sid"
  shows "lists_loop W self space ls acc tr = (Inl e, tr') \<Longrightarrow>
         \<exists>pre l post acc1 tr1. ls = pre @ l # post \<and>
            lists_loop W self space pre acc tr = (Inr acc1, tr1) \<and>
            list_raises W self space l acc1 tr1 e tr'"
proof (induction ls arbitrary: acc tr)
  case Nil
  then show ?case by (simp add: io_return_def)
next
  case (Cons l ls)
  from lists_loop_Cons_Inl[OF sid Cons.prems]
  show ?case
  proof
    assume r: "list_raises W self space l acc tr e tr'"
    have "l # ls = [] @ l # ls \<and> lists_loop W self space [] acc tr = (Inr acc, tr) \<and>
          list_raises W self space l acc tr e tr'"
      using r by (simp add: io_return_def)
    then show ?thesis by (intro exI)
  next
    assume "\<exists>acc1 tr1. lists_loop W self space [l] acc tr = (Inr acc1, tr1) \<and>
              lists_loop W self space ls acc1 tr1 = (Inl e, tr')"
    then obtain acc1 tr1 where one: "lists_loop W self space [l] acc tr = (Inr acc1, tr1)"
      and rest: "lists_loop W self space ls acc1 tr1 = (Inl e, tr')" by (elim exE conjE)
    from Cons.IH[OF rest] obtain pre l' post acc2 tr2 where
      ls: "ls = pre @ l' # post" and p: "lists_loop W self space pre acc1 tr1 = (Inr acc2, tr2)"
      and r: "list_raises W self space l' acc2 tr2 e tr'" by (elim exE conjE)
    have "lists_loop W self space ([l] @ pre) acc tr = (Inr acc2, tr2)"
      unfolding lists_loop_append one using p by simp
    then have "l # ls = (l # pre) @ l' # post \<and>
          lists_loop W self space (l # pre) acc tr = (Inr acc2, tr2) \<and>
          list_raises W self space l' acc2 tr2 e tr'"
      using ls r by simp
    then show ?thesis by (intro exI)
  qed
qed

lemma spaces_loop_Cons:
  "spaces_loop W self (s # rest) acc tr =
    (case py_getitem s ''id'' of
       Inl e \<Rightarrow> (Inl e, tr)
     | Inr sid \<Rightarrow>
        (case http W tr (lists_url W self sid) (headers self) of
           Inl e \<Rightarrow> (Inl e, tr @ [Http_get (lists_url W self sid) (headers self) (Inl e)])
         | Inr body \<Rightarrow>
            (case read_collection body ''lists'' of
               Inl e \<Rightarrow> (Inl e, tr @ [Http_get (lists_url W self sid) (headers self) (Inr body)])
             | Inr ls \<Rightarrow>
                (case lists_loop W self s ls acc
                        (tr @ [Http_get (lists_url W self sid) (headers self) (Inr body)]) of
                   (Inl e, tr1) \<Rightarrow> (Inl e, tr1)
                 | (Inr acc', tr1) \<Rightarrow> spaces_loop W self rest acc' tr1))))"
  by (simp add: io_bind_def io_lift_def requests_get_json_eq read_collection_def ebind_def
        split: sum.splits)

lemma spaces_loop_Nil: "spaces_loop W self [] acc tr = (Inr acc, tr)"
  by (simp add: io_return_def)

lemma spaces_loop_append:
  "spaces_loop W self (xs @ ys) acc tr =
     (case spaces_loop W self xs acc tr of
        (Inl e, tr1) \<Rightarrow> (Inl e, tr1)
      | (Inr acc1, tr1) \<Rightarrow> spaces_loop W self ys acc1 tr1)"
proof (induction xs arbitrary: acc tr)
  case Nil
  show ?case by (simp add: io_return_def)
next
  case (Cons s xs)
  show ?case
    unfolding append_Cons spaces_loop_Cons
    by (simp add: Cons.IH split: sum.splits prod.splits)
qed

lemma space_raises_spaces_loop:
  assumes "space_raises W self s acc tr e tr'"
  shows "spaces_loop W self (s # rest) acc tr = (Inl e, tr')"
proof -
  from assms consider
      (a) "py_getitem s ''id'' = Inl e" "tr' = tr"
    | (b) sid where "py_getitem s ''id'' = Inr sid"
        "http W tr (lists_url W self sid) (headers self) = Inl e"
        "tr' = tr @ [Http_get (lists_url W self sid) (headers self) (Inl e)]"
    | (c) sid body where "py_getitem s ''id'' = Inr sid"
        "http W tr (lists_url W self sid) (headers self) = Inr body"
        "tr' = tr @ [Http_get (lists_url W self sid) (headers self) (Inr body)]"
        "read_collection body ''lists'' = Inl e"
    | (d) sid body pre l post tasks1 tr1 where "py_getitem s ''id'' = Inr sid"
        "http W tr (lists_url W self sid) (headers self) = Inr body"
        "read_collection body ''lists'' = Inr (pre @ l # post)"
        "lists_loop W self s pre acc (tr @ [Http_get (lists_url W self sid) (headers self) (Inr body)])
           = (Inr tasks1, tr1)"
        "list_raises W self s l tasks1 tr1 e tr'"
    unfolding space_raises_def by (elim disjE conjE exE) simp_all
  then show ?thesis
  proof cases
    case a then show ?thesis unfolding spaces_loop_Cons by simp
  next
    case b then show ?thesis unfolding spaces_loop_Cons by simp
  next
    case c then show ?thesis unfolding spaces_loop_Cons by simp
  next
    case d
    note t = lists_loop_raises[OF d(4,5), of post]
    show ?thesis unfolding spaces_loop_Cons by (simp add: d(1-3) t)
  qed
qed

lemma spaces_loop_raises:
  assumes "spaces_loop W self pre acc tr = (Inr acc1, tr1)"
    and "space_raises W self s acc1 tr1 e tr'"
  shows "spaces_loop W self (pre @ s # post) acc tr = (Inl e, tr')"
  unfolding spaces_loop_append assms(1) using space_raises_spaces_loop[OF assms(2)] by simp

lemma spaces_loop_Cons_Inl:
  assumes run: "spaces_loop W self (s # rest) acc tr = (Inl e, tr')"
  shows "space_raises W self s acc tr e tr' \<or>
         (\<exists>acc1 tr1. spaces_loop W self [s] acc tr = (Inr acc1, tr1) \<and>
            spaces_loop W self rest acc1 tr1 = (Inl e, tr'))"
proof (cases "py_getitem s ''id''")
  case (Inl e')
  with run have "e' = e" "tr' = tr" unfolding spaces_loop_Cons by auto
  with Inl show ?thesis unfolding space_raises_def by simp
next
  case sid: (Inr sid)
  show ?thesis
  proof (cases "http W tr (lists_url W self sid) (headers self)")
    case (Inl e')
    with run sid have "e' = e" "tr' = tr @ [Http_get (lists_url W self sid) (headers self) (Inl e')]"
      unfolding spaces_loop_Cons by auto
    with Inl sid show ?thesis unfolding space_raises_def by simp
  next
    case body: (Inr body)
    define tr0 where "tr0 = tr @ [Http_get (lists_url W self sid) (headers self) (Inr body)]"
    show ?thesis
    proof (cases "read_collection body ''lists''")
      case (Inl e')
      with run sid body have "e' = e" "tr' = tr0"
        unfolding spaces_loop_Cons tr0_def by auto
      with Inl sid body show ?thesis unfolding space_raises_def tr0_def by simp
    next
      case ls: (Inr ls)
      obtain res tr1 where loop: "lists_loop W self s ls acc tr0 = (res, tr1)"
        by (cases "lists_loop W self s ls acc tr0")
      show ?thesis
      proof (cases res)
        case (Inl e')
        with run sid body ls loop have e: "e' = e" and tr': "tr1 = tr'"
          unfolding spaces_loop_Cons tr0_def by auto
        from lists_loop_Inl[OF sid loop[unfolded Inl e tr']] obtain pre l post acc1 tr2 where
          p: "ls = pre @ l # post" "lists_loop W self s pre acc tr0 = (Inr acc1, tr2)"
             "list_raises W self s l acc1 tr2 e tr'"
          by (elim exE conjE)
        have "\<exists>pre list_obj post tasks1 tr1.
                read_collection body ''lists'' = Inr (pre @ list_obj # post) \<and>
                lists_loop W self s pre acc tr0 = (Inr tasks1, tr1) \<and>
                list_raises W self s list_obj tasks1 tr1 e tr'"
          using ls p
          by (intro exI[of _ pre] exI[of _ l] exI[of _ post] exI[of _ acc1] exI[of _ tr2]) simp
        then show ?thesis unfolding space_raises_def using sid body tr0_def by simp
      next
        case acc': (Inr acc')
        have one: "spaces_loop W self [s] acc tr = (Inr acc', tr1)"
          unfolding spaces_loop_Cons
          using loop[unfolded tr0_def] by (simp add: sid body ls acc' io_return_def)
        have "spaces_loop W self rest acc' tr1 = (Inl e, tr')"
          using run loop[unfolded tr0_def] unfolding spaces_loop_Cons
          by (simp add: sid body ls acc')
        with one show ?thesis by blast
      qed
    qed
  qed
qed

lemma spaces_loop_Inl:
  "spaces_loop W self ss acc tr = (Inl e, tr') \<Longrightarrow>
   \<exists>pre s post acc1 tr1. ss = pre @ s # post \<and>
      spaces_loop W self pre acc tr = (Inr acc1, tr1) \<and>
      space_raises W self s acc1 tr1 e tr'"
proof (induction ss arbitrary: acc tr)
  case Nil
  then show ?case by (simp add: io_return_def)
next
  case (Cons s ss)
  from spaces_loop_Cons_Inl[OF Cons.prems]
  show ?case
  proof
    assume r: "space_raises W self s acc tr e tr'"
    have "s # ss = [] @ s # ss \<and> spaces_loop W self [] acc tr = (Inr acc, tr) \<and>
          space_raises W self s acc tr e tr'"
      using r by (simp add: io_return_def)
    then show ?thesis by (intro exI)
  next
    assume "\<exists>acc1 tr1. spaces_loop W self [s] acc tr = (Inr acc1, tr1) \<and>
              spaces_loop W self ss acc1 tr1 = (Inl e, tr')"
    then obtain acc1 tr1 where one: "spaces_loop W self [s] acc tr = (Inr acc1, tr1)"
      and rest: "spaces_loop W self ss acc1 tr1 = (Inl e, tr')" by (elim exE conjE)
    from Cons.IH[OF rest] obtain pre s' post acc2 tr2 where
      ss: "ss = pre @ s' # post" and p: "spaces_loop W self pre acc1 tr1 = (Inr acc2, tr2)"
      and r: "space_raises W self s' acc2 tr2 e tr'" by (elim exE conjE)
    have "spaces_loop W self ([s] @ pre) acc tr = (Inr acc2, tr2)"
      unfolding spaces_loop_append one using p by simp
    then have "s # ss = (s # pre) @ s' # post \<and>
          spaces_loop W self (s # pre) acc tr = (Inr acc2, tr2) \<and>
          space_raises W self s' acc2 tr2 e tr'"
      using ss r by simp
    then show ?thesis by (intro exI)
  qed
qed

lemma fetch_tasks_eq:
  "fetch_tasks W self wid tr =
    (case http W tr (spaces_url W self wid) (headers self) of
       Inl e \<Rightarrow> (Inl e, tr @ [Http_get (spaces_url W self wid) (headers self) (Inl e)])
     | Inr body \<Rightarrow>
        (case read_collection body ''spaces'' of
           Inl e \<Rightarrow> (Inl e, tr @ [Http_get (spaces_url W self wid) (headers self) (Inr body)])
         | Inr ss \<Rightarrow>
             spaces_loop W self ss [] (tr @ [Http_get (spaces_url W self wid) (headers self) (Inr body)])))"
  by (simp add: fetch_tasks_def io_bind_def io_lift_def requests_get_json_eq read_collection_def
        ebind_def split: sum.splits)

lemma extraction_raises_iff:
  "extraction_raises W self wid tr e tr' \<longleftrightarrow> fetch_tasks W self wid tr = (Inl e, tr')"
proof
  assume "extraction_raises W self wid tr e tr'"
  then consider
      (a) "http W tr (spaces_url W self wid) (headers self) = Inl e"
        "tr' = tr @ [Http_get (spaces_url W self wid) (headers self) (Inl e)]"
    | (b) body where "http W tr (spaces_url W self wid) (headers self) = Inr body"
        "tr' = tr @ [Http_get (spaces_url W self wid) (headers self) (Inr body)]"
        "read_collection body ''spaces'' = Inl e"
    | (c) body pre s post tasks1 tr1 where
        "http W tr (spaces_url W self wid) (headers self) = Inr body"
        "read_collection body ''spaces'' = Inr (pre @ s # post)"
        "spaces_loop W self pre [] (tr @ [Http_get (spaces_url W self wid) (headers self) (Inr body)])
           = (Inr tasks1, tr1)"
        "space_raises W self s tasks1 tr1 e tr'"
    unfolding extraction_raises_def by (elim disjE conjE exE) simp_all
  then show "fetch_tasks W self wid tr = (Inl e, tr')"
  proof cases
    case a then show ?thesis unfolding fetch_tasks_eq by simp
  next
    case b then show ?thesis unfolding fetch_tasks_eq by simp
  next
    case c
    note t = spaces_loop_raises[OF c(3,4), of post]
    show ?thesis unfolding fetch_tasks_eq by (simp add: c(1,2) t)
  qed
next
  assume run: "fetch_tasks W self wid tr = (Inl e, tr')"
  show "extraction_raises W self wid tr e tr'"
  proof (cases "http W tr (spaces_url W self wid) (headers self)")
    case (Inl e')
    with run have "e' = e" "tr' = tr @ [Http_get (spaces_url W self wid) (headers self) (Inl e')]"
      unfolding fetch_tasks_eq by auto
    with Inl show ?thesis unfolding extraction_raises_def by simp
  next
    case body: (Inr body)
    define tr0 where "tr0 = tr @ [Http_get (spaces_url W self wid) (headers self) (Inr body)]"
    show ?thesis
    proof (cases "read_collection body ''spaces''")
      case (Inl e')
      with run body have "e' = e" "tr' = tr0" unfolding fetch_tasks_eq tr0_def by auto
      with Inl body show ?thesis unfolding extraction_raises_def tr0_def by simp
    next
      case ss: (Inr ss)
      from run have "spaces_loop W self ss [] tr0 = (Inl e, tr')"
        unfolding fetch_tasks_eq tr0_def by (simp add: body ss)
      from spaces_loop_Inl[OF this] obtain pre s post acc1 tr1 where
        p: "ss = pre @ s # post" "spaces_loop W self pre [] tr0 = (Inr acc1, tr1)"
           "space_raises W self s acc1 tr1 e tr'"
        by (elim exE conjE)
      have "\<exists>pre space post tasks1 tr1.
                read_collection body ''spaces'' = Inr (pre @ space # post) \<and>
                spaces_loop W self pre [] tr0 = (Inr tasks1, tr1) \<and>
                space_raises W self space tasks1 tr1 e tr'"
        using ss p
        by (intro exI[of _ pre] exI[of _ s] exI[of _ post] exI[of _ acc1] exI[of _ tr1]) simp
      then show ?thesis unfolding extraction_raises_def using body tr0_def by simp
    qed
  qed
qed

lemma definition_raises_schema_loop:
  assumes "definition_raises f e"
  shows "schema_loop W (f # post) acc = Inl e"
proof -
  from assms consider (a) "py_getitem f ''type'' = Inl e"
    | (b) ty where "py_getitem f ''type'' = Inr ty" "py_getitem f ''id'' = Inl e"
    unfolding definition_raises_def by (elim disjE conjE exE)
  then show ?thesis
  proof cases
    case a then show ?thesis by simp
  next
    case b then show ?thesis by simp
  qed
qed

lemma schema_loop_raises:
  assumes "schema_loop W pre acc = Inr sch" and "definition_raises f e"
  shows "schema_loop W (pre @ f # post) acc = Inl e"
  unfolding schema_loop_append assms(1) ebind_simps
  by (rule definition_raises_schema_loop[OF assms(2)])

lemma schema_loop_Inl:
  "schema_loop W fs acc = Inl e \<Longrightarrow>
   \<exists>pre f post sch. fs = pre @ f # post \<and> schema_loop W pre acc = Inr sch \<and> definition_raises f e"
proof (induction fs arbitrary: acc)
  case Nil
  then show ?case by simp
next
  case (Cons f fs)
  show ?case
  proof (cases "py_getitem f ''type''")
    case (Inl e')
    with Cons.prems have "e' = e" by simp
    with Inl have r: "definition_raises f e" unfolding definition_raises_def by simp
    have "f # fs = [] @ f # fs \<and> schema_loop W [] acc = Inr acc \<and> definition_raises f e"
      using r by simp
    then show ?thesis by (intro exI)
  next
    case ty: (Inr ty)
    show ?thesis
    proof (cases "py_getitem f ''id''")
      case (Inl e')
      with Cons.prems ty have "e' = e" by simp
      with Inl ty have r: "definition_raises f e" unfolding definition_raises_def by simp
      have "f # fs = [] @ f # fs \<and> schema_loop W [] acc = Inr acc \<and> definition_raises f e"
        using r by simp
      then show ?thesis by (intro exI)
    next
      case fid: (Inr fid)
      define acc' where "acc' = acc @
          [SchemaField (''custom_field_'' @ py_str (str_other W) fid)
             (if ty = PStr ''number'' then ''FLOAT''
              else if ty = PStr ''date'' then ''TIMESTAMP''
              else ''STRING'')]"
      have step: "schema_loop W (f # xs) acc = schema_loop W xs acc'" for xs
        unfolding acc'_def schema_loop.simps ty fid ebind_simps ..
      from Cons.prems have "schema_loop W fs acc' = Inl e" unfolding step .
      from Cons.IH[OF this] obtain pre g post sch where
        fs: "fs = pre @ g # post" and p: "schema_loop W pre acc' = Inr sch" and
        r: "definition_raises g e" by (elim exE conjE)
      have "f # fs = (f # pre) @ g # post \<and> schema_loop W (f # pre) acc = Inr sch \<and>
            definition_raises g e"
        unfolding step using fs p r by simp
      then show ?thesis by (intro exI)
    qed
  qed
qed

lemma create_tables_full_eq:
  "create_tables_if_not_exist W self tr =
    (case http W tr (custom_fields_url W self (workspace_id self)) (headers self) of
       Inl e \<Rightarrow>
         (Inl e, tr @ [Http_get (custom_fields_url W self (workspace_id self)) (headers self) (Inl e)])
     | Inr body \<Rightarrow>
        (case read_collection body ''custom_fields'' of
           Inl e \<Rightarrow>
             (Inl e, tr @ [Http_get (custom_fields_url W self (workspace_id self)) (headers self) (Inr body)])
         | Inr fs \<Rightarrow>
            (case schema_loop W fs base_schema of
               Inl e \<Rightarrow>
                 (Inl e, tr @ [Http_get (custom_fields_url W self (workspace_id self)) (headers self) (Inr body)])
             | Inr sch \<Rightarrow>
                io_call (\<lambda>t. create_table W t \<lparr> table_reference = tasks_table_ref, table_schema = sch \<rparr> True)
                  (Create_table \<lparr> table_reference = tasks_table_ref, table_schema = sch \<rparr> True)
                  (tr @ [Http_get (custom_fields_url W self (workspace_id self)) (headers self) (Inr body)]))))"
  by (simp add: create_tables_if_not_exist_def fetch_custom_fields_def io_bind_def io_lift_def
        requests_get_json_eq read_collection_def ebind_def Let_def split: sum.splits)

lemma schema_raises_iff:
  "schema_raises W self tr e tr' \<longleftrightarrow> create_tables_if_not_exist W self tr = (Inl e, tr')"
proof
  let ?url = "custom_fields_url W self (workspace_id self)"
  assume "schema_raises W self tr e tr'"
  then consider
      (a) "http W tr ?url (headers self) = Inl e"
        "tr' = tr @ [Http_get ?url (headers self) (Inl e)]"
    | (b) body where "http W tr ?url (headers self) = Inr body"
        "tr' = tr @ [Http_get ?url (headers self) (Inr body)]"
        "read_collection body ''custom_fields'' = Inl e"
    | (c) body pre f post sch where "http W tr ?url (headers self) = Inr body"
        "tr' = tr @ [Http_get ?url (headers self) (Inr body)]"
        "read_collection body ''custom_fields'' = Inr (pre @ f # post)"
        "schema_loop W pre base_schema = Inr sch" "definition_raises f e"
    | (d) body fs sch where "http W tr ?url (headers self) = Inr body"
        "read_collection body ''custom_fields'' = Inr fs"
        "schema_loop W fs base_schema = Inr sch"
        "create_table W (tr @ [Http_get ?url (headers self) (Inr body)])
           \<lparr> table_reference = tasks_table_ref, table_schema = sch \<rparr> True = Some e"
        "tr' = (tr @ [Http_get ?url (headers self) (Inr body)]) @
               [Create_table \<lparr> table_reference = tasks_table_ref, table_schema = sch \<rparr> True (Some e)]"
    unfolding schema_raises_def by (elim disjE conjE exE) simp_all
  then show "create_tables_if_not_exist W self tr = (Inl e, tr')"
  proof cases
    case a then show ?thesis unfolding create_tables_full_eq by simp
  next
    case b then show ?thesis unfolding create_tables_full_eq by simp
  next
    case c
    note t = schema_loop_raises[OF c(4,5), of post]
    show ?thesis unfolding create_tables_full_eq by (simp add: c(1-3) t)
  next
    case d
    show ?thesis unfolding create_tables_full_eq by (simp add: d io_call_eq)
  qed
next
  let ?url = "custom_fields_url W self (workspace_id self)"
  assume run: "create_tables_if_not_exist W self tr = (Inl e, tr')"
  show "schema_raises W self tr e tr'"
  proof (cases "http W tr ?url (headers self)")
    case (Inl e')
    with run have "e' = e" "tr' = tr @ [Http_get ?url (headers self) (Inl e')]"
      unfolding create_tables_full_eq by auto
    with Inl show ?thesis unfolding schema_raises_def by simp
  next
    case body: (Inr body)
    define tr0 where "tr0 = tr @ [Http_get ?url (headers self) (Inr body)]"
    show ?thesis
    proof (cases "read_collection body ''custom_fields''")
      case (Inl e')
      with run body have "e' = e" "tr' = tr0" unfolding create_tables_full_eq tr0_def by auto
      with Inl body show ?thesis unfolding schema_raises_def tr0_def by simp
    next
      case fs: (Inr fs)
      show ?thesis
      proof (cases "schema_loop W fs base_schema")
        case (Inl e')
        with run body fs have e: "e' = e" and tr': "tr' = tr0"
          unfolding create_tables_full_eq tr0_def by auto
        from schema_loop_Inl[OF Inl[unfolded e]] obtain pre f post sch where
          p: "fs = pre @ f # post" "schema_loop W pre base_schema = Inr sch" "definition_raises f e"
          by (elim exE conjE)
        have "\<exists>pre f post sch.
                read_collection body ''custom_fields'' = Inr (pre @ f # post) \<and>
                schema_loop W pre base_schema = Inr sch \<and> definition_raises f e \<and> tr' = tr0"
          using fs p tr'
          by (intro exI[of _ pre] exI[of _ f] exI[of _ post] exI[of _ sch]) simp
        then show ?thesis unfolding schema_raises_def using body tr0_def by simp
      next
        case sch: (Inr sch)
        define t where "t = \<lparr> table_reference = tasks_table_ref, table_schema = sch \<rparr>"
        from run have call: "create_table W tr0 t True = Some e" and tr': "tr' = tr0 @ [Create_table t True (Some e)]"
          unfolding create_tables_full_eq tr0_def t_def
          by (auto simp: body fs sch io_call_eq split: option.splits)
        have "\<exists>fs sch.
                read_collection body ''custom_fields'' = Inr fs \<and>
                schema_loop W fs base_schema = Inr sch \<and>
                create_table W tr0 \<lparr> table_reference = tasks_table_ref, table_schema = sch \<rparr> True = Some e \<and>
                tr' = tr0 @ [Create_table \<lparr> table_reference = tasks_table_ref, table_schema = sch \<rparr>
                               True (Some e)]"
          using fs sch call tr' unfolding t_def
          by (intro exI[of _ fs] exI[of _ sch]) simp
        then show ?thesis unfolding schema_raises_def using body tr0_def by simp
      qed
    qed
  qed
qed

lemma load_raises_iff:
  "load_raises W tasks tr e tr' \<longleftrightarrow> load_tasks W tasks tr = (Inl e, tr')"
  unfolding load_raises_def load_tasks_eq
  by (auto split: option.splits)

lemma decimal_2: "decimal 2 = ''2''"
  by code_simp

lemma decimal_Suc_Suc_0: "decimal (Suc (Suc 0)) = ''2''"
  using decimal_2 by (simp add: numeral_2_eq_2)

lemma demo_sync_create_tables:
  "create_tables_if_not_exist demo_sync_world demo_self ([] @ [Log INFO ''Starting ClickUp to BigQuery sync''])
     = (Inr (), demo_schema_trace)"
  unfolding demo_sync_world_def by (rule demo_create_tables)

lemma empty_sync_create_tables:
  "create_tables_if_not_exist empty_sync_world demo_self ([] @ [Log INFO ''Starting ClickUp to BigQuery sync''])
     = (Inr (), demo_schema_trace)"
  unfolding empty_sync_world_def by (rule demo_create_tables)

lemma demo_sync_data_ok: "fst (sync_data demo_sync_world demo_self []) = Inr ()"
  unfolding sync_data_with_tasks[OF demo_sync_create_tables demo_sync_fetch_tasks list.distinct(2)]
    load_tasks_eq
  by (simp add: demo_sync_world_def)

lemma timeout_create_tables:
  "create_tables_if_not_exist timeout_world demo_self ([] @ [Log INFO ''Starting ClickUp to BigQuery sync''])
     = (Inr (), demo_schema_trace)"
  unfolding timeout_world_def by (rule demo_create_tables)

lemma malformed_lists_create_tables:
  "create_tables_if_not_exist malformed_lists_world demo_self
     ([] @ [Log INFO ''Starting ClickUp to BigQuery sync'']) = (Inr (), demo_schema_trace)"
  unfolding malformed_lists_world_def by (rule demo_create_tables)

lemma timeout_fetch_tasks:
  "fetch_tasks timeout_world demo_self (workspace_id demo_self) demo_schema_trace =
     (Inl (LibraryError ''Read timed out''), butlast timeout_trace)"
  by (simp add: fetch_tasks_def timeout_world_def io_bind_def requests_get_json_def
        io_lift_def io_return_def spaces_url_def lists_url_def tasks_url_def
        demo_spaces_body_def demo_lists_body_def timeout_trace_def Let_def butlast_append)

lemma malformed_lists_fetch_tasks:
  "fetch_tasks malformed_lists_world demo_self (workspace_id demo_self) demo_schema_trace =
     (Inl (AttributeError (quote ''list'' @ '' object has no attribute '' @ quote ''get'')),
      malformed_lists_trace)"
  by (simp add: fetch_tasks_def malformed_lists_world_def io_bind_def requests_get_json_def
        io_lift_def io_return_def spaces_url_def lists_url_def
        demo_spaces_body_def malformed_lists_trace_def Let_def)

lemma timeout_sync_data:
  "sync_data timeout_world demo_self [] = (Inl (LibraryError ''Read timed out''), timeout_trace)"
  unfolding sync_data_fetch_fails[OF timeout_create_tables timeout_fetch_tasks]
  by (simp add: timeout_trace_def butlast_append)

lemma kindless_create_tables:
  "create_tables_if_not_exist kindless_world demo_self ([] @ [Log INFO ''Starting ClickUp to BigQuery sync''])
     = (Inl (KeyError ''type''), kindless_trace)"
  by (simp add: create_tables_if_not_exist_def fetch_custom_fields_def custom_fields_url_def
        io_bind_def requests_get_json_def Let_def io_lift_def kindless_body_def
        kindless_world_def kindless_trace_def)

lemma rejecting_world_simps [simp]:
  "str_other rejecting_world = str_other demo_sync_world"
  "http rejecting_world = http demo_sync_world"
  "create_table rejecting_world = create_table demo_sync_world"
  "load_table_from_json rejecting_world tr rows t cfg = Some (LibraryError ''schema mismatch'')"
  by (simp_all add: rejecting_world_def)

lemma rejecting_create_tables:
  "create_tables_if_not_exist rejecting_world demo_self ([] @ [Log INFO ''Starting ClickUp to BigQuery sync''])
     = (Inr (), demo_schema_trace)"
  by (simp add: create_tables_if_not_exist_def fetch_custom_fields_def custom_fields_url_def
        io_bind_def requests_get_json_def Let_def io_lift_def demo_definitions_body_def
        demo_definitions_def io_call_def demo_schema_trace_def demo_schema_def demo_sync_world_def)

lemma rejecting_fetch_tasks:
  "fetch_tasks rejecting_world demo_self (workspace_id demo_self) demo_schema_trace =
     (Inr [demo_flat1, demo_flat2], demo_schema_trace @ demo_extract_trace)"
  by (simp add: fetch_tasks_def demo_sync_world_def io_bind_def requests_get_json_def
        io_lift_def io_return_def spaces_url_def lists_url_def tasks_url_def
        demo_spaces_body_def demo_lists_body_def demo_tasks_body_def demo_task1_def demo_task2_def
        flatten_task_def demo_flat1_def demo_flat2_def demo_extract_trace_def Let_def)

lemma rejecting_load_tasks:
  "load_tasks rejecting_world [demo_flat1, demo_flat2] (demo_schema_trace @ demo_extract_trace) =
     (Inl (LibraryError ''schema mismatch''), rejected_load_trace)"
  by (simp add: load_tasks_eq rejected_load_trace_def)

lemma timeout_trace_facts:
  "5 < length timeout_trace \<and> failure (timeout_trace ! 5) = Some (LibraryError ''Read timed out'')"
  by (simp add: timeout_trace_def demo_schema_trace_def)

lemma idless_create_tables:
  "create_tables_if_not_exist idless_world demo_self
     ([] @ [Log INFO ''Starting ClickUp to BigQuery sync'']) = (Inr (), demo_schema_trace)"
  unfolding idless_world_def by (rule demo_create_tables)

lemma idless_entry_raises: "entry_raises idless_entry (KeyError ''id'')"
  by (simp add: entry_raises_def idless_entry_def)

lemma idless_task_raises: "task_raises idless_world idless_task (KeyError ''id'')"
proof -
  have "read_collection idless_task ''custom_fields'' = Inr ([] @ idless_entry # []) \<and>
        flatten_fields idless_world [] idless_task = Inr idless_task \<and>
        entry_raises idless_entry (KeyError ''id'')"
    using idless_entry_raises by (simp add: read_collection_def idless_task_def)
  then show ?thesis unfolding task_raises_def by (intro disjI2 exI)
qed

lemma idless_fetch_tasks:
  "fetch_tasks idless_world demo_self (workspace_id demo_self) demo_schema_trace =
     (Inl (KeyError ''id''), idless_trace)"
  by (simp add: fetch_tasks_def idless_world_def io_bind_def requests_get_json_def
        io_lift_def io_return_def spaces_url_def lists_url_def tasks_url_def
        demo_spaces_body_def demo_lists_body_def idless_tasks_body_def demo_task1_def
        idless_task_def idless_entry_def flatten_task_def idless_trace_def Let_def)

section \<open>The sync routine\<close>

text \<open>
  C4. When the schema step has passed and the extractor returns the empty list, the run
  ends normally with the completion message right after the extractor's last request; no
  event of the run is a load or a wait for a load job, and the one call it makes to the
  warehouse is the create-if-absent of the tasks table.
\<close>

theorem empty_extraction_skips_load:
  assumes "create_tables_if_not_exist W self (tr @ [Log INFO ''Starting ClickUp to BigQuery sync'']) = (Inr (), tr1)"
    and "fetch_tasks W self (workspace_id self) tr1 = (Inr [], tr2)"
  shows "sync_data W self tr = (Inr (), tr2 @ [Log INFO ''Sync completed successfully'']) \<and>
         (\<exists>trn t. tr2 @ [Log INFO ''Sync completed successfully''] = tr @ trn \<and>
            (\<forall>ev\<in>set trn. \<not> is_load ev) \<and>
            filter is_warehouse_call trn = [Create_table t True None] \<and>
            table_reference t = tasks_table_ref)"
proof -
  from create_tables_Inr[OF assms(1)] obtain body t where
    tr1: "tr1 = (tr @ [Log INFO ''Starting ClickUp to BigQuery sync'']) @
                [Http_get (custom_fields_url W self (workspace_id self)) (headers self) (Inr body),
                 Create_table t True None]" and
    t: "table_reference t = tasks_table_ref" by blast
  from fetch_tasks_events[of W self "workspace_id self" tr1] assms(2) obtain reqs where
    tr2: "tr2 = tr1 @ reqs" and
    reqs: "\<forall>ev\<in>set reqs. extractor_request W self (workspace_id self) ev" by auto
  have kinds: "\<forall>ev\<in>set reqs. \<not> is_load ev \<and> \<not> is_warehouse_call ev"
    using reqs extractor_request_kinds by blast
  define trn where "trn = [Log INFO ''Starting ClickUp to BigQuery sync'',
                 Http_get (custom_fields_url W self (workspace_id self)) (headers self) (Inr body),
                 Create_table t True None] @ reqs @ [Log INFO ''Sync completed successfully'']"
  have a: "tr2 @ [Log INFO ''Sync completed successfully''] = tr @ trn"
    by (simp add: tr2 tr1 trn_def)
  have b: "\<forall>ev\<in>set trn. \<not> is_load ev" using kinds by (auto simp: trn_def)
  have "filter is_warehouse_call reqs = []" using kinds by (simp add: filter_empty_conv)
  then have c: "filter is_warehouse_call trn = [Create_table t True None]"
    by (simp add: trn_def)
  from a b c t have ex: "\<exists>trn t. tr2 @ [Log INFO ''Sync completed successfully''] = tr @ trn \<and>
            (\<forall>ev\<in>set trn. \<not> is_load ev) \<and>
            filter is_warehouse_call trn = [Create_table t True None] \<and>
            table_reference t = tasks_table_ref" by blast
  from sync_data_no_tasks[OF assms] ex show ?thesis by (rule conjI)
qed

theorem empty_extraction_skips_load_witness:
  "create_tables_if_not_exist empty_sync_world demo_self ([] @ [Log INFO ''Starting ClickUp to BigQuery sync''])
     = (Inr (), demo_schema_trace) \<and>
   fetch_tasks empty_sync_world demo_self (workspace_id demo_self) demo_schema_trace =
     (Inr [], demo_schema_trace @
        [Http_get ''https://api.clickup.com/api/v2/team/9001/space'' demo_headers (Inr no_spaces_body)]) \<and>
   (sync_data empty_sync_world demo_self [] =
     (Inr (), (demo_schema_trace @
        [Http_get ''https://api.clickup.com/api/v2/team/9001/space'' demo_headers (Inr no_spaces_body)]) @
        [Log INFO ''Sync completed successfully'']) \<and>
    (\<exists>trn t.
        (demo_schema_trace @
           [Http_get ''https://api.clickup.com/api/v2/team/9001/space'' demo_headers (Inr no_spaces_body)]) @
          [Log INFO ''Sync completed successfully''] = [] @ trn \<and>
        (\<forall>ev\<in>set trn. \<not> is_load ev) \<and>
        filter is_warehouse_call trn = [Create_table t True None] \<and>
        table_reference t = tasks_table_ref))"
proof -
  have c: "create_tables_if_not_exist empty_sync_world demo_self ([] @ [Log INFO ''Starting ClickUp to BigQuery sync''])
     = (Inr (), demo_schema_trace)"
    unfolding empty_sync_world_def by (rule demo_create_tables)
  show ?thesis
    by (rule conjI[OF c conjI[OF empty_sync_fetch_tasks
          empty_extraction_skips_load[OF c empty_sync_fetch_tasks]]])
qed

text \<open>
  C5. When the schema step has passed and the spaces response holds no space, the
  extractor returns the empty list after that one request, the run ends normally right
  after it with no load event, and the log lines of the run are the start and the
  completion message only; whereas the log lines of any run that extracts tasks and ends
  normally are the start message, \<^verbatim>\<open>Loaded N tasks to BigQuery\<close> with N the number of
  tasks, and the completion message.
\<close>

theorem zero_spaces_run:
  assumes "create_tables_if_not_exist W self (tr @ [Log INFO ''Starting ClickUp to BigQuery sync'']) = (Inr (), tr1)"
    and "http W tr1 (spaces_url W self (workspace_id self)) (headers self) = Inr body"
    and "py_get body ''spaces'' (PList []) = Inr spaces"
    and "py_iter spaces = Inr []"
  shows "fetch_tasks W self (workspace_id self) tr1 =
           (Inr [], tr1 @ [Http_get (spaces_url W self (workspace_id self)) (headers self) (Inr body)]) \<and>
         sync_data W self tr =
           (Inr (), tr1 @ [Http_get (spaces_url W self (workspace_id self)) (headers self) (Inr body),
                           Log INFO ''Sync completed successfully'']) \<and>
         (\<exists>trn. snd (sync_data W self tr) = tr @ trn \<and>
            (\<forall>ev\<in>set trn. \<not> is_load ev) \<and>
            filter is_log trn = [Log INFO ''Starting ClickUp to BigQuery sync'',
                                 Log INFO ''Sync completed successfully'']) \<and>
         (\<forall>W' self' tr' tr1' tr2' tasks.
            create_tables_if_not_exist W' self' (tr' @ [Log INFO ''Starting ClickUp to BigQuery sync''])
              = (Inr (), tr1') \<and>
            fetch_tasks W' self' (workspace_id self') tr1' = (Inr tasks, tr2') \<and> tasks \<noteq> [] \<and>
            fst (sync_data W' self' tr') = Inr ()
            \<longrightarrow> (\<exists>trn'. snd (sync_data W' self' tr') = tr' @ trn' \<and>
                   filter is_log trn' =
                     [Log INFO ''Starting ClickUp to BigQuery sync'',
                      Log INFO (''Loaded '' @ decimal (length tasks) @ '' tasks to BigQuery''),
                      Log INFO ''Sync completed successfully'']))"
proof -
  define ev where "ev = Http_get (spaces_url W self (workspace_id self)) (headers self) (Inr body)"
  have f: "fetch_tasks W self (workspace_id self) tr1 = (Inr [], tr1 @ [ev])"
    using assms(2-4)
    by (simp add: fetch_tasks_def io_bind_def requests_get_json_eq io_lift_def io_return_def ev_def)
  have s: "sync_data W self tr = (Inr (), tr1 @ [ev, Log INFO ''Sync completed successfully''])"
    using sync_data_no_tasks[OF assms(1) f] by simp
  from create_tables_Inr[OF assms(1)] obtain cbody t where
    tr1: "tr1 = (tr @ [Log INFO ''Starting ClickUp to BigQuery sync'']) @
                [Http_get (custom_fields_url W self (workspace_id self)) (headers self) (Inr cbody),
                 Create_table t True None]" by blast
  define trn where "trn = [Log INFO ''Starting ClickUp to BigQuery sync'',
                 Http_get (custom_fields_url W self (workspace_id self)) (headers self) (Inr cbody),
                 Create_table t True None, ev, Log INFO ''Sync completed successfully'']"
  have a: "snd (sync_data W self tr) = tr @ trn" by (simp add: s tr1 trn_def)
  have b: "\<forall>ev\<in>set trn. \<not> is_load ev" by (simp add: trn_def ev_def)
  have c: "filter is_log trn = [Log INFO ''Starting ClickUp to BigQuery sync'',
                                 Log INFO ''Sync completed successfully'']"
    by (simp add: trn_def ev_def)
  have ex: "\<exists>trn. snd (sync_data W self tr) = tr @ trn \<and>
            (\<forall>ev\<in>set trn. \<not> is_load ev) \<and>
            filter is_log trn = [Log INFO ''Starting ClickUp to BigQuery sync'',
                                 Log INFO ''Sync completed successfully'']"
    using a b c by blast
  have other: "\<exists>trn'. snd (sync_data W' self' tr') = tr' @ trn' \<and>
                   filter is_log trn' =
                     [Log INFO ''Starting ClickUp to BigQuery sync'',
                      Log INFO (''Loaded '' @ decimal (length tasks) @ '' tasks to BigQuery''),
                      Log INFO ''Sync completed successfully'']"
    if h: "create_tables_if_not_exist W' self' (tr' @ [Log INFO ''Starting ClickUp to BigQuery sync''])
              = (Inr (), tr1') \<and>
            fetch_tasks W' self' (workspace_id self') tr1' = (Inr tasks, tr2') \<and> tasks \<noteq> [] \<and>
            fst (sync_data W' self' tr') = Inr ()"
    for W' self' tr' tr1' tr2' tasks
  proof -
    from h have h1: "create_tables_if_not_exist W' self' (tr' @ [Log INFO ''Starting ClickUp to BigQuery sync''])
              = (Inr (), tr1')"
      and h2: "fetch_tasks W' self' (workspace_id self') tr1' = (Inr tasks, tr2')"
      and h3: "tasks \<noteq> []" and h4: "fst (sync_data W' self' tr') = Inr ()" by blast+
    from create_tables_Inr[OF h1] obtain cb t' where
      t1: "tr1' = (tr' @ [Log INFO ''Starting ClickUp to BigQuery sync'']) @
                [Http_get (custom_fields_url W' self' (workspace_id self')) (headers self') (Inr cb),
                 Create_table t' True None]" by blast
    from fetch_tasks_events[of W' self' "workspace_id self'" tr1'] h2 obtain reqs where
      t2: "tr2' = tr1' @ reqs" and
      reqs: "\<forall>ev\<in>set reqs. extractor_request W' self' (workspace_id self') ev" by auto
    have nolog: "filter is_log reqs = []"
      using reqs extractor_request_kinds by (simp add: filter_empty_conv) blast
    define ld where "ld = [Load_table_from_json tasks tasks_table_ref
                                \<lparr> write_disposition = Some WRITE_TRUNCATE \<rparr> None,
                              Job_result None,
                              Log INFO (''Loaded '' @ decimal (length tasks) @ '' tasks to BigQuery''),
                              Log INFO ''Sync completed successfully'']"
    have run: "snd (sync_data W' self' tr') = tr2' @ ld"
      using h4 unfolding sync_data_with_tasks[OF h1 h2 h3] load_tasks_eq ld_def
      by (simp split: option.splits)
    define trn' where "trn' = [Log INFO ''Starting ClickUp to BigQuery sync'',
                Http_get (custom_fields_url W' self' (workspace_id self')) (headers self') (Inr cb),
                 Create_table t' True None] @ reqs @ ld"
    have x: "snd (sync_data W' self' tr') = tr' @ trn'" by (simp add: run t2 t1 trn'_def)
    have y: "filter is_log trn' =
                     [Log INFO ''Starting ClickUp to BigQuery sync'',
                      Log INFO (''Loaded '' @ decimal (length tasks) @ '' tasks to BigQuery''),
                      Log INFO ''Sync completed successfully'']"
      using nolog by (simp add: trn'_def ld_def)
    from x y show ?thesis by blast
  qed
  show ?thesis
    apply (intro conjI)
       apply (rule f[unfolded ev_def])
      apply (rule s[unfolded ev_def])
     apply (rule ex)
    using other by blast
qed

theorem zero_spaces_run_witness:
  "create_tables_if_not_exist empty_sync_world demo_self ([] @ [Log INFO ''Starting ClickUp to BigQuery sync''])
     = (Inr (), demo_schema_trace) \<and>
   http empty_sync_world demo_schema_trace (spaces_url empty_sync_world demo_self (workspace_id demo_self))
     (headers demo_self) = Inr no_spaces_body \<and>
   py_get no_spaces_body ''spaces'' (PList []) = Inr (PList []) \<and>
   py_iter (PList []) = Inr [] \<and>
   fetch_tasks empty_sync_world demo_self (workspace_id demo_self) demo_schema_trace =
     (Inr [], demo_schema_trace @
        [Http_get (spaces_url empty_sync_world demo_self (workspace_id demo_self)) (headers demo_self)
           (Inr no_spaces_body)]) \<and>
   sync_data empty_sync_world demo_self [] =
     (Inr (), demo_schema_trace @
        [Http_get (spaces_url empty_sync_world demo_self (workspace_id demo_self)) (headers demo_self)
           (Inr no_spaces_body),
         Log INFO ''Sync completed successfully'']) \<and>
   (\<exists>trn. snd (sync_data empty_sync_world demo_self []) = [] @ trn \<and>
      (\<forall>ev\<in>set trn. \<not> is_load ev) \<and>
      filter is_log trn = [Log INFO ''Starting ClickUp to BigQuery sync'',
                           Log INFO ''Sync completed successfully'']) \<and>
   (\<exists>trn'. snd (sync_data demo_sync_world demo_self []) = [] @ trn' \<and>
      filter is_log trn' =
        [Log INFO ''Starting ClickUp to BigQuery sync'',
         Log INFO (''Loaded '' @ decimal (length [demo_flat1, demo_flat2]) @ '' tasks to BigQuery''),
         Log INFO ''Sync completed successfully''])"
proof -
  have h2: "http empty_sync_world demo_schema_trace
      (spaces_url empty_sync_world demo_self (workspace_id demo_self)) (headers demo_self) = Inr no_spaces_body"
    by (simp add: empty_sync_world_def)
  have h3: "py_get no_spaces_body ''spaces'' (PList []) = Inr (PList [])"
    by (simp add: no_spaces_body_def)
  have h4: "py_iter (PList []) = Inr []" by simp
  note r = zero_spaces_run[OF empty_sync_create_tables h2 h3 h4]
  have p: "create_tables_if_not_exist demo_sync_world demo_self ([] @ [Log INFO ''Starting ClickUp to BigQuery sync''])
              = (Inr (), demo_schema_trace) \<and>
            fetch_tasks demo_sync_world demo_self (workspace_id demo_self) demo_schema_trace
              = (Inr [demo_flat1, demo_flat2], demo_schema_trace @ demo_extract_trace) \<and>
            [demo_flat1, demo_flat2] \<noteq> [] \<and>
            fst (sync_data demo_sync_world demo_self []) = Inr ()"
    by (rule conjI[OF demo_sync_create_tables conjI[OF demo_sync_fetch_tasks
          conjI[OF list.distinct(2) demo_sync_data_ok]]])
  have r1: "fetch_tasks empty_sync_world demo_self (workspace_id demo_self) demo_schema_trace =
     (Inr [], demo_schema_trace @
        [Http_get (spaces_url empty_sync_world demo_self (workspace_id demo_self)) (headers demo_self)
           (Inr no_spaces_body)])"
    by (rule r[THEN conjunct1])
  have r2: "sync_data empty_sync_world demo_self [] =
     (Inr (), demo_schema_trace @
        [Http_get (spaces_url empty_sync_world demo_self (workspace_id demo_self)) (headers demo_self)
           (Inr no_spaces_body),
         Log INFO ''Sync completed successfully''])"
    by (rule r[THEN conjunct2, THEN conjunct1])
  have r3: "\<exists>trn. snd (sync_data empty_sync_world demo_self []) = [] @ trn \<and>
      (\<forall>ev\<in>set trn. \<not> is_load ev) \<and>
      filter is_log trn = [Log INFO ''Starting ClickUp to BigQuery sync'',
                           Log INFO ''Sync completed successfully'']"
    by (rule r[THEN conjunct2, THEN conjunct2, THEN conjunct1])
  have r4: "\<exists>trn'. snd (sync_data demo_sync_world demo_self []) = [] @ trn' \<and>
      filter is_log trn' =
        [Log INFO ''Starting ClickUp to BigQuery sync'',
         Log INFO (''Loaded '' @ decimal (length [demo_flat1, demo_flat2]) @ '' tasks to BigQuery''),
         Log INFO ''Sync completed successfully'']"
    by (rule r[THEN conjunct2, THEN conjunct2, THEN conjunct2, rule_format, OF p])
  show ?thesis
    by (rule conjI[OF empty_sync_create_tables conjI[OF h2 conjI[OF h3 conjI[OF h4
          conjI[OF r1 conjI[OF r2 conjI[OF r3 r4]]]]]]])
qed

text \<open>
  C6. A run only appends events, and whenever one of its calls to the outside fails (a
  request or the parsing of its response, the table creation, the load, the wait for the
  job), the next and last event of the run is the error message of the sync routine with
  the exception's text, and the run raises that same exception: nothing below the sync
  routine caught it, nothing was retried, nothing ran after it. Every run that raises ends
  with that message. An exception out of the schema step, out of the extractor or out of
  the load, whatever raised it, is logged and raised again by the sync routine; and when
  the extractor raises, no event of the run is a load. Each stage raises an exception,
  with the events up to it, exactly when one of its operations raises it after everything
  before went through: for the schema step the request, the reading of its response,
  \<^verbatim>\<open>field['type']\<close> or \<^verbatim>\<open>field['id']\<close> of a definition, the table creation; for the extractor
  a request, the reading of a response, \<^verbatim>\<open>space['id']\<close>, \<^verbatim>\<open>list_obj['id']\<close>, the reading of
  a task's custom fields, \<^verbatim>\<open>field.get('value')\<close> or \<^verbatim>\<open>field['id']\<close> of an entry, inside
  whichever iteration of the loops; for the load the load call or the wait for the job.
  So an exception of the program's own parsing leaves the loops and the stage unchanged,
  as one of a failed call does, and the loops raise nothing else.
\<close>

theorem errors_reach_sync_data:
  "(\<exists>trn. snd (sync_data W self tr) = tr @ trn \<and>
      (\<forall>i e. i < length trn \<and> failure (trn ! i) = Some e \<longrightarrow>
         fst (sync_data W self tr) = Inl e \<and> Suc (Suc i) = length trn \<and>
         trn ! Suc i = Log ERROR (''Error during sync: '' @ exn_str e)) \<and>
      (\<forall>e. fst (sync_data W self tr) = Inl e \<longrightarrow>
         trn \<noteq> [] \<and> last trn = Log ERROR (''Error during sync: '' @ exn_str e))) \<and>
   (\<forall>e tr1.
      create_tables_if_not_exist W self (tr @ [Log INFO ''Starting ClickUp to BigQuery sync'']) = (Inl e, tr1)
      \<longrightarrow> sync_data W self tr = (Inl e, tr1 @ [Log ERROR (''Error during sync: '' @ exn_str e)])) \<and>
   (\<forall>e tr1 tr2.
      create_tables_if_not_exist W self (tr @ [Log INFO ''Starting ClickUp to BigQuery sync'']) = (Inr (), tr1) \<and>
      fetch_tasks W self (workspace_id self) tr1 = (Inl e, tr2)
      \<longrightarrow> sync_data W self tr = (Inl e, tr2 @ [Log ERROR (''Error during sync: '' @ exn_str e)]) \<and>
          (\<forall>ev\<in>set (drop (length tr) (snd (sync_data W self tr))). \<not> is_load ev)) \<and>
   (\<forall>e tr1 tr2 tr3 tasks.
      create_tables_if_not_exist W self (tr @ [Log INFO ''Starting ClickUp to BigQuery sync'']) = (Inr (), tr1) \<and>
      fetch_tasks W self (workspace_id self) tr1 = (Inr tasks, tr2) \<and> tasks \<noteq> [] \<and>
      load_tasks W tasks tr2 = (Inl e, tr3)
      \<longrightarrow> sync_data W self tr = (Inl e, tr3 @ [Log ERROR (''Error during sync: '' @ exn_str e)])) \<and>
   (\<forall>e tr0 tr1.
      schema_raises W self tr0 e tr1 \<longleftrightarrow> create_tables_if_not_exist W self tr0 = (Inl e, tr1)) \<and>
   (\<forall>e wid tr1 tr2.
      extraction_raises W self wid tr1 e tr2 \<longleftrightarrow> fetch_tasks W self wid tr1 = (Inl e, tr2)) \<and>
   (\<forall>e tasks tr2 tr3.
      load_raises W tasks tr2 e tr3 \<longleftrightarrow> load_tasks W tasks tr2 = (Inl e, tr3))"
proof -
  from sync_data_failures[of W self tr] obtain trn where
    t: "snd (sync_data W self tr) = tr @ trn" and
    a: "\<forall>i e. i < length trn \<and> failure (trn ! i) = Some e \<longrightarrow>
         fst (sync_data W self tr) = Inl e \<and> Suc (Suc i) = length trn \<and>
         trn ! Suc i = Log ERROR (''Error during sync: '' @ exn_str e)" and
    b: "\<forall>e. fst (sync_data W self tr) = Inl e \<longrightarrow>
         trn \<noteq> [] \<and> last trn = Log ERROR (''Error during sync: '' @ exn_str e)"
    by blast
  have p1: "\<exists>trn. snd (sync_data W self tr) = tr @ trn \<and>
      (\<forall>i e. i < length trn \<and> failure (trn ! i) = Some e \<longrightarrow>
         fst (sync_data W self tr) = Inl e \<and> Suc (Suc i) = length trn \<and>
         trn ! Suc i = Log ERROR (''Error during sync: '' @ exn_str e)) \<and>
      (\<forall>e. fst (sync_data W self tr) = Inl e \<longrightarrow>
         trn \<noteq> [] \<and> last trn = Log ERROR (''Error during sync: '' @ exn_str e))"
    using t a b by blast
  have p2: "\<forall>e tr1.
      create_tables_if_not_exist W self (tr @ [Log INFO ''Starting ClickUp to BigQuery sync'']) = (Inl e, tr1)
      \<longrightarrow> sync_data W self tr = (Inl e, tr1 @ [Log ERROR (''Error during sync: '' @ exn_str e)])"
    using sync_data_create_fails by blast
  have p3: "sync_data W self tr = (Inl e, tr2 @ [Log ERROR (''Error during sync: '' @ exn_str e)]) \<and>
          (\<forall>ev\<in>set (drop (length tr) (snd (sync_data W self tr))). \<not> is_load ev)"
    if h: "create_tables_if_not_exist W self (tr @ [Log INFO ''Starting ClickUp to BigQuery sync'']) = (Inr (), tr1) \<and>
      fetch_tasks W self (workspace_id self) tr1 = (Inl e, tr2)" for e tr1 tr2
  proof -
    from h have h1: "create_tables_if_not_exist W self (tr @ [Log INFO ''Starting ClickUp to BigQuery sync'']) = (Inr (), tr1)"
      and h2: "fetch_tasks W self (workspace_id self) tr1 = (Inl e, tr2)" by blast+
    note s = sync_data_fetch_fails[OF h1 h2]
    from create_tables_Inr[OF h1] obtain body t' where
      tr1: "tr1 = (tr @ [Log INFO ''Starting ClickUp to BigQuery sync'']) @
                [Http_get (custom_fields_url W self (workspace_id self)) (headers self) (Inr body),
                 Create_table t' True None]" by blast
    from fetch_tasks_events[of W self "workspace_id self" tr1] h2 obtain reqs where
      tr2: "tr2 = tr1 @ reqs" and
      reqs: "\<forall>ev\<in>set reqs. extractor_request W self (workspace_id self) ev" by auto
    have k: "\<forall>ev\<in>set reqs. \<not> is_load ev" using reqs extractor_request_kinds by blast
    have "drop (length tr) (snd (sync_data W self tr)) =
            [Log INFO ''Starting ClickUp to BigQuery sync'',
             Http_get (custom_fields_url W self (workspace_id self)) (headers self) (Inr body),
             Create_table t' True None] @ reqs @ [Log ERROR (''Error during sync: '' @ exn_str e)]"
      by (simp add: s tr2 tr1)
    then have "\<forall>ev\<in>set (drop (length tr) (snd (sync_data W self tr))). \<not> is_load ev"
      using k by auto
    with s show ?thesis by blast
  qed
  have p4: "sync_data W self tr = (Inl e, tr3 @ [Log ERROR (''Error during sync: '' @ exn_str e)])"
    if h: "create_tables_if_not_exist W self (tr @ [Log INFO ''Starting ClickUp to BigQuery sync'']) = (Inr (), tr1) \<and>
      fetch_tasks W self (workspace_id self) tr1 = (Inr tasks, tr2) \<and> tasks \<noteq> [] \<and>
      load_tasks W tasks tr2 = (Inl e, tr3)" for e tr1 tr2 tr3 tasks
  proof -
    from h have h1: "create_tables_if_not_exist W self (tr @ [Log INFO ''Starting ClickUp to BigQuery sync'']) = (Inr (), tr1)"
      and h2: "fetch_tasks W self (workspace_id self) tr1 = (Inr tasks, tr2)"
      and h3: "tasks \<noteq> []" and h4: "load_tasks W tasks tr2 = (Inl e, tr3)" by blast+
    show ?thesis unfolding sync_data_with_tasks[OF h1 h2 h3] using h4 by simp
  qed
  have q3: "\<forall>e tr1 tr2.
      create_tables_if_not_exist W self (tr @ [Log INFO ''Starting ClickUp to BigQuery sync'']) = (Inr (), tr1) \<and>
      fetch_tasks W self (workspace_id self) tr1 = (Inl e, tr2)
      \<longrightarrow> sync_data W self tr = (Inl e, tr2 @ [Log ERROR (''Error during sync: '' @ exn_str e)]) \<and>
          (\<forall>ev\<in>set (drop (length tr) (snd (sync_data W self tr))). \<not> is_load ev)"
    using p3 by blast
  have q4: "\<forall>e tr1 tr2 tr3 tasks.
      create_tables_if_not_exist W self (tr @ [Log INFO ''Starting ClickUp to BigQuery sync'']) = (Inr (), tr1) \<and>
      fetch_tasks W self (workspace_id self) tr1 = (Inr tasks, tr2) \<and> tasks \<noteq> [] \<and>
      load_tasks W tasks tr2 = (Inl e, tr3)
      \<longrightarrow> sync_data W self tr = (Inl e, tr3 @ [Log ERROR (''Error during sync: '' @ exn_str e)])"
    using p4 by blast
  have p5: "\<forall>e tr0 tr1.
      schema_raises W self tr0 e tr1 \<longleftrightarrow> create_tables_if_not_exist W self tr0 = (Inl e, tr1)"
    by (intro allI) (rule schema_raises_iff)
  have p6: "\<forall>e wid tr1 tr2.
      extraction_raises W self wid tr1 e tr2 \<longleftrightarrow> fetch_tasks W self wid tr1 = (Inl e, tr2)"
    by (intro allI) (rule extraction_raises_iff)
  have p7: "\<forall>e tasks tr2 tr3.
      load_raises W tasks tr2 e tr3 \<longleftrightarrow> load_tasks W tasks tr2 = (Inl e, tr3)"
    by (intro allI) (rule load_raises_iff)
  show ?thesis
    by (rule conjI[OF p1 conjI[OF p2 conjI[OF q3 conjI[OF q4 conjI[OF p5 conjI[OF p6 p7]]]]]])
qed

theorem errors_reach_sync_data_witness:
  "(5 < length timeout_trace \<and> failure (timeout_trace ! 5) = Some (LibraryError ''Read timed out'')) \<and>
   (fst (sync_data timeout_world demo_self []) = Inl (LibraryError ''Read timed out'') \<and>
    Suc (Suc 5) = length timeout_trace \<and>
    timeout_trace ! Suc 5 = Log ERROR (''Error during sync: '' @ exn_str (LibraryError ''Read timed out''))) \<and>
   (timeout_trace \<noteq> [] \<and>
    last timeout_trace = Log ERROR (''Error during sync: '' @ exn_str (LibraryError ''Read timed out''))) \<and>
   create_tables_if_not_exist kindless_world demo_self ([] @ [Log INFO ''Starting ClickUp to BigQuery sync''])
     = (Inl (KeyError ''type''), kindless_trace) \<and>
   sync_data kindless_world demo_self [] =
     (Inl (KeyError ''type''),
      kindless_trace @ [Log ERROR (''Error during sync: '' @ exn_str (KeyError ''type''))]) \<and>
   (create_tables_if_not_exist malformed_lists_world demo_self
      ([] @ [Log INFO ''Starting ClickUp to BigQuery sync'']) = (Inr (), demo_schema_trace) \<and>
    fetch_tasks malformed_lists_world demo_self (workspace_id demo_self) demo_schema_trace =
      (Inl (AttributeError (quote ''list'' @ '' object has no attribute '' @ quote ''get'')),
       malformed_lists_trace)) \<and>
   sync_data malformed_lists_world demo_self [] =
     (Inl (AttributeError (quote ''list'' @ '' object has no attribute '' @ quote ''get'')),
      malformed_lists_trace @
        [Log ERROR (''Error during sync: '' @
           exn_str (AttributeError (quote ''list'' @ '' object has no attribute '' @ quote ''get'')))]) \<and>
   (create_tables_if_not_exist rejecting_world demo_self
      ([] @ [Log INFO ''Starting ClickUp to BigQuery sync'']) = (Inr (), demo_schema_trace) \<and>
    fetch_tasks rejecting_world demo_self (workspace_id demo_self) demo_schema_trace =
      (Inr [demo_flat1, demo_flat2], demo_schema_trace @ demo_extract_trace) \<and>
    [demo_flat1, demo_flat2] \<noteq> [] \<and>
    load_tasks rejecting_world [demo_flat1, demo_flat2] (demo_schema_trace @ demo_extract_trace) =
      (Inl (LibraryError ''schema mismatch''), rejected_load_trace)) \<and>
   sync_data rejecting_world demo_self [] =
     (Inl (LibraryError ''schema mismatch''),
      rejected_load_trace @ [Log ERROR (''Error during sync: '' @ exn_str (LibraryError ''schema mismatch''))]) \<and>
   task_raises idless_world idless_task (KeyError ''id'') \<and>
   extraction_raises idless_world demo_self (workspace_id demo_self) demo_schema_trace
     (KeyError ''id'') idless_trace \<and>
   (create_tables_if_not_exist idless_world demo_self
      ([] @ [Log INFO ''Starting ClickUp to BigQuery sync'']) = (Inr (), demo_schema_trace) \<and>
    fetch_tasks idless_world demo_self (workspace_id demo_self) demo_schema_trace =
      (Inl (KeyError ''id''), idless_trace)) \<and>
   sync_data idless_world demo_self [] =
     (Inl (KeyError ''id''),
      idless_trace @ [Log ERROR (''Error during sync: '' @ exn_str (KeyError ''id''))])"
proof -
  note T = errors_reach_sync_data[of timeout_world demo_self "[]"]
  from T[THEN conjunct1] obtain trn where
    t: "snd (sync_data timeout_world demo_self []) = [] @ trn" and
    a: "\<forall>i e. i < length trn \<and> failure (trn ! i) = Some e \<longrightarrow>
         fst (sync_data timeout_world demo_self []) = Inl e \<and> Suc (Suc i) = length trn \<and>
         trn ! Suc i = Log ERROR (''Error during sync: '' @ exn_str e)" and
    b: "\<forall>e. fst (sync_data timeout_world demo_self []) = Inl e \<longrightarrow>
         trn \<noteq> [] \<and> last trn = Log ERROR (''Error during sync: '' @ exn_str e)"
    by blast
  have trn: "trn = timeout_trace" using t by (simp add: timeout_sync_data)
  have w1: "fst (sync_data timeout_world demo_self []) = Inl (LibraryError ''Read timed out'') \<and>
    Suc (Suc 5) = length timeout_trace \<and>
    timeout_trace ! Suc 5 = Log ERROR (''Error during sync: '' @ exn_str (LibraryError ''Read timed out''))"
    using a[rule_format, of 5 "LibraryError ''Read timed out''"] timeout_trace_facts
    unfolding trn by blast
  have f: "fst (sync_data timeout_world demo_self []) = Inl (LibraryError ''Read timed out'')"
    by (simp add: timeout_sync_data)
  have w2: "timeout_trace \<noteq> [] \<and>
    last timeout_trace = Log ERROR (''Error during sync: '' @ exn_str (LibraryError ''Read timed out''))"
    using b[rule_format, OF f] unfolding trn .
  note K = errors_reach_sync_data[of kindless_world demo_self "[]", THEN conjunct2, THEN conjunct1,
      rule_format, OF kindless_create_tables]
  have m: "create_tables_if_not_exist malformed_lists_world demo_self
      ([] @ [Log INFO ''Starting ClickUp to BigQuery sync'']) = (Inr (), demo_schema_trace) \<and>
    fetch_tasks malformed_lists_world demo_self (workspace_id demo_self) demo_schema_trace =
      (Inl (AttributeError (quote ''list'' @ '' object has no attribute '' @ quote ''get'')),
       malformed_lists_trace)"
    by (rule conjI[OF malformed_lists_create_tables malformed_lists_fetch_tasks])
  note M = errors_reach_sync_data[of malformed_lists_world demo_self "[]", THEN conjunct2,
      THEN conjunct2, THEN conjunct1, rule_format, OF m, THEN conjunct1]
  have r: "create_tables_if_not_exist rejecting_world demo_self
      ([] @ [Log INFO ''Starting ClickUp to BigQuery sync'']) = (Inr (), demo_schema_trace) \<and>
    fetch_tasks rejecting_world demo_self (workspace_id demo_self) demo_schema_trace =
      (Inr [demo_flat1, demo_flat2], demo_schema_trace @ demo_extract_trace) \<and>
    [demo_flat1, demo_flat2] \<noteq> [] \<and>
    load_tasks rejecting_world [demo_flat1, demo_flat2] (demo_schema_trace @ demo_extract_trace) =
      (Inl (LibraryError ''schema mismatch''), rejected_load_trace)"
    by (rule conjI[OF rejecting_create_tables conjI[OF rejecting_fetch_tasks
          conjI[OF list.distinct(2) rejecting_load_tasks]]])
  note R = errors_reach_sync_data[of rejecting_world demo_self "[]", THEN conjunct2,
      THEN conjunct2, THEN conjunct2, THEN conjunct1, rule_format, OF r]
  note X = errors_reach_sync_data[of idless_world demo_self "[]", THEN conjunct2,
      THEN conjunct2, THEN conjunct2, THEN conjunct2, THEN conjunct2, THEN conjunct1, rule_format]
  have x: "extraction_raises idless_world demo_self (workspace_id demo_self) demo_schema_trace
     (KeyError ''id'') idless_trace"
    by (rule X[THEN iffD2, OF idless_fetch_tasks])
  have i: "create_tables_if_not_exist idless_world demo_self
      ([] @ [Log INFO ''Starting ClickUp to BigQuery sync'']) = (Inr (), demo_schema_trace) \<and>
    fetch_tasks idless_world demo_self (workspace_id demo_self) demo_schema_trace =
      (Inl (KeyError ''id''), idless_trace)"
    by (rule conjI[OF idless_create_tables X[THEN iffD1, OF x]])
  note I = errors_reach_sync_data[of idless_world demo_self "[]", THEN conjunct2,
      THEN conjunct2, THEN conjunct1, rule_format, OF i, THEN conjunct1]
  show ?thesis
    by (rule conjI[OF timeout_trace_facts conjI[OF w1 conjI[OF w2 conjI[OF kindless_create_tables
          conjI[OF K conjI[OF m conjI[OF M conjI[OF r conjI[OF R conjI[OF idless_task_raises
          conjI[OF x conjI[OF i I]]]]]]]]]]]])
qed

text \<open>
  C7. When the schema step has passed and the extractor returns a non-empty list, the run
  goes on with exactly this: one load call with the extracted tasks as rows, the tasks
  table as destination and the write disposition \<^verbatim>\<open>WRITE_TRUNCATE\<close> (whole-table
  overwrite, neither append nor write-if-empty); if the call raises, the error is logged
  and raised again; otherwise the wait for the job's result; if the wait raises, likewise;
  and only after the wait has returned are the loaded-count and completion messages logged
  and the run returns normally.
\<close>

theorem nonempty_extraction_is_loaded:
  assumes "create_tables_if_not_exist W self (tr @ [Log INFO ''Starting ClickUp to BigQuery sync'']) = (Inr (), tr1)"
    and "fetch_tasks W self (workspace_id self) tr1 = (Inr tasks, tr2)"
    and "tasks \<noteq> []"
  shows "sync_data W self tr =
     (case load_table_from_json W tr2 tasks tasks_table_ref \<lparr> write_disposition = Some WRITE_TRUNCATE \<rparr> of
        Some e \<Rightarrow>
          (Inl e, tr2 @ [Load_table_from_json tasks tasks_table_ref
                           \<lparr> write_disposition = Some WRITE_TRUNCATE \<rparr> (Some e),
                         Log ERROR (''Error during sync: '' @ exn_str e)])
      | None \<Rightarrow>
          (case job_result W (tr2 @ [Load_table_from_json tasks tasks_table_ref
                                       \<lparr> write_disposition = Some WRITE_TRUNCATE \<rparr> None]) of
             Some e \<Rightarrow>
               (Inl e, tr2 @ [Load_table_from_json tasks tasks_table_ref
                                \<lparr> write_disposition = Some WRITE_TRUNCATE \<rparr> None,
                              Job_result (Some e),
                              Log ERROR (''Error during sync: '' @ exn_str e)])
           | None \<Rightarrow>
               (Inr (), tr2 @ [Load_table_from_json tasks tasks_table_ref
                                \<lparr> write_disposition = Some WRITE_TRUNCATE \<rparr> None,
                              Job_result None,
                              Log INFO (''Loaded '' @ decimal (length tasks) @ '' tasks to BigQuery''),
                              Log INFO ''Sync completed successfully''])))"
  unfolding sync_data_with_tasks[OF assms] load_tasks_eq
  by (simp split: option.splits)

theorem nonempty_extraction_is_loaded_witness:
  "create_tables_if_not_exist demo_sync_world demo_self ([] @ [Log INFO ''Starting ClickUp to BigQuery sync''])
     = (Inr (), demo_schema_trace) \<and>
   fetch_tasks demo_sync_world demo_self (workspace_id demo_self) demo_schema_trace =
     (Inr [demo_flat1, demo_flat2], demo_schema_trace @ demo_extract_trace) \<and>
   [demo_flat1, demo_flat2] \<noteq> [] \<and>
   sync_data demo_sync_world demo_self [] =
     (Inr (), (demo_schema_trace @ demo_extract_trace) @
        [Load_table_from_json [demo_flat1, demo_flat2] tasks_table_ref
           \<lparr> write_disposition = Some WRITE_TRUNCATE \<rparr> None,
         Job_result None,
         Log INFO ''Loaded 2 tasks to BigQuery'',
         Log INFO ''Sync completed successfully''])"
proof -
  have c: "create_tables_if_not_exist demo_sync_world demo_self ([] @ [Log INFO ''Starting ClickUp to BigQuery sync''])
     = (Inr (), demo_schema_trace)"
    unfolding demo_sync_world_def by (rule demo_create_tables)
  have n: "[demo_flat1, demo_flat2] \<noteq> []" by simp
  have r: "sync_data demo_sync_world demo_self [] =
     (Inr (), (demo_schema_trace @ demo_extract_trace) @
        [Load_table_from_json [demo_flat1, demo_flat2] tasks_table_ref
           \<lparr> write_disposition = Some WRITE_TRUNCATE \<rparr> None,
         Job_result None,
         Log INFO ''Loaded 2 tasks to BigQuery'',
         Log INFO ''Sync completed successfully''])"
    using nonempty_extraction_is_loaded[OF c demo_sync_fetch_tasks n]
    by (simp add: demo_sync_world_def decimal_Suc_Suc_0)
  show ?thesis by (rule conjI[OF c conjI[OF demo_sync_fetch_tasks conjI[OF n r]]])
qed

section \<open>Responses without the expected key\<close>

lemma missing_custom_fields_key:
  assumes "map_of d ''custom_fields'' = None"
    and "http W tr (custom_fields_url W self (workspace_id self)) (headers self) = Inr (PDict d)"
  shows "fetch_custom_fields W self (workspace_id self) tr =
           (Inr (PList []),
            tr @ [Http_get (custom_fields_url W self (workspace_id self)) (headers self) (Inr (PDict d))])"
    and "\<exists>outcome. create_tables_if_not_exist W self tr =
           ((case outcome of None \<Rightarrow> Inr () | Some e \<Rightarrow> Inl e),
            tr @ [Http_get (custom_fields_url W self (workspace_id self)) (headers self) (Inr (PDict d)),
                  Create_table \<lparr> table_reference = tasks_table_ref, table_schema = base_schema \<rparr>
                    True outcome])"
proof -
  show "fetch_custom_fields W self (workspace_id self) tr =
           (Inr (PList []),
            tr @ [Http_get (custom_fields_url W self (workspace_id self)) (headers self) (Inr (PDict d))])"
    using assms by (simp add: fetch_custom_fields_def io_bind_def requests_get_json_eq io_lift_def)
  have g: "py_get (PDict d) ''custom_fields'' (PList []) = Inr (PList [])"
    using assms(1) by simp
  have i: "py_iter (PList []) = Inr []" by simp
  show "\<exists>outcome. create_tables_if_not_exist W self tr =
           ((case outcome of None \<Rightarrow> Inr () | Some e \<Rightarrow> Inl e),
            tr @ [Http_get (custom_fields_url W self (workspace_id self)) (headers self) (Inr (PDict d)),
                  Create_table \<lparr> table_reference = tasks_table_ref, table_schema = base_schema \<rparr>
                    True outcome])"
    unfolding create_tables_eq[OF assms(2) g i]
    by (simp add: io_call_eq)
qed

lemma empty_spaces_response:
  assumes "map_of d ''spaces'' = None \<or> map_of d ''spaces'' = Some (PList [])"
    and "http W tr (spaces_url W self wid) (headers self) = Inr (PDict d)"
  shows "fetch_tasks W self wid tr =
           (Inr [], tr @ [Http_get (spaces_url W self wid) (headers self) (Inr (PDict d))])"
proof -
  have "py_get (PDict d) ''spaces'' (PList []) = Inr (PList [])"
    using assms(1) by auto
  then show ?thesis
    using assms(2)
    by (simp add: fetch_tasks_def io_bind_def requests_get_json_eq io_lift_def io_return_def
          del: py_get.simps)
qed

lemma missing_lists_key:
  assumes "map_of d ''lists'' = None" and "py_getitem space ''id'' = Inr sid"
    and "http W tr (lists_url W self sid) (headers self) = Inr (PDict d)"
  shows "spaces_loop W self (space # rest) acc tr =
           spaces_loop W self rest acc
             (tr @ [Http_get (lists_url W self sid) (headers self) (Inr (PDict d))])"
  using assms
  by (simp add: io_bind_def requests_get_json_eq io_lift_def io_return_def)

lemma missing_tasks_key:
  assumes "map_of d ''tasks'' = None" and "py_getitem list_obj ''id'' = Inr lid"
    and "http W tr (tasks_url W self lid) (headers self) = Inr (PDict d)"
  shows "lists_loop W self space (list_obj # rest) acc tr =
           lists_loop W self space rest acc
             (tr @ [Http_get (tasks_url W self lid) (headers self) (Inr (PDict d))])"
  using assms
  by (simp add: io_bind_def requests_get_json_eq io_lift_def io_return_def)

text \<open>
  C9. A response that is a JSON object without the expected key reads as the empty
  collection, and the stage goes on without raising: without \<^verbatim>\<open>custom_fields\<close> the schema
  builder gets no definition and asks for the table with the base columns only; without
  \<^verbatim>\<open>spaces\<close> the extractor returns the empty list after that one request, exactly as it
  does for a response whose \<^verbatim>\<open>spaces\<close> is the empty list; without \<^verbatim>\<open>lists\<close> the space
  adds no task and the loop goes on with the next space; without \<^verbatim>\<open>tasks\<close> the list adds
  no task and the loop goes on with the next list.
\<close>

theorem missing_collection_key:
  "(map_of d ''custom_fields'' = None \<and>
    http W tr (custom_fields_url W self (workspace_id self)) (headers self) = Inr (PDict d) \<longrightarrow>
      fetch_custom_fields W self (workspace_id self) tr =
        (Inr (PList []),
         tr @ [Http_get (custom_fields_url W self (workspace_id self)) (headers self) (Inr (PDict d))]) \<and>
      (\<exists>outcome. create_tables_if_not_exist W self tr =
         ((case outcome of None \<Rightarrow> Inr () | Some e \<Rightarrow> Inl e),
          tr @ [Http_get (custom_fields_url W self (workspace_id self)) (headers self) (Inr (PDict d)),
                Create_table \<lparr> table_reference = tasks_table_ref, table_schema = base_schema \<rparr>
                  True outcome]))) \<and>
   ((map_of d ''spaces'' = None \<or> map_of d ''spaces'' = Some (PList [])) \<and>
    http W tr (spaces_url W self wid) (headers self) = Inr (PDict d) \<longrightarrow>
      fetch_tasks W self wid tr =
        (Inr [], tr @ [Http_get (spaces_url W self wid) (headers self) (Inr (PDict d))])) \<and>
   (map_of d ''lists'' = None \<and> py_getitem space ''id'' = Inr sid \<and>
    http W tr (lists_url W self sid) (headers self) = Inr (PDict d) \<longrightarrow>
      spaces_loop W self (space # rest) acc tr =
        spaces_loop W self rest acc
          (tr @ [Http_get (lists_url W self sid) (headers self) (Inr (PDict d))])) \<and>
   (map_of d ''tasks'' = None \<and> py_getitem list_obj ''id'' = Inr lid \<and>
    http W tr (tasks_url W self lid) (headers self) = Inr (PDict d) \<longrightarrow>
      lists_loop W self space (list_obj # rest') acc' tr =
        lists_loop W self space rest' acc'
          (tr @ [Http_get (tasks_url W self lid) (headers self) (Inr (PDict d))]))"
  using missing_custom_fields_key[of d W tr self] empty_spaces_response[of d W tr self wid]
    missing_lists_key[of d space sid W tr self rest acc]
    missing_tasks_key[of d list_obj lid W tr self space rest' acc']
  by blast

theorem missing_collection_key_witness:
  "(map_of [] ''custom_fields'' = None \<and>
    http keyless_world [] (custom_fields_url keyless_world demo_self (workspace_id demo_self))
      (headers demo_self) = Inr (PDict [])) \<and>
   (fetch_custom_fields keyless_world demo_self (workspace_id demo_self) [] =
      (Inr (PList []),
       [] @ [Http_get (custom_fields_url keyless_world demo_self (workspace_id demo_self))
               (headers demo_self) (Inr (PDict []))]) \<and>
    (\<exists>outcome. create_tables_if_not_exist keyless_world demo_self [] =
       ((case outcome of None \<Rightarrow> Inr () | Some e \<Rightarrow> Inl e),
        [] @ [Http_get (custom_fields_url keyless_world demo_self (workspace_id demo_self))
                (headers demo_self) (Inr (PDict [])),
              Create_table \<lparr> table_reference = tasks_table_ref, table_schema = base_schema \<rparr>
                True outcome]))) \<and>
   ((map_of [] ''spaces'' = None \<or> map_of [] ''spaces'' = Some (PList [])) \<and>
    http keyless_world [] (spaces_url keyless_world demo_self (workspace_id demo_self))
      (headers demo_self) = Inr (PDict [])) \<and>
   fetch_tasks keyless_world demo_self (workspace_id demo_self) [] =
     (Inr [], [] @ [Http_get (spaces_url keyless_world demo_self (workspace_id demo_self))
                      (headers demo_self) (Inr (PDict []))]) \<and>
   (map_of [] ''lists'' = None \<and> py_getitem (PDict [(''id'', PStr ''S1'')]) ''id'' = Inr (PStr ''S1'') \<and>
    http keyless_world [] (lists_url keyless_world demo_self (PStr ''S1'')) (headers demo_self)
      = Inr (PDict [])) \<and>
   spaces_loop keyless_world demo_self (PDict [(''id'', PStr ''S1'')] # []) [] [] =
     spaces_loop keyless_world demo_self [] []
       ([] @ [Http_get (lists_url keyless_world demo_self (PStr ''S1'')) (headers demo_self)
                (Inr (PDict []))]) \<and>
   (map_of [] ''tasks'' = None \<and> py_getitem (PDict [(''id'', PStr ''L1'')]) ''id'' = Inr (PStr ''L1'') \<and>
    http keyless_world [] (tasks_url keyless_world demo_self (PStr ''L1'')) (headers demo_self)
      = Inr (PDict [])) \<and>
   lists_loop keyless_world demo_self (PDict [(''id'', PStr ''S1'')]) (PDict [(''id'', PStr ''L1'')] # []) [] [] =
     lists_loop keyless_world demo_self (PDict [(''id'', PStr ''S1'')]) [] []
       ([] @ [Http_get (tasks_url keyless_world demo_self (PStr ''L1'')) (headers demo_self)
                (Inr (PDict []))])"
proof -
  note m = missing_collection_key[where d="[]" and W=keyless_world and tr="[]" and self=demo_self
      and wid="workspace_id demo_self" and space="PDict [(''id'', PStr ''S1'')]" and sid="PStr ''S1''"
      and rest="[]" and acc="[]" and list_obj="PDict [(''id'', PStr ''L1'')]" and lid="PStr ''L1''"
      and rest'="[]" and acc'="[]"]
  have p1: "map_of [] ''custom_fields'' = None \<and>
    http keyless_world [] (custom_fields_url keyless_world demo_self (workspace_id demo_self))
      (headers demo_self) = Inr (PDict [])"
    by (simp add: keyless_world_def)
  have p2: "(map_of [] ''spaces'' = None \<or> map_of [] ''spaces'' = Some (PList [])) \<and>
    http keyless_world [] (spaces_url keyless_world demo_self (workspace_id demo_self))
      (headers demo_self) = Inr (PDict [])"
    by (simp add: keyless_world_def)
  have p3: "map_of [] ''lists'' = None \<and> py_getitem (PDict [(''id'', PStr ''S1'')]) ''id'' = Inr (PStr ''S1'') \<and>
    http keyless_world [] (lists_url keyless_world demo_self (PStr ''S1'')) (headers demo_self)
      = Inr (PDict [])"
    by (simp add: keyless_world_def)
  have p4: "map_of [] ''tasks'' = None \<and> py_getitem (PDict [(''id'', PStr ''L1'')]) ''id'' = Inr (PStr ''L1'') \<and>
    http keyless_world [] (tasks_url keyless_world demo_self (PStr ''L1'')) (headers demo_self)
      = Inr (PDict [])"
    by (simp add: keyless_world_def)
  note c1 = m[THEN conjunct1, THEN mp, OF p1]
  note c2 = m[THEN conjunct2, THEN conjunct1, THEN mp, OF p2]
  note c3 = m[THEN conjunct2, THEN conjunct2, THEN conjunct1, THEN mp, OF p3]
  note c4 = m[THEN conjunct2, THEN conjunct2, THEN conjunct2, THEN mp, OF p4]
  show ?thesis
    by (rule conjI[OF p1 conjI[OF c1 conjI[OF p2 conjI[OF c2 conjI[OF p3 conjI[OF c3 conjI[OF p4 c4]]]]]]])
qed

end
